theory Spec2Isabelle
  imports Complex_Main
begin

section \<open>JavaScript values\<close>

text \<open>
  A JavaScript number is a double. The model keeps the exact value of a finite double as a
  rational, and the three values that are not finite. \<open>toFixed\<close>, \<open>Math.round\<close> and the
  truthiness test are defined by ECMAScript on that exact value, so they are computed on it
  (up to the magnitude \<open>10^21\<close>, where \<open>toFixed\<close> changes to exponent notation). The
  operations whose exact result need not be a double, \<open>*\<close>, \<open>/\<close> and the conversion of a
  string, round it to the nearest double as IEEE 754 says (\<open>to_double\<close> below). What is
  idealised: negative zero is not told from zero.
\<close>

datatype jsnum = Num rat | NaN | Infinity | NegInfinity

text \<open>A value of a substitution dictionary: a string or a number.\<close>

datatype jsval = JStr string | JNum jsnum

text \<open>\<open>if (x)\<close> on a number: \<open>0\<close> and \<open>NaN\<close> are falsy.\<close>

fun truthy :: "jsnum \<Rightarrow> bool" where
  "truthy (Num r) = (r \<noteq> 0)"
| "truthy NaN = False"
| "truthy Infinity = True"
| "truthy NegInfinity = True"

text \<open>\<open>x || 0\<close> on a number that may be \<open>undefined\<close>.\<close>

fun or_zero :: "jsnum option \<Rightarrow> jsnum" where
  "or_zero None = Num 0"
| "or_zero (Some x) = (if truthy x then x else Num 0)"

text \<open>The number an operand that may be \<open>undefined\<close> converts to: \<open>undefined\<close> gives \<open>NaN\<close>.\<close>

fun to_number :: "jsnum option \<Rightarrow> jsnum" where
  "to_number None = NaN"
| "to_number (Some x) = x"

fun js_neg :: "jsnum \<Rightarrow> jsnum" where
  "js_neg (Num a) = Num (- a)"
| "js_neg NaN = NaN"
| "js_neg Infinity = NegInfinity"
| "js_neg NegInfinity = Infinity"

text \<open>An infinity of the sign of \<open>a\<close>, and \<open>NaN\<close> when \<open>a\<close> is zero.\<close>

definition signed_inf :: "rat \<Rightarrow> jsnum" where
  "signed_inf a = (if a = 0 then NaN else if 0 < a then Infinity else NegInfinity)"

subsection \<open>Rounding to a double\<close>

text \<open>
  A finite double is \<open>n * 2^(e - 52)\<close> for an integer \<open>n\<close> below \<open>2^53\<close> in magnitude and
  an exponent \<open>e\<close> from \<open>-1022\<close> to \<open>1023\<close>. For \<open>a\<close> from 1 on, \<open>scale_down\<close> halves \<open>a\<close>
  until it is below 2 and counts the steps in \<open>e\<close>; below 1, \<open>scale_up\<close> doubles it until
  it is at least 1, and stops at the least exponent, \<open>-1022\<close>, where the subnormal doubles
  are. Both give \<open>(m, e)\<close> with \<open>a = m * 2^e\<close>.
\<close>

function scale_down :: "rat \<Rightarrow> int \<Rightarrow> rat \<times> int" where
  "scale_down a e = (if a < 2 \<or> 1024 \<le> e then (a, e) else scale_down (a / 2) (e + 1))"
  by pat_completeness auto
termination
  by (relation "measure (\<lambda>(a, e). nat (1024 - e))") auto

function scale_up :: "rat \<Rightarrow> int \<Rightarrow> rat \<times> int" where
  "scale_up a e = (if 1 \<le> a \<or> e \<le> - 1022 then (a, e) else scale_up (a * 2) (e - 1))"
  by pat_completeness auto
termination
  by (relation "measure (\<lambda>(a, e). nat (e + 1022))") auto

declare scale_down.simps [simp del] scale_up.simps [simp del]

definition pow2 :: "int \<Rightarrow> rat" where
  "pow2 e = (if 0 \<le> e then 2 ^ nat e else 1 / 2 ^ nat (- e))"

text \<open>The integer nearest to \<open>y\<close>, the even one of the two at a tie.\<close>

definition round_half_even :: "rat \<Rightarrow> int" where
  "round_half_even y =
     (let f = \<lfloor>y\<rfloor>; d = y - of_int f
      in if d < 1 / 2 then f else if 1 / 2 < d then f + 1 else if even f then f else f + 1)"

text \<open>
  The double nearest to \<open>x\<close> (round to nearest, ties to even): the significand \<open>m * 2^52\<close>
  is rounded to an integer; a magnitude that rounds to \<open>2^1024\<close> or more is an infinity.
\<close>

definition to_double :: "rat \<Rightarrow> jsnum" where
  "to_double x =
     (if x = 0 then Num 0
      else
        (let (m, e) = (if 1 \<le> \<bar>x\<bar> then scale_down \<bar>x\<bar> 0 else scale_up \<bar>x\<bar> 0);
             r = of_int (round_half_even (m * 2 ^ 52)) * pow2 (e - 52)
         in if 2 ^ 1024 \<le> r then (if 0 < x then Infinity else NegInfinity)
            else Num (if x < 0 then - r else r)))"

text \<open>\<open>x * y\<close> and \<open>x / y\<close>: the exact result, rounded to a double.\<close>

fun js_mul :: "jsnum \<Rightarrow> jsnum \<Rightarrow> jsnum" where
  "js_mul (Num a) (Num b) = to_double (a * b)"
| "js_mul NaN y = NaN"
| "js_mul x NaN = NaN"
| "js_mul (Num a) Infinity = signed_inf a"
| "js_mul (Num a) NegInfinity = signed_inf (- a)"
| "js_mul Infinity (Num b) = signed_inf b"
| "js_mul NegInfinity (Num b) = signed_inf (- b)"
| "js_mul Infinity Infinity = Infinity"
| "js_mul NegInfinity NegInfinity = Infinity"
| "js_mul Infinity NegInfinity = NegInfinity"
| "js_mul NegInfinity Infinity = NegInfinity"

fun js_div :: "jsnum \<Rightarrow> jsnum \<Rightarrow> jsnum" where
  "js_div (Num a) (Num b) = (if b = 0 then signed_inf a else to_double (a / b))"
| "js_div NaN y = NaN"
| "js_div x NaN = NaN"
| "js_div (Num a) Infinity = Num 0"
| "js_div (Num a) NegInfinity = Num 0"
| "js_div Infinity (Num b) = (if 0 \<le> b then Infinity else NegInfinity)"
| "js_div NegInfinity (Num b) = (if 0 \<le> b then NegInfinity else Infinity)"
| "js_div Infinity Infinity = NaN"
| "js_div NegInfinity NegInfinity = NaN"
| "js_div Infinity NegInfinity = NaN"
| "js_div NegInfinity Infinity = NaN"

text \<open>
  \<open>x / 1024\<close>, the one division of the GPU formatter. 1024 is a power of two: dividing a
  double by it lowers the exponent by 10 and leaves the significand, so the exact quotient
  is the double (down to \<open>2^-1012\<close> in magnitude, far below any memory size); for the
  integers up to \<open>2^53\<close> this is \<open>div_1024_exact\<close> below.
\<close>

fun div_1024 :: "jsnum \<Rightarrow> jsnum" where
  "div_1024 (Num a) = Num (a / 1024)"
| "div_1024 x = x"

text \<open>\<open>Math.round\<close>: the nearest integer, a tie going up.\<close>

fun Math_round :: "jsnum \<Rightarrow> jsnum" where
  "Math_round (Num a) = Num (of_int \<lfloor>a + 1 / 2\<rfloor>)"
| "Math_round x = x"

subsection \<open>Decimal digits and \<open>toFixed\<close>\<close>

definition digit_char :: "nat \<Rightarrow> char" where
  "digit_char d = ''0123456789'' ! d"

fun dec :: "nat \<Rightarrow> string" where
  "dec n = (if n < 10 then [digit_char n] else dec (n div 10) @ [digit_char (n mod 10)])"

declare dec.simps [simp del]

text \<open>
  \<open>Number.prototype.toFixed(f)\<close> on a finite \<open>x\<close>: the sign is taken off, \<open>n\<close> is the
  integer nearest to \<open>x * 10^f\<close> (the larger one at a tie), its digits are padded with
  zeros on the left to \<open>f + 1\<close> digits, and the point goes before the last \<open>f\<close> digits.
\<close>

definition fixed_digits :: "nat \<Rightarrow> rat \<Rightarrow> string" where
  "fixed_digits f x =
     (let n = nat \<lfloor>x * 10 ^ f + 1 / 2\<rfloor>;
          m = dec n;
          m' = replicate (Suc f - length m) (CHR ''0'') @ m;
          k = length m' - f
      in if f = 0 then m' else take k m' @ ''.'' @ drop k m')"

fun toFixed :: "nat \<Rightarrow> jsnum \<Rightarrow> string" where
  "toFixed f (Num x) = (if x < 0 then ''-'' @ fixed_digits f (- x) else fixed_digits f x)"
| "toFixed f NaN = ''NaN''"
| "toFixed f Infinity = ''Infinity''"
| "toFixed f NegInfinity = ''-Infinity''"

text \<open>\<open>String(x)\<close> is needed only for what \<open>||\<close> tests: a string is truthy when not empty.\<close>

definition str_or_zero :: "string \<Rightarrow> jsval" where
  "str_or_zero s = (if s = [] then JNum (Num 0) else JStr s)"

text \<open>\<open>xs[i]\<close> on an array whose entries may be \<open>undefined\<close>: out of range is \<open>undefined\<close>.\<close>

definition at_index :: "'a option list \<Rightarrow> nat \<Rightarrow> 'a option" where
  "at_index xs i = (if i < length xs then xs ! i else None)"

section \<open>JavaScript strings\<close>

text \<open>
  Strings are lists of 8-bit characters. The white space of \<open>trim\<close>, of \<open>\s\<close> and of the
  conversion to a number is the same set; in this range it is TAB, LF, VT, FF, CR, the
  space and the no-break space.
\<close>

definition is_space :: "char \<Rightarrow> bool" where
  "is_space c = (c \<in> set [CHR 0x09, CHR 0x0A, CHR 0x0B, CHR 0x0C, CHR 0x0D, CHR 0x20, CHR 0xA0])"

definition is_digit :: "char \<Rightarrow> bool" where
  "is_digit c = (c \<in> set ''0123456789'')"

definition trim :: "string \<Rightarrow> string" where
  "trim s = rev (dropWhile is_space (rev (dropWhile is_space s)))"

text \<open>
  \<open>s.split(sep)\<close> for a separator that is not empty (the source splits at \<open>'\n'\<close> and at
  \<open>', '\<close>): \<open>cur\<close> is the piece read so far.
\<close>

function split_from :: "string \<Rightarrow> string \<Rightarrow> string \<Rightarrow> string list" where
  "split_from sep cur s =
     (if s = [] then [cur]
      else if sep \<noteq> [] \<and> take (length sep) s = sep
        then cur # split_from sep [] (drop (length sep) s)
      else split_from sep (cur @ [hd s]) (tl s))"
  by pat_completeness auto
termination
  by (relation "measure (\<lambda>(sep, cur, s). length s)") auto

declare split_from.simps [simp del]

definition split :: "string \<Rightarrow> string \<Rightarrow> string list" where
  "split s sep = split_from sep [] s"

subsection \<open>\<open>Number(s)\<close> on a string\<close>

definition digit_val :: "char \<Rightarrow> nat" where
  "digit_val c = of_char c - 48"

definition digits_val :: "string \<Rightarrow> nat" where
  "digits_val ds = foldl (\<lambda>v c. 10 * v + digit_val c) 0 ds"

definition radix_digit :: "char \<Rightarrow> nat option" where
  "radix_digit c =
     (if is_digit c then Some (of_char c - 48)
      else if c \<in> set ''abcdef'' then Some (of_char c - 87)
      else if c \<in> set ''ABCDEF'' then Some (of_char c - 55)
      else None)"

text \<open>The digits of an integer literal of radix \<open>r\<close>; \<open>None\<close> when a character is no digit of it.\<close>

fun radix_val :: "nat \<Rightarrow> nat \<Rightarrow> string \<Rightarrow> nat option" where
  "radix_val r v [] = Some v"
| "radix_val r v (c # cs) =
     (case radix_digit c of
        None \<Rightarrow> None
      | Some d \<Rightarrow> if d < r then radix_val r (r * v + d) cs else None)"

text \<open>\<open>0x\<close>, \<open>0o\<close> and \<open>0b\<close> literals: no sign, at least one digit.\<close>

definition non_decimal :: "string \<Rightarrow> jsnum option" where
  "non_decimal t =
     (case t of
        z # x # ds \<Rightarrow>
          if z = CHR ''0'' \<and> ds \<noteq> [] then
            (if x \<in> set ''xX'' then map_option (\<lambda>n. Num (of_nat n)) (radix_val 16 0 ds)
             else if x \<in> set ''oO'' then map_option (\<lambda>n. Num (of_nat n)) (radix_val 8 0 ds)
             else if x \<in> set ''bB'' then map_option (\<lambda>n. Num (of_nat n)) (radix_val 2 0 ds)
             else None)
          else None
      | _ \<Rightarrow> None)"

definition pow10 :: "int \<Rightarrow> rat" where
  "pow10 e = (if 0 \<le> e then 10 ^ nat e else 1 / 10 ^ nat (- e))"

text \<open>The exponent part: nothing, or \<open>e\<close>, an optional sign and at least one digit.\<close>

definition exponent_part :: "string \<Rightarrow> int option" where
  "exponent_part r =
     (case r of
        [] \<Rightarrow> Some 0
      | c # t \<Rightarrow>
          if c \<in> set ''eE'' then
            (let sg = (case t of [] \<Rightarrow> 1 | d # _ \<Rightarrow> if d = CHR ''-'' then - 1 else 1);
                 ds = (case t of [] \<Rightarrow> [] | d # u \<Rightarrow> if d \<in> set ''+-'' then u else t)
             in if ds \<noteq> [] \<and> list_all is_digit ds then Some (sg * int (digits_val ds)) else None)
          else None)"

text \<open>
  An unsigned decimal literal: \<open>Infinity\<close>, or digits, an optional point and digits, with at
  least one digit before or after the point, and an exponent part.
\<close>

definition unsigned_decimal :: "string \<Rightarrow> jsnum option" where
  "unsigned_decimal s =
     (if s = ''Infinity'' then Some Infinity
      else
        (let ip = takeWhile is_digit s;
             r1 = dropWhile is_digit s;
             dot = (r1 \<noteq> [] \<and> hd r1 = CHR ''.'');
             fp = (if dot then takeWhile is_digit (tl r1) else []);
             r2 = (if dot then dropWhile is_digit (tl r1) else r1)
         in if ip = [] \<and> fp = [] then None
            else
              (case exponent_part r2 of
                 None \<Rightarrow> None
               | Some e \<Rightarrow>
                   Some (Num ((of_nat (digits_val ip) + of_nat (digits_val fp) / 10 ^ length fp)
                              * pow10 e)))))"

definition signed_decimal :: "string \<Rightarrow> jsnum option" where
  "signed_decimal t =
     (case t of
        [] \<Rightarrow> None
      | c # u \<Rightarrow>
          if c = CHR ''+'' then unsigned_decimal u
          else if c = CHR ''-'' then map_option js_neg (unsigned_decimal u)
          else unsigned_decimal t)"

text \<open>The Number value of the mathematical value of a literal: the nearest double.\<close>

fun RoundMVResult :: "jsnum \<Rightarrow> jsnum" where
  "RoundMVResult (Num x) = to_double x"
| "RoundMVResult v = v"

text \<open>
  \<open>Number(s)\<close>: white space is trimmed, the empty string is \<open>0\<close>, a numeric literal is its
  value rounded to a double, anything else is \<open>NaN\<close>.
\<close>

definition StringToNumber :: "string \<Rightarrow> jsnum" where
  "StringToNumber s =
     (let t = trim s
      in if t = [] then Num 0
         else
           (case non_decimal t of
              Some v \<Rightarrow> RoundMVResult v
            | None \<Rightarrow> (case signed_decimal t of Some v \<Rightarrow> RoundMVResult v | None \<Rightarrow> NaN)))"

text \<open>\<open>Number(v)\<close> on a dictionary value.\<close>

fun Number :: "jsval \<Rightarrow> jsnum" where
  "Number (JStr s) = StringToNumber s"
| "Number (JNum x) = x"

subsection \<open>The pattern of the Tegra line\<close>

text \<open>
  \<open>/(\d+)\/(\d+)\s+MB\s+(\d+)%/\<close> tried at the head of \<open>s\<close>. Each repetition is followed
  by a character that it cannot match, so the one way to match takes every repetition as
  long as it goes. The result is the three groups.
\<close>

definition match_here :: "string \<Rightarrow> (string \<times> string \<times> string) option" where
  "match_here s =
     (let d1 = takeWhile is_digit s; r1 = dropWhile is_digit s in
      if d1 = [] \<or> r1 = [] \<or> hd r1 \<noteq> CHR ''/'' then None
      else
        (let d2 = takeWhile is_digit (tl r1); r2 = dropWhile is_digit (tl r1);
             w1 = takeWhile is_space r2; r3 = dropWhile is_space r2 in
         if d2 = [] \<or> w1 = [] \<or> take 2 r3 \<noteq> ''MB'' then None
         else
           (let w2 = takeWhile is_space (drop 2 r3); r4 = dropWhile is_space (drop 2 r3);
                d3 = takeWhile is_digit r4; r5 = dropWhile is_digit r4 in
            if w2 = [] \<or> d3 = [] \<or> r5 = [] \<or> hd r5 \<noteq> CHR ''%'' then None
            else Some (d1, d2, d3))))"

text \<open>\<open>line.match(re)\<close>: the match at the leftmost position that has one.\<close>

fun regex_match :: "string \<Rightarrow> (string \<times> string \<times> string) option" where
  "regex_match [] = None"
| "regex_match (c # cs) =
     (case match_here (c # cs) of Some m \<Rightarrow> Some m | None \<Rightarrow> regex_match cs)"

section \<open>What the two source files import\<close>

text \<open>The metric kinds: the keys of \<open>sysinfoData\<close>.\<close>

datatype StatsModule = cpuLoad | loadavg | networkSpeed | memoUsage | uptime | gpuLoad

fun StatsModuleNameMap :: "StatsModule \<Rightarrow> string" where
  "StatsModuleNameMap cpuLoad = ''CpuLoad''"
| "StatsModuleNameMap loadavg = ''Loadavg''"
| "StatsModuleNameMap networkSpeed = ''NetworkSpeed''"
| "StatsModuleNameMap memoUsage = ''MemoryUsage''"
| "StatsModuleNameMap uptime = ''Uptime''"
| "StatsModuleNameMap gpuLoad = ''GpuLoad''"

text \<open>
  The module \<open>setting\<close> is not among the sources: what the driver reads from it is a
  parameter. \<open>AllEnabled\<close> is the truthiness of the flag; an option is \<open>None\<close> when the key
  (or the whole configuration) is undefined.
\<close>

record setting =
  AllEnabled :: bool
  curModules :: "StatsModule list"
  Location :: "string option"
  Priority :: "int option"
  RefreshInterval :: "int option"
  default_priority :: int
  default_refreshInterval :: int
  CpuLoadFormat :: "string option"
  LoadavgFormat :: "string option"
  MemoUsageFormat :: "string option"
  NetworkSpeedFormat :: "string option"
  UptimeFormat :: "string option"
  GpuLoadFormat :: "string option"

text \<open>What \<open>formatBytes\<close> returns.\<close>

record bytes_fmt =
  data :: jsval
  unit_name :: string

text \<open>
  The module \<open>utils\<close> is not among the sources either: the platform flags and its three
  helpers are parameters. \<open>formatBytes\<close> takes the bytes (which may be null), and the two
  arguments that a call may leave out: the decimals and the custom size.
\<close>

record utils =
  isDarwin :: bool
  isWin32 :: bool
  formatBytes :: "jsnum option \<Rightarrow> nat option \<Rightarrow> rat option \<Rightarrow> bytes_fmt"
  formatTimes :: "jsnum \<Rightarrow> jsval option list"
  formatByDict :: "string option \<Rightarrow> (string \<times> jsval option) list \<Rightarrow> string"

section \<open>The metric source adapters\<close>

text \<open>
  An async function settles to a value (\<open>Inr\<close>) or rejects with an error (\<open>Inl\<close>).
  \<open>Thrown\<close> is an error of a library, of the operating system or of a child process.
\<close>

datatype error = TypeError | Thrown string

type_synonym 'a promise = "error + 'a"

definition await :: "'a promise \<Rightarrow> ('a \<Rightarrow> 'b promise) \<Rightarrow> 'b promise" where
  "await p k = (case p of Inl e \<Rightarrow> Inl e | Inr v \<Rightarrow> k v)"

definition try_catch :: "'a promise \<Rightarrow> (error \<Rightarrow> 'a promise) \<Rightarrow> 'a promise" where
  "try_catch body handler = (case body of Inl e \<Rightarrow> handler e | Inr v \<Rightarrow> Inr v)"

record net_stats =
  tx_sec :: "jsnum option"
  rx_sec :: "jsnum option"

record net_speed =
  up :: "jsnum option"
  down :: "jsnum option"

record memory =
  total :: jsnum
  used :: jsnum
  active :: jsnum
  pressurePercent :: "jsnum option"
  usagePercent :: "jsnum option"

record gpu =
  totalMemory :: "jsnum option"
  usedMemory :: "jsnum option"
  gpuUtilization :: "jsnum option"

text \<open>
  The outcome of every call that leaves the repository, at one moment: the
  system-information library, \<open>os\<close>, the macOS memory module and \<open>exec\<close> (by command line;
  it settles to the two output streams).
\<close>

record sysenv =
  si_currentLoad :: "jsnum promise"
  os_loadavg :: "jsnum option list promise"
  si_networkInterfaceDefault :: "string promise"
  si_networkStats :: "string \<Rightarrow> net_stats list promise"
  os_uptime :: "jsnum promise"
  getMacOsMemoryUsageInfo :: "memory promise"
  si_mem :: "memory promise"
  exec :: "string \<Rightarrow> (string \<times> string) promise"

text \<open>An empty \<open>catch\<close> block falls off the end of the function: the result is \<open>undefined\<close>.\<close>

definition getCpuLoad :: "sysenv \<Rightarrow> jsnum option promise" where
  "getCpuLoad env =
     try_catch (await (si_currentLoad env) (\<lambda>res. Inr (Some res))) (\<lambda>err. Inr None)"

definition getLoadavg :: "sysenv \<Rightarrow> jsnum option list option promise" where
  "getLoadavg env =
     try_catch (await (os_loadavg env) (\<lambda>res. Inr (Some res))) (\<lambda>err. Inr None)"

text \<open>\<open>cur.tx_sec\<close> on the \<open>undefined\<close> that \<open>res[0]\<close> is for an empty array throws.\<close>

definition getNetworkSpeed :: "sysenv \<Rightarrow> net_speed option promise" where
  "getNetworkSpeed env =
     try_catch
       (await (si_networkInterfaceDefault env) (\<lambda>defaultInterface.
        await (si_networkStats env defaultInterface) (\<lambda>res.
          (case res of
             [] \<Rightarrow> Inl TypeError
           | cur # _ \<Rightarrow> Inr (Some \<lparr>up = tx_sec cur, down = rx_sec cur\<rparr>)))))
       (\<lambda>err. Inr None)"

definition getUpTime :: "sysenv \<Rightarrow> jsnum option promise" where
  "getUpTime env =
     try_catch (await (os_uptime env) (\<lambda>res. Inr (Some res))) (\<lambda>err. Inr None)"

definition getMemoryUsage :: "utils \<Rightarrow> sysenv \<Rightarrow> memory option promise" where
  "getMemoryUsage u env =
     try_catch
       (if isDarwin u then
          await (getMacOsMemoryUsageInfo env) (\<lambda>res.
            Inr (Some \<lparr>total = total res, used = used res, active = active res,
                       pressurePercent = pressurePercent res,
                       usagePercent = usagePercent res\<rparr>))
        else
          await (si_mem env) (\<lambda>res.
            Inr (Some \<lparr>total = total res, used = used res, active = active res,
                       pressurePercent = None, usagePercent = None\<rparr>)))
       (\<lambda>err. Inr None)"

subsection \<open>The GPU adapters\<close>

text \<open>
  One line of \<open>nvidia-smi\<close>: the fields between \<open>', '\<close>, each through \<open>Number\<close>, and the
  first three of them by position. A position the line does not have is \<open>undefined\<close>.
\<close>

definition x86_line :: "string \<Rightarrow> gpu" where
  "x86_line line =
     (let fields = map (\<lambda>f. Some (StringToNumber f)) (split line '', '')
      in \<lparr>totalMemory = at_index fields 0, usedMemory = at_index fields 1,
          gpuUtilization = at_index fields 2\<rparr>)"

definition nvidia_smi :: string where
  "nvidia_smi =
     ''nvidia-smi --query-gpu=memory.total,memory.used,utilization.gpu --format=csv,noheader,nounits''"

definition getX86GpuInfo :: "sysenv \<Rightarrow> gpu list option promise" where
  "getX86GpuInfo env =
     try_catch
       (await (exec env nvidia_smi) (\<lambda>(stdout, stderr).
          if stderr \<noteq> [] then Inr None
          else
            (let lines = split (trim stdout) ''\<newline>'';
                 gpuInfo = map x86_line lines
             in Inr (Some gpuInfo))))
       (\<lambda>err. Inr None)"

text \<open>One line of \<open>tegrastats\<close>: a reading when the pattern matches, \<open>null\<close> otherwise.\<close>

definition tegra_line :: "string \<Rightarrow> gpu option" where
  "tegra_line line =
     (case regex_match line of
        Some (m1, m2, m3) \<Rightarrow>
          Some \<lparr>totalMemory = Some (StringToNumber m2), usedMemory = Some (StringToNumber m1),
                gpuUtilization = Some (StringToNumber m3)\<rparr>
      | None \<Rightarrow> None)"

text \<open>\<open>.filter(Boolean)\<close> keeps the entries that are not \<open>null\<close>.\<close>

definition filter_Boolean :: "'a option list \<Rightarrow> 'a list" where
  "filter_Boolean xs = List.map_filter (\<lambda>x. x) xs"

definition getTegraInfo :: "sysenv \<Rightarrow> gpu list option promise" where
  "getTegraInfo env =
     try_catch
       (await (exec env ''tegrastats'') (\<lambda>(stdout, stderr).
          if stderr \<noteq> [] then Inr None
          else
            (let lines = split (trim stdout) ''\<newline>'';
                 tegraInfo = filter_Boolean (map tegra_line lines)
             in Inr (Some tegraInfo))))
       (\<lambda>err. Inr None)"

text \<open>\<open>arch.includes('tegra')\<close>.\<close>

fun str_includes :: "string \<Rightarrow> string \<Rightarrow> bool" where
  "str_includes [] sub = (sub = [])"
| "str_includes (c # cs) sub = (take (length sub) (c # cs) = sub \<or> str_includes cs sub)"

definition detectPlatform :: "sysenv \<Rightarrow> gpu list option promise" where
  "detectPlatform env =
     try_catch
       (await (exec env ''uname -m'') (\<lambda>(stdout, stderr).
          (let arch = trim stdout
           in if arch = ''x86_64'' \<or> arch = ''i686'' then getX86GpuInfo env
              else if str_includes arch ''tegra'' then getTegraInfo env
              else Inr None)))
       (\<lambda>err. Inr None)"

text \<open>
  \<open>getGpuLoad\<close> returns the promise of \<open>detectPlatform\<close> without awaiting it, so its own
  \<open>try\<close> sees no rejection: the promise is passed on as it is.
\<close>

definition getGpuLoad :: "sysenv \<Rightarrow> gpu list option promise" where
  "getGpuLoad env = detectPlatform env"

text \<open>
  A reading, by kind: what \<open>sysinfoData[module]()\<close> settles to. \<open>None\<close> is \<open>undefined\<close>
  or \<open>null\<close>.
\<close>

datatype raw =
    RCpuLoad "jsnum option"
  | RLoadavg "jsnum option list option"
  | RNetworkSpeed "net_speed option"
  | RMemoUsage "memory option"
  | RUptime "jsnum option"
  | RGpuLoad "gpu list option"

text \<open>The kind that a reading is of.\<close>

fun kind_of :: "raw \<Rightarrow> StatsModule" where
  "kind_of (RCpuLoad r) = cpuLoad"
| "kind_of (RLoadavg r) = loadavg"
| "kind_of (RNetworkSpeed r) = networkSpeed"
| "kind_of (RMemoUsage r) = memoUsage"
| "kind_of (RUptime r) = uptime"
| "kind_of (RGpuLoad r) = gpuLoad"

fun sysinfoData :: "utils \<Rightarrow> StatsModule \<Rightarrow> sysenv \<Rightarrow> raw promise" where
  "sysinfoData u cpuLoad env = await (getCpuLoad env) (\<lambda>r. Inr (RCpuLoad r))"
| "sysinfoData u loadavg env = await (getLoadavg env) (\<lambda>r. Inr (RLoadavg r))"
| "sysinfoData u networkSpeed env = await (getNetworkSpeed env) (\<lambda>r. Inr (RNetworkSpeed r))"
| "sysinfoData u memoUsage env = await (getMemoryUsage u env) (\<lambda>r. Inr (RMemoUsage r))"
| "sysinfoData u uptime env = await (getUpTime env) (\<lambda>r. Inr (RUptime r))"
| "sysinfoData u gpuLoad env = await (getGpuLoad env) (\<lambda>r. Inr (RGpuLoad r))"

section \<open>The formatters\<close>

text \<open>
  Each formatter builds its substitution dictionary (the object literal \<open>dict\<close>, in the
  order of its keys) and hands it with the configured template to \<open>formatByDict\<close>.
\<close>

definition cpuLoad_dict :: "jsnum \<Rightarrow> (string \<times> jsval option) list" where
  "cpuLoad_dict res = [(''percent'', Some (JStr (toFixed 0 res)))]"

definition formatCpuLoad :: "utils \<Rightarrow> setting \<Rightarrow> jsnum option \<Rightarrow> string" where
  "formatCpuLoad u cfg rawRes =
     (case rawRes of
        None \<Rightarrow> ''-''
      | Some res \<Rightarrow>
          if truthy res then formatByDict u (CpuLoadFormat cfg) (cpuLoad_dict res) else ''-'')"

text \<open>\<open>res[i]?.toFixed(2) || 0\<close>.\<close>

definition fixed2_or_zero :: "jsnum option \<Rightarrow> jsval" where
  "fixed2_or_zero e = (case e of None \<Rightarrow> JNum (Num 0) | Some x \<Rightarrow> str_or_zero (toFixed 2 x))"

definition loadavg_dict :: "jsnum option list \<Rightarrow> (string \<times> jsval option) list" where
  "loadavg_dict res =
     [(''1'', Some (fixed2_or_zero (at_index res 0))),
      (''5'', Some (fixed2_or_zero (at_index res 1))),
      (''15'', Some (fixed2_or_zero (at_index res 2)))]"

text \<open>An array is truthy, also when it is empty.\<close>

definition formatLoadavg :: "utils \<Rightarrow> setting \<Rightarrow> jsnum option list option \<Rightarrow> string" where
  "formatLoadavg u cfg rawRes =
     (case rawRes of
        None \<Rightarrow> ''-''
      | Some res \<Rightarrow> formatByDict u (LoadavgFormat cfg) (loadavg_dict res))"

definition customSize :: rat where
  "customSize = 1024 * 1024 * 1024"

definition memoUsage_dict :: "utils \<Rightarrow> memory \<Rightarrow> (string \<times> jsval option) list" where
  "memoUsage_dict u res =
     (let used' = formatBytes u (Some (if isDarwin u then used res else active res)) (Some 2)
                    (Some customSize);
          total' = formatBytes u (Some (total res)) (Some 2) (Some customSize);
          percent =
            toFixed 0 (js_mul (js_div (Number (data used')) (Number (data total'))) (Num 100));
          pressurePercent' = toFixed 0 (js_mul (or_zero (pressurePercent res)) (Num 100))
      in [(''used'', Some (data used')),
          (''total'', Some (data total')),
          (''unit'', Some (JStr ''GB'')),
          (''percent'', Some (JStr percent)),
          (''pressurePercent'', Some (JStr pressurePercent'))])"

definition formatMemoUsage :: "utils \<Rightarrow> setting \<Rightarrow> memory option \<Rightarrow> string" where
  "formatMemoUsage u cfg rawRes =
     (case rawRes of
        None \<Rightarrow> ''-''
      | Some res \<Rightarrow> formatByDict u (MemoUsageFormat cfg) (memoUsage_dict u res))"

definition networkSpeed_dict :: "utils \<Rightarrow> net_speed \<Rightarrow> (string \<times> jsval option) list" where
  "networkSpeed_dict u res =
     (let up' = formatBytes u (up res) None None;
          down' = formatBytes u (down res) None None
      in [(''up'', Some (data up')),
          (''up-unit'', Some (JStr (unit_name up' @ ''/s''))),
          (''down'', Some (data down')),
          (''down-unit'', Some (JStr (unit_name down' @ ''/s'')))])"

definition formatNetworkSpeed :: "utils \<Rightarrow> setting \<Rightarrow> net_speed option \<Rightarrow> string" where
  "formatNetworkSpeed u cfg rawRes =
     (case rawRes of
        None \<Rightarrow> ''-''
      | Some res \<Rightarrow> formatByDict u (NetworkSpeedFormat cfg) (networkSpeed_dict u res))"

definition uptime_dict :: "utils \<Rightarrow> jsnum \<Rightarrow> (string \<times> jsval option) list" where
  "uptime_dict u res =
     (let data' = formatTimes u res
      in [(''days'', at_index data' 0),
          (''hours'', at_index data' 1),
          (''minutes'', at_index data' 2)])"

definition formatUptime :: "utils \<Rightarrow> setting \<Rightarrow> jsnum option \<Rightarrow> string" where
  "formatUptime u cfg rawRes =
     (case rawRes of
        None \<Rightarrow> ''-''
      | Some res \<Rightarrow>
          if truthy res then formatByDict u (UptimeFormat cfg) (uptime_dict u res) else ''-'')"

definition gpuLoad_dict :: "gpu \<Rightarrow> (string \<times> jsval option) list" where
  "gpuLoad_dict g =
     [(''percent'', Some (JNum (Math_round (to_number (gpuUtilization g))))),
      (''unit'', Some (JStr ''GB'')),
      (''used'', Some (JStr (toFixed 2 (div_1024 (to_number (usedMemory g)))))),
      (''total'', Some (JStr (toFixed 2 (div_1024 (to_number (totalMemory g))))))]"

text \<open>\<open>res && res.length > 0 && res[0]\<close>: an entry of the array is an object, which is truthy.\<close>

definition formatGpuLoad :: "utils \<Rightarrow> setting \<Rightarrow> gpu list option \<Rightarrow> string" where
  "formatGpuLoad u cfg rawRes =
     (case rawRes of
        None \<Rightarrow> ''-''
      | Some [] \<Rightarrow> ''-''
      | Some (g # _) \<Rightarrow> formatByDict u (GpuLoadFormat cfg) (gpuLoad_dict g))"

text \<open>The formatted result of one kind; \<open>data.text\<close> is \<open>text'\<close> here.\<close>

record formatted =
  module :: StatsModule
  text' :: string
  tooltip :: string

text \<open>
  \<open>formatRes\<close> looks the formatter up by the kind and calls it on the reading, which the
  source casts to the type of that kind. The reading carries its kind here, and
  \<open>sysinfoData\<close> gives each kind its own, so the lookup is by the reading. Every kind has a
  formatter, so \<open>text\<close> is always what the formatter returns.
\<close>

fun formatter :: "utils \<Rightarrow> setting \<Rightarrow> raw \<Rightarrow> string" where
  "formatter u cfg (RCpuLoad r) = formatCpuLoad u cfg r"
| "formatter u cfg (RLoadavg r) = formatLoadavg u cfg r"
| "formatter u cfg (RMemoUsage r) = formatMemoUsage u cfg r"
| "formatter u cfg (RNetworkSpeed r) = formatNetworkSpeed u cfg r"
| "formatter u cfg (RUptime r) = formatUptime u cfg r"
| "formatter u cfg (RGpuLoad r) = formatGpuLoad u cfg r"

definition formatRes :: "utils \<Rightarrow> setting \<Rightarrow> StatsModule \<Rightarrow> raw \<Rightarrow> formatted" where
  "formatRes u cfg m rawRes = \<lparr>module = m, text' = formatter u cfg rawRes, tooltip = []\<rparr>"

section \<open>The display driver\<close>

datatype StatusBarAlignment = Left | Right

text \<open>A status bar item of the host: what the driver sets, and whether it was disposed.\<close>

record StatusBarItem =
  item_alignment :: "StatusBarAlignment option"
  item_priority :: int
  item_text :: string
  item_tooltip :: string
  shown :: bool
  disposed :: bool

text \<open>
  The host: every item that \<open>window.createStatusBarItem\<close> has made (an item is known by its
  position in this list), the interval timers that are armed, each with its period, the
  next timer handle, and whether \<open>si.powerShellStart\<close> is in effect.
\<close>

record host =
  items :: "StatusBarItem list"
  timers :: "(nat \<times> int) list"
  next_timer :: nat
  powerShell :: bool

text \<open>
  The fields of \<open>StatsBar\<close>. \<open>the_context\<close> is \<open>_context\<close>: \<open>None\<close> before \<open>init\<close>, then the
  subscriptions of the extension context.
\<close>

record StatsBar =
  statusItems :: "nat list"
  timer :: "nat option"
  the_context :: "nat list option"

definition modify_item :: "nat \<Rightarrow> (StatusBarItem \<Rightarrow> StatusBarItem) \<Rightarrow> host \<Rightarrow> host" where
  "modify_item i f h =
     (if i < length (items h) then h\<lparr>items := (items h)[i := f (items h ! i)]\<rparr> else h)"

definition dispose :: "nat \<Rightarrow> host \<Rightarrow> host" where
  "dispose i h = modify_item i (\<lambda>it. it\<lparr>disposed := True\<rparr>) h"

definition createStatusBarItem ::
  "StatusBarAlignment option \<Rightarrow> int \<Rightarrow> host \<Rightarrow> nat \<times> host" where
  "createStatusBarItem al pr h =
     (length (items h),
      h\<lparr>items := items h @
           [\<lparr>item_alignment = al, item_priority = pr, item_text = [], item_tooltip = [],
             shown = False, disposed = False\<rparr>]\<rparr>)"

text \<open>\<open>curModules.map(() => window.createStatusBarItem(...))\<close>: one item per entry.\<close>

fun create_items ::
  "'a list \<Rightarrow> StatusBarAlignment option \<Rightarrow> int \<Rightarrow> host \<Rightarrow> nat list \<times> host" where
  "create_items [] al pr h = ([], h)"
| "create_items (m # ms) al pr h =
     (let (i, h1) = createStatusBarItem al pr h;
          (is, h2) = create_items ms al pr h1
      in (i # is, h2))"

text \<open>\<open>StatusBarAlignment[location]\<close>: the enumeration has the two names.\<close>

definition alignment_of :: "string \<Rightarrow> StatusBarAlignment option" where
  "alignment_of location =
     (if location = ''Left'' then Some Left
      else if location = ''Right'' then Some Right
      else None)"

definition setInterval :: "int \<Rightarrow> host \<Rightarrow> nat \<times> host" where
  "setInterval period h =
     (next_timer h,
      h\<lparr>timers := timers h @ [(next_timer h, period)], next_timer := Suc (next_timer h)\<rparr>)"

definition clearInterval :: "nat \<Rightarrow> host \<Rightarrow> host" where
  "clearInterval t h = h\<lparr>timers := filter (\<lambda>(i, p). i \<noteq> t) (timers h)\<rparr>"

text \<open>
  The period of the timer: \<open>cfg.get(RefreshInterval) || setting.default.refreshInterval\<close>.
  \<open>update\<close> calls \<open>getSysInfo\<close> and arms the timer. The call runs up to its first
  \<open>await\<close>, so what it writes to the items comes after \<open>update\<close> and \<open>start\<close> have returned:
  that first tick, like those of the timer, is a step of its own (\<open>getSysInfo\<close> below).
\<close>

definition period_of :: "setting \<Rightarrow> int" where
  "period_of cfg =
     (case RefreshInterval cfg of
        None \<Rightarrow> default_refreshInterval cfg
      | Some p \<Rightarrow> if p = 0 then default_refreshInterval cfg else p)"

definition update :: "setting \<Rightarrow> StatsBar \<times> host \<Rightarrow> StatsBar \<times> host" where
  "update cfg st =
     (let (sb, h) = st;
          (t, h1) = setInterval (period_of cfg) h
      in (sb\<lparr>timer := Some t\<rparr>, h1))"

definition start :: "setting \<Rightarrow> StatsBar \<times> host \<Rightarrow> StatsBar \<times> host" where
  "start cfg st =
     (let (sb, h) = st in
      case the_context sb of
        None \<Rightarrow> (sb, h)
      | Some subscriptions \<Rightarrow>
          (let h1 = (if length (statusItems sb) > 0 then fold dispose (statusItems sb) h else h)
           in if \<not> AllEnabled cfg \<or> length (curModules cfg) = 0 then (sb, h1)
              else
                (let location = (case Location cfg of
                                   None \<Rightarrow> ''Left''
                                 | Some l \<Rightarrow> if l = [] then ''Left'' else l);
                     priority = (case Priority cfg of
                                   None \<Rightarrow> default_priority cfg
                                 | Some p \<Rightarrow> if p = 0 then default_priority cfg else p);
                     (new_items, h2) =
                       create_items (curModules cfg) (alignment_of location) priority h1
                 in update cfg
                      (sb\<lparr>statusItems := new_items,
                          the_context := Some (subscriptions @ new_items)\<rparr>, h2))))"

definition siInit :: "utils \<Rightarrow> host \<Rightarrow> host" where
  "siInit u h = (if isWin32 u then h\<lparr>powerShell := True\<rparr> else h)"

definition siRelease :: "utils \<Rightarrow> host \<Rightarrow> host" where
  "siRelease u h = (if isWin32 u then h\<lparr>powerShell := False\<rparr> else h)"

definition init ::
  "utils \<Rightarrow> setting \<Rightarrow> nat list \<Rightarrow> StatsBar \<times> host \<Rightarrow> StatsBar \<times> host" where
  "init u cfg subscriptions st =
     (let (sb, h) = st
      in start cfg (sb\<lparr>the_context := Some subscriptions\<rparr>, siInit u h))"

text \<open>\<open>clearInterval\<close> stops the timer; the field \<open>timer\<close> keeps the handle.\<close>

definition cancelUpdate :: "utils \<Rightarrow> bool \<Rightarrow> StatsBar \<times> host \<Rightarrow> StatsBar \<times> host" where
  "cancelUpdate u isDeactivate st =
     (let (sb, h) = st;
          h1 = (if isDeactivate then siRelease u h else h)
      in case timer sb of
           None \<Rightarrow> (sb, h1)
         | Some t \<Rightarrow> (sb, clearInterval t h1))"

definition onSettingUpdate ::
  "utils \<Rightarrow> setting \<Rightarrow> StatsBar \<times> host \<Rightarrow> StatsBar \<times> host" where
  "onSettingUpdate u cfg st = start cfg (cancelUpdate u False st)"

subsection \<open>A tick\<close>

text \<open>
  The callback of \<open>curModules.map\<close>: fetch, then format. \<open>formatRes\<close> returns an object,
  which is truthy, so the \<open>|| '-'\<close> never applies.
\<close>

definition module_promise ::
  "utils \<Rightarrow> setting \<Rightarrow> sysenv \<Rightarrow> StatsModule \<Rightarrow> formatted promise" where
  "module_promise u cfg env m = await (sysinfoData u m env) (\<lambda>res. Inr (formatRes u cfg m res))"

text \<open>\<open>Promise.all\<close>: the values in the order of the promises, or a rejection.\<close>

fun Promise_all :: "'a promise list \<Rightarrow> 'a list promise" where
  "Promise_all [] = Inr []"
| "Promise_all (p # ps) = await p (\<lambda>v. await (Promise_all ps) (\<lambda>vs. Inr (v # vs)))"

text \<open>
  The body of \<open>res.forEach\<close> at one index. \<open>this.statusItems[index]\<close> past the end of the
  array is \<open>undefined\<close>, and setting its \<open>text\<close> throws.
\<close>

definition show_data :: "StatsBar \<Rightarrow> nat \<Rightarrow> formatted \<Rightarrow> host \<Rightarrow> error + host" where
  "show_data sb index d h =
     (if text' d = ''-'' then Inr h
      else if index < length (statusItems sb) then
        Inr (modify_item (statusItems sb ! index)
               (\<lambda>it. it\<lparr>item_text := text' d,
                         item_tooltip := (if tooltip d = [] then StatsModuleNameMap (module d)
                                          else tooltip d),
                         shown := True\<rparr>) h)
      else Inl TypeError)"

text \<open>
  \<open>forEach\<close> from \<open>index\<close> on. A throw ends the loop; what was written before it stays, so
  the result is the host together with the error, if any.
\<close>

fun forEach :: "StatsBar \<Rightarrow> nat \<Rightarrow> formatted list \<Rightarrow> host \<Rightarrow> host \<times> error option" where
  "forEach sb index [] h = (h, None)"
| "forEach sb index (d # ds) h =
     (case show_data sb index d h of
        Inl e \<Rightarrow> (h, Some e)
      | Inr h1 \<Rightarrow> forEach sb (Suc index) ds h1)"

text \<open>The state after a tick, and the error that the promise of \<open>getSysInfo\<close> rejects with.\<close>

definition getSysInfo ::
  "utils \<Rightarrow> setting \<Rightarrow> sysenv \<Rightarrow> StatsBar \<times> host \<Rightarrow> (StatsBar \<times> host) \<times> error option" where
  "getSysInfo u cfg env st =
     (let (sb, h) = st;
          promises = map (module_promise u cfg env) (curModules cfg)
      in case Promise_all promises of
           Inl e \<Rightarrow> ((sb, h), Some e)
         | Inr res \<Rightarrow> (let (h1, err) = forEach sb 0 res h in ((sb, h1), err)))"

section \<open>The helpers of \<open>utils\<close>, from the specification\<close>

text \<open>
  Modelled from the spec: \<open>formatBytes\<close> of the module \<open>utils\<close>, which is not among the
  sources, when it is called with a custom size. The specification says of the memory
  formatter: "convert used/total bytes to gibibytes (base 1024^3) with 2 decimals". This is
  the \<open>data\<close> of the result: the bytes over the size, with the given number of decimals.
\<close>

definition formatBytes_custom :: "jsnum \<Rightarrow> nat \<Rightarrow> rat \<Rightarrow> jsval" where
  "formatBytes_custom bytes decimals csize = JStr (toFixed decimals (js_div bytes (Num csize)))"

text \<open>
  Modelled from the spec: \<open>formatByDict\<close> of the module \<open>utils\<close>, which is not among the
  sources. The specification says: "a shared template-substitution helper that replaces
  named placeholders in a user-configured format string with computed values; unmatched
  placeholders are left verbatim". It does not give the syntax of a placeholder, so a
  template is taken as read: a sequence of literal text and of named placeholders; the
  result is such a sequence again, with the placeholders that were left.
\<close>

datatype segment = Lit string | Placeholder string

fun substitute :: "(string \<times> string) list \<Rightarrow> segment \<Rightarrow> segment" where
  "substitute dict (Lit t) = Lit t"
| "substitute dict (Placeholder k) =
     (case map_of dict k of None \<Rightarrow> Placeholder k | Some v \<Rightarrow> Lit v)"

definition formatByDict_spec :: "segment list \<Rightarrow> (string \<times> string) list \<Rightarrow> segment list" where
  "formatByDict_spec str dict = map (substitute dict) str"

text \<open>The names of the placeholders that occur in a template, in order.\<close>

fun placeholders :: "segment list \<Rightarrow> string list" where
  "placeholders [] = []"
| "placeholders (Lit t # segs) = placeholders segs"
| "placeholders (Placeholder k # segs) = k # placeholders segs"

section \<open>States of the driver\<close>

text \<open>The items of the host that were not disposed: the display slots there are.\<close>

definition live :: "host \<Rightarrow> nat list" where
  "live h = filter (\<lambda>i. \<not> disposed (items h ! i)) [0..<length (items h)]"

text \<open>Idle: no slot and no armed timer.\<close>

definition idle :: "StatsBar \<times> host \<Rightarrow> bool" where
  "idle st = (live (snd st) = [] \<and> timers (snd st) = [])"

text \<open>
  The slots fit the enabled kinds: \<open>statusItems\<close> has one item of the host per entry of
  \<open>curModules\<close>, and no item twice.
\<close>

definition slots_ok :: "setting \<Rightarrow> StatsBar \<times> host \<Rightarrow> bool" where
  "slots_ok cfg st =
     (length (statusItems (fst st)) = length (curModules cfg)
      \<and> distinct (statusItems (fst st))
      \<and> list_all (\<lambda>i. i < length (items (snd st))) (statusItems (fst st)))"

text \<open>
  The driver knows what it has made: every slot there is stands in \<open>statusItems\<close>, every
  armed timer is the one in \<open>timer\<close>, and before \<open>init\<close> there is nothing.
\<close>

definition owned :: "StatsBar \<times> host \<Rightarrow> bool" where
  "owned st =
     (list_all (\<lambda>i. i \<in> set (statusItems (fst st))) (live (snd st))
      \<and> list_all (\<lambda>(t, p). timer (fst st) = Some t) (timers (snd st))
      \<and> (the_context (fst st) = None \<longrightarrow> idle st))"

text \<open>The field initialisers of the class, and a host that has made nothing yet.\<close>

definition new_StatsBar :: StatsBar where
  "new_StatsBar = \<lparr>statusItems = [], timer = None, the_context = None\<rparr>"

definition new_host :: host where
  "new_host = \<lparr>items = [], timers = [], next_timer = 0, powerShell = False\<rparr>"

text \<open>
  The states of one activation: \<open>init\<close> once, then configuration changes and ticks, under
  any configuration and any outcome of the calls.
\<close>

inductive reachable :: "utils \<Rightarrow> StatsBar \<times> host \<Rightarrow> bool" for u where
  after_init: "reachable u (init u cfg subscriptions (new_StatsBar, new_host))"
| after_setting: "reachable u st \<Longrightarrow> reachable u (onSettingUpdate u cfg st)"
| after_tick: "reachable u st \<Longrightarrow> reachable u (fst (getSysInfo u cfg env st))"

text \<open>What the body of \<open>forEach\<close> does to the item of its index.\<close>

definition shown_item :: "formatted \<Rightarrow> StatusBarItem \<Rightarrow> StatusBarItem" where
  "shown_item d it =
     (if text' d = ''-'' then it
      else it\<lparr>item_text := text' d,
              item_tooltip := (if tooltip d = [] then StatsModuleNameMap (module d) else tooltip d),
              shown := True\<rparr>)"

section \<open>Stand-ins for the examples\<close>

text \<open>An environment in which every call outside the repository throws.\<close>

definition failing_env :: sysenv where
  "failing_env =
     \<lparr>si_currentLoad = Inl (Thrown ''currentLoad''),
      os_loadavg = Inl (Thrown ''loadavg''),
      si_networkInterfaceDefault = Inl (Thrown ''networkInterfaceDefault''),
      si_networkStats = (\<lambda>iface. Inl (Thrown ''networkStats'')),
      os_uptime = Inl (Thrown ''uptime''),
      getMacOsMemoryUsageInfo = Inl (Thrown ''memory''),
      si_mem = Inl (Thrown ''mem''),
      exec = (\<lambda>cmd. Inl (Thrown ''exec''))\<rparr>"

text \<open>
  A host on which \<open>uname -m\<close> prints \<open>arch\<close> and the GPU tool prints \<open>out\<close>, with nothing
  on the error stream.
\<close>

definition gpu_env :: "string \<Rightarrow> string \<Rightarrow> sysenv" where
  "gpu_env arch out =
     failing_env\<lparr>exec := (\<lambda>cmd. if cmd = ''uname -m'' then Inr (arch, []) else Inr (out, []))\<rparr>"

text \<open>
  A module \<open>utils\<close> for the examples: \<open>formatBytes\<close> is the one modelled from the
  specification (two decimals and the size 1 where the call gives none, and no choice of
  a unit), \<open>formatTimes\<close> gives no entries, and \<open>formatByDict\<close> returns the template as it
  is (the empty string without one).
\<close>

definition example_utils :: "bool \<Rightarrow> utils" where
  "example_utils darwin =
     \<lparr>isDarwin = darwin, isWin32 = False,
      formatBytes = (\<lambda>bytes decimals csize.
        \<lparr>data = formatBytes_custom (to_number bytes)
                  (case decimals of None \<Rightarrow> 2 | Some n \<Rightarrow> n)
                  (case csize of None \<Rightarrow> 1 | Some k \<Rightarrow> k),
         unit_name = ''B''\<rparr>),
      formatTimes = (\<lambda>seconds. []),
      formatByDict = (\<lambda>str dict. case str of None \<Rightarrow> [] | Some t \<Rightarrow> t)\<rparr>"

text \<open>A configuration with every kind's template set to the name of the kind.\<close>

definition example_setting :: "bool \<Rightarrow> StatsModule list \<Rightarrow> setting" where
  "example_setting enabled ms =
     \<lparr>AllEnabled = enabled, curModules = ms, Location = None, Priority = None,
      RefreshInterval = None, default_priority = - 1, default_refreshInterval = 1000,
      CpuLoadFormat = Some ''cpu'', LoadavgFormat = Some ''load'',
      MemoUsageFormat = Some ''mem'', NetworkSpeedFormat = Some ''net'',
      UptimeFormat = Some ''up'', GpuLoadFormat = Some ''gpu''\<rparr>"

section \<open>Properties of the values\<close>

lemma is_digit_digit_char: "d < 10 \<Longrightarrow> is_digit (digit_char d)"
  unfolding is_digit_def digit_char_def by (rule nth_mem) simp

lemma dec_digits: "list_all is_digit (dec n)"
proof (induction n rule: dec.induct)
  case (1 n)
  show ?case
  proof (cases "n < 10")
    case True
    then show ?thesis by (subst dec.simps) (simp add: is_digit_digit_char)
  next
    case False
    with 1 show ?thesis by (subst dec.simps) (simp add: is_digit_digit_char)
  qed
qed

lemma dec_not_empty: "dec n \<noteq> []"
  by (subst dec.simps) simp

text \<open>With \<open>f > 0\<close> decimals, the digits are: an integer part, the point, and \<open>f\<close> digits.\<close>

lemma fixed_digits_shape:
  assumes f: "0 < f"
  shows "\<exists>ip fp. fixed_digits f x = ip @ ''.'' @ fp \<and> ip \<noteq> [] \<and> length fp = f \<and>
           list_all is_digit ip \<and> list_all is_digit fp"
proof -
  define m where "m = dec (nat \<lfloor>x * 10 ^ f + 1 / 2\<rfloor>)"
  define m' where "m' = replicate (Suc f - length m) (CHR ''0'') @ m"
  define k where "k = length m' - f"
  have len: "Suc f \<le> length m'" unfolding m'_def by simp
  have zero: "is_digit (CHR ''0'')" by (simp add: is_digit_def)
  have "list_all is_digit (replicate j (CHR ''0''))" for j
    using zero by (induction j) simp_all
  then have dig: "list_all is_digit m'"
    unfolding m'_def m_def using dec_digits by simp
  have eq: "fixed_digits f x = take k m' @ ''.'' @ drop k m'"
    using f unfolding fixed_digits_def Let_def m_def m'_def k_def by simp
  have "take k m' \<noteq> []" using len f unfolding k_def by auto
  moreover have "length (drop k m') = f" using len unfolding k_def by simp
  moreover have "list_all is_digit (take k m')" "list_all is_digit (drop k m')"
    using dig by (auto simp: list_all_iff dest: in_set_takeD in_set_dropD)
  ultimately show ?thesis using eq by blast
qed

lemma fixed_digits_not_empty: "fixed_digits f x \<noteq> []"
  unfolding fixed_digits_def Let_def by (simp add: dec_not_empty)

lemma toFixed_not_empty: "toFixed f x \<noteq> []"
  by (cases x) (simp_all add: fixed_digits_not_empty)

lemma fixed2_or_zero_Some: "fixed2_or_zero (Some x) = JStr (toFixed 2 x)"
  by (simp add: fixed2_or_zero_def str_or_zero_def toFixed_not_empty)

lemma round_nearest: "\<bar>of_int \<lfloor>p + 1 / 2\<rfloor> - (p::rat)\<bar> \<le> 1 / 2"
  by linarith

section \<open>Rounding to a double: what is not rounded\<close>

lemma floor_rat_numeral: "\<lfloor>(numeral a :: rat) / numeral b\<rfloor> = numeral a div numeral b"
  using floor_divide_of_int_eq [of "numeral a" "numeral b", where ?'a = rat] by simp

lemmas double_eval = to_double_def scale_down.simps scale_up.simps round_half_even_def pow2_def
  Let_def floor_rat_numeral

lemma pow2_powi: "pow2 e = 2 powi e"
  by (simp add: pow2_def power_int_def inverse_eq_divide power_one_over)

lemma scale_down_spec:
  "1 \<le> a \<Longrightarrow> scale_down a e = (m, e') \<Longrightarrow>
     a * 2 powi e = m * 2 powi e' \<and> e \<le> e' \<and> 1 \<le> m \<and> (m < 2 \<or> 1024 \<le> e')"
proof (induction a e rule: scale_down.induct)
  case (1 a e)
  show ?case
  proof (cases "a < 2 \<or> 1024 \<le> e")
    case True
    with 1(3) have "m = a" "e' = e" by (simp_all add: scale_down.simps)
    with 1(2) True show ?thesis by auto
  next
    case False
    then have a2: "2 \<le> a" by simp
    from False 1(3) have s: "scale_down (a / 2) (e + 1) = (m, e')"
      by (subst (asm) scale_down.simps) simp
    from a2 have "1 \<le> a / 2" by simp
    from 1(1) [OF False this s]
    have ih: "a / 2 * 2 powi (e + 1) = m * 2 powi e'" "e + 1 \<le> e'" "1 \<le> m"
      "m < 2 \<or> 1024 \<le> e'" by auto
    have "(2::rat) powi (e + 1) = 2 powi e * 2" by (simp add: power_int_add)
    with ih(1) have "a * 2 powi e = m * 2 powi e'" by simp
    with ih show ?thesis by auto
  qed
qed

lemma round_half_even_int: "round_half_even (of_int k) = k"
  by (simp add: round_half_even_def)

text \<open>An integer up to \<open>2^53\<close> is a double.\<close>

lemma to_double_nat:
  assumes "n \<le> 2 ^ 53"
  shows "to_double (of_nat n) = Num (of_nat n)"
proof (cases "n = 0")
  case True
  then show ?thesis by (simp add: to_double_def)
next
  case False
  define a :: rat where "a = of_nat n"
  have a1: "1 \<le> a" using False by (simp add: a_def)
  have a53: "a \<le> 2 ^ 53"
  proof -
    have "(of_nat n :: rat) \<le> of_nat (2 ^ 53)" using assms by (simp only: of_nat_le_iff)
    then show ?thesis by (simp add: a_def)
  qed
  obtain m e where me: "scale_down a 0 = (m, e)" by (cases "scale_down a 0")
  from scale_down_spec [OF a1 me]
  have sp: "a = m * 2 powi e" "0 \<le> e" "1 \<le> m" "m < 2 \<or> 1024 \<le> e" by auto
  have pos: "(0::rat) < 2 powi e" by simp
  have "2 powi e \<le> a"
  proof -
    have "1 * 2 powi e \<le> m * 2 powi e" using sp(3) pos by (intro mult_right_mono) simp_all
    then show ?thesis using sp(1) by simp
  qed
  then have "(2::rat) powi e \<le> 2 powi 53" using a53 by simp
  then have e53: "e \<le> 53" by (rule power_int_le_imp_le_exp [rotated]) simp_all
  then have m2: "m < 2" using sp(4) by auto
  have mval: "m = a * 2 powi (- e)"
  proof -
    have "a * 2 powi (- e) = m * (2 powi e * 2 powi (- e))" using sp(1) by simp
    also have "(2::rat) powi e * 2 powi (- e) = 1" by (simp add: power_int_minus)
    finally show ?thesis by simp
  qed
  have r: "of_int (round_half_even (m * 2 ^ 52)) * pow2 (e - 52) = a"
  proof (cases "e \<le> 52")
    case True
    define k where "k = nat (52 - e)"
    have pa: "(2::rat) powi (52 - e) = 2 powi (- e) * 2 ^ 52"
      using power_int_add [of "2::rat" "- e" 52] by simp
    have pk: "(2::rat) powi (52 - e) = 2 ^ k" using True by (simp add: k_def power_int_def)
    have pb: "(2::rat) ^ k * 2 powi (e - 52) = 1"
      using power_int_add [of "2::rat" "52 - e" "e - 52"] unfolding pk by simp
    have "m * 2 ^ 52 = a * 2 powi (52 - e)" unfolding pa mval by simp
    then have "m * 2 ^ 52 = of_int (int n * 2 ^ k)" unfolding pk by (simp add: a_def)
    then have "round_half_even (m * 2 ^ 52) = int n * 2 ^ k"
      by (simp only: round_half_even_int)
    then have "of_int (round_half_even (m * 2 ^ 52)) * pow2 (e - 52) = a * (2 ^ k * 2 powi (e - 52))"
      by (simp add: a_def pow2_powi)
    then show ?thesis unfolding pb by simp
  next
    case False
    with e53 have e: "e = 53" by simp
    have "m * 2 powi 53 \<le> 2 ^ 53" using sp(1) a53 e by simp
    then have "m \<le> 1" by simp
    with sp(3) have m: "m = 1" by simp
    have a: "a = 2 ^ 53" using sp(1) m e by simp
    have "(1::rat) * 2 ^ 52 = of_int (2 ^ 52)" by simp
    then have "round_half_even (m * 2 ^ 52) = 2 ^ 52"
      unfolding m by (simp only: round_half_even_int)
    then show ?thesis by (simp add: e a pow2_def)
  qed
  have lt: "\<not> (2::rat) ^ 1024 \<le> a"
  proof -
    have "(2::rat) ^ 53 < 2 ^ 1024" by (rule power_strict_increasing) simp_all
    with a53 show ?thesis by simp
  qed
  have "to_double a = Num a"
    using a1 r lt by (simp add: to_double_def me Let_def)
  then show ?thesis by (simp add: a_def)
qed

lemma scale_up_spec:
  "0 < a \<Longrightarrow> a < 2 \<Longrightarrow> - 1022 \<le> e \<Longrightarrow> scale_up a e = (m, e') \<Longrightarrow>
     a * 2 powi e = m * 2 powi e' \<and> - 1022 \<le> e' \<and> 0 < m \<and> m < 2 \<and> (1 \<le> m \<or> e' = - 1022)"
proof (induction a e rule: scale_up.induct)
  case (1 a e)
  show ?case
  proof (cases "1 \<le> a \<or> e \<le> - 1022")
    case True
    with 1(5) have "m = a" "e' = e" by (simp_all add: scale_up.simps)
    with 1(2,3,4) True show ?thesis by auto
  next
    case False
    from False 1(5) have s: "scale_up (a * 2) (e - 1) = (m, e')"
      by (subst (asm) scale_up.simps) simp
    have p: "0 < a * 2" "a * 2 < 2" "- 1022 \<le> e - 1" using False 1(2) by simp_all
    from 1(1) [OF False p s]
    have ih: "a * 2 * 2 powi (e - 1) = m * 2 powi e'" "- 1022 \<le> e'" "0 < m" "m < 2"
      "1 \<le> m \<or> e' = - 1022" by auto
    have "(2::rat) powi e = 2 powi (e - 1) * 2"
      using power_int_add [of "2::rat" "e - 1" 1] by simp
    with ih(1) have "a * 2 powi e = m * 2 powi e'" by simp
    with ih show ?thesis by auto
  qed
qed

text \<open>
  An integer up to \<open>2^53\<close> over a power of two (down to \<open>2^-1022\<close>) is a double: the
  quotient of such an integer by a power of two is not rounded.
\<close>

lemma to_double_dyadic:
  assumes n: "n \<le> 2 ^ 53" and k: "k \<le> 1022"
  shows "to_double (of_nat n / 2 ^ k) = Num (of_nat n / 2 ^ k)"
proof (cases "n = 0")
  case True
  then show ?thesis by (simp add: to_double_def)
next
  case False
  define a :: rat where "a = of_nat n / 2 ^ k"
  have apos: "0 < a" using False by (simp add: a_def)
  have ak: "a = of_nat n * 2 powi (- int k)"
    by (simp add: a_def power_int_minus field_simps)
  have n1: "(1::rat) \<le> of_nat n" using False by simp
  have n53: "(of_nat n :: rat) \<le> 2 powi 53"
  proof -
    have "(of_nat n :: rat) \<le> of_nat (2 ^ 53)" using n by (simp only: of_nat_le_iff)
    then show ?thesis by simp
  qed
  have alow: "2 powi (- int k) \<le> a"
  proof -
    have "1 * 2 powi (- int k) \<le> of_nat n * (2::rat) powi (- int k)"
      using n1 by (intro mult_right_mono) simp_all
    then show ?thesis by (simp add: ak)
  qed
  have ahigh: "a \<le> 2 powi (53 - int k)"
  proof -
    have "of_nat n * (2::rat) powi (- int k) \<le> 2 powi 53 * 2 powi (- int k)"
      using n53 by (intro mult_right_mono) simp_all
    also have "(2::rat) powi 53 * 2 powi (- int k) = 2 powi (53 - int k)"
      using power_int_add [of "2::rat" 53 "- int k"] by simp
    finally show ?thesis by (simp add: ak)
  qed
  obtain m e where me: "(if 1 \<le> a then scale_down a 0 else scale_up a 0) = (m, e)"
    by (cases "if 1 \<le> a then scale_down a 0 else scale_up a 0")
  have sp: "a = m * 2 powi e \<and> 1 \<le> m \<and> m < 2"
  proof (cases "1 \<le> a")
    case True
    with me have sd: "scale_down a 0 = (m, e)" by simp
    from scale_down_spec [OF True sd]
    have s: "a = m * 2 powi e" "0 \<le> e" "1 \<le> m" "m < 2 \<or> 1024 \<le> e" by auto
    have "1 * 2 powi e \<le> m * 2 powi e" using s(3) by (intro mult_right_mono) simp_all
    then have "(2::rat) powi e \<le> a" using s(1) by simp
    also have "a \<le> 2 powi 53"
    proof -
      have "(2::rat) powi (53 - int k) \<le> 2 powi 53" by (rule power_int_increasing) simp_all
      with ahigh show ?thesis by simp
    qed
    finally have "e \<le> 53" by (rule power_int_le_imp_le_exp [rotated]) simp_all
    with s show ?thesis by auto
  next
    case False
    with me have su: "scale_up a 0 = (m, e)" by simp
    have a2: "a < 2" using False by simp
    from scale_up_spec [OF apos a2 _ su]
    have s: "a = m * 2 powi e" "- 1022 \<le> e" "0 < m" "m < 2" "1 \<le> m \<or> e = - 1022" by auto
    have "1 \<le> m"
    proof (rule ccontr)
      assume "\<not> 1 \<le> m"
      with s(5) have m1: "m < 1" and e: "e = - 1022" by auto
      have "m * 2 powi e < 1 * 2 powi e" using m1 by (intro mult_strict_right_mono) simp_all
      then have "a < 2 powi (- 1022)" using s(1) e by simp
      moreover have "(2::rat) powi (- 1022) \<le> 2 powi (- int k)"
        using k by (intro power_int_increasing) simp_all
      ultimately show False using alow by simp
    qed
    with s show ?thesis by auto
  qed
  then have s: "a = m * 2 powi e" and m1: "1 \<le> m" and m2: "m < 2" by simp_all
  have mval: "m = a * 2 powi (- e)"
  proof -
    have "a * 2 powi (- e) = m * (2 powi e * 2 powi (- e))" using s by simp
    also have "(2::rat) powi e * 2 powi (- e) = 1" by (simp add: power_int_minus)
    finally show ?thesis by simp
  qed
  have ek: "e + int k \<le> 53"
  proof -
    have "1 * 2 powi e \<le> m * 2 powi e" using m1 by (intro mult_right_mono) simp_all
    then have "(2::rat) powi e \<le> a" using s by simp
    with ahigh have "(2::rat) powi e \<le> 2 powi (53 - int k)" by simp
    have "e \<le> 53 - int k"
    proof (rule ccontr)
      assume "\<not> e \<le> 53 - int k"
      then have "53 - int k < e" by simp
      then have "(2::rat) powi (53 - int k) < 2 powi e"
        by (rule power_int_strict_increasing) simp
      with \<open>(2::rat) powi e \<le> 2 powi (53 - int k)\<close> show False by simp
    qed
    then show ?thesis by simp
  qed
  have r: "of_int (round_half_even (m * 2 ^ 52)) * pow2 (e - 52) = a"
  proof (cases "e + int k \<le> 52")
    case True
    define j where "j = nat (52 - e - int k)"
    have pa: "(2::rat) powi (52 - e - int k) = 2 powi (- int k) * (2 powi (- e) * 2 ^ 52)"
      using power_int_add [of "2::rat" "- int k" "52 - e"] power_int_add [of "2::rat" "- e" 52]
      by (simp add: algebra_simps)
    have pj: "(2::rat) powi (52 - e - int k) = 2 ^ j" using True by (simp add: j_def power_int_def)
    have pb: "(2::rat) ^ j * 2 powi (e - 52) = 2 powi (- int k)"
      using power_int_add [of "2::rat" "52 - e - int k" "e - 52"] unfolding pj by simp
    have "m * 2 ^ 52 = of_nat n * 2 powi (52 - e - int k)"
      unfolding pa mval ak by simp
    then have "m * 2 ^ 52 = of_int (int n * 2 ^ j)" unfolding pj by simp
    then have "round_half_even (m * 2 ^ 52) = int n * 2 ^ j"
      by (simp only: round_half_even_int)
    then have "of_int (round_half_even (m * 2 ^ 52)) * pow2 (e - 52)
        = of_nat n * (2 ^ j * 2 powi (e - 52))"
      by (simp add: pow2_powi)
    then show ?thesis unfolding pb ak by simp
  next
    case False
    with ek have e: "e = 53 - int k" by simp
    have "m * 2 powi e \<le> 1 * 2 powi e" using s ahigh e by simp
    then have "m \<le> 1" by (simp add: mult_le_cancel_right)
    with m1 have m: "m = 1" by simp
    have "(1::rat) * 2 ^ 52 = of_int (2 ^ 52)" by simp
    then have "round_half_even (m * 2 ^ 52) = 2 ^ 52"
      unfolding m by (simp only: round_half_even_int)
    then have "of_int (round_half_even (m * 2 ^ 52)) * pow2 (e - 52) = 2 ^ 52 * 2 powi (e - 52)"
      by (simp add: pow2_powi)
    also have "(2::rat) ^ 52 * 2 powi (e - 52) = 2 powi e"
      using power_int_add [of "2::rat" 52 "e - 52"] by simp
    finally show ?thesis using s m by simp
  qed
  have lt: "\<not> (2::rat) ^ 1024 \<le> a"
  proof -
    have "a \<le> 2 powi 53"
    proof -
      have "(2::rat) powi (53 - int k) \<le> 2 powi 53" by (rule power_int_increasing) simp_all
      with ahigh show ?thesis by simp
    qed
    moreover have "(2::rat) powi 53 < 2 powi 1024" by (rule power_int_strict_increasing) simp_all
    ultimately show ?thesis by simp
  qed
  have ab: "\<bar>a\<bar> = a" using apos by simp
  have "to_double a = Num a"
    unfolding to_double_def ab me using apos r lt by (simp add: Let_def)
  then show ?thesis by (simp add: a_def)
qed

text \<open>
  So the division by 1024 of the GPU formatter rounds nothing for a memory size that is an
  integer, as the sizes in megabytes are.
\<close>

lemma div_1024_exact:
  assumes "n \<le> 2 ^ 53"
  shows "js_div (Num (of_nat n)) (Num 1024) = div_1024 (Num (of_nat n))"
  using to_double_dyadic [OF assms, of 10] by simp

section \<open>Numbers written and read back\<close>

lemma digits_val_snoc: "digits_val (ds @ [c]) = 10 * digits_val ds + digit_val c"
  by (simp add: digits_val_def)

lemma digits_val_append:
  "digits_val (xs @ ys) = digits_val xs * 10 ^ length ys + digits_val ys"
proof (induction ys rule: rev_induct)
  case Nil
  then show ?case by (simp add: digits_val_def)
next
  case (snoc c ys)
  have "digits_val (xs @ ys @ [c]) = 10 * digits_val (xs @ ys) + digit_val c"
    using digits_val_snoc [of "xs @ ys" c] by simp
  with snoc show ?case by (simp add: digits_val_snoc algebra_simps)
qed

lemma digit_val_digit_char: "d < 10 \<Longrightarrow> digit_val (digit_char d) = d"
proof -
  assume "d < 10"
  then have "d \<in> {0, 1, 2, 3, 4, 5, 6, 7, 8, 9}" by auto
  then show ?thesis by (auto simp: digit_val_def digit_char_def)
qed

lemma digits_val_dec: "digits_val (dec n) = n"
proof (induction n rule: dec.induct)
  case (1 n)
  show ?case
  proof (cases "n < 10")
    case True
    then show ?thesis
      by (subst dec.simps) (simp add: digits_val_def digit_val_digit_char)
  next
    case False
    with 1 show ?thesis
      by (subst dec.simps) (simp add: digits_val_snoc digit_val_digit_char)
  qed
qed

lemma digits_val_zeros: "digits_val (replicate k (CHR ''0'') @ xs) = digits_val xs"
proof -
  have "digits_val (replicate j (CHR ''0'')) = 0" for j
    by (induction j) (simp_all add: digits_val_def digit_val_def)
  then show ?thesis by (simp add: digits_val_append)
qed

lemma digit_not_space: "is_digit c \<Longrightarrow> \<not> is_space c"
  by (auto simp: is_digit_def is_space_def)

lemma trim_id:
  assumes "s \<noteq> []" "\<not> is_space (hd s)" "\<not> is_space (last s)"
  shows "trim s = s"
proof -
  have 1: "dropWhile is_space s = s" using assms(2) by (simp add: dropWhile_eq_self_iff)
  have 2: "dropWhile is_space (rev s) = rev s"
    using assms(3) by (simp add: dropWhile_eq_self_iff hd_rev)
  show ?thesis by (simp add: trim_def 1 2)
qed


lemma digit_not_special:
  "is_digit c \<Longrightarrow> c \<notin> set ''xX'' \<and> c \<notin> set ''oO'' \<and> c \<notin> set ''bB'' \<and> c \<notin> set ''eE''
     \<and> c \<noteq> CHR ''+'' \<and> c \<noteq> CHR ''-'' \<and> c \<noteq> CHR ''.'' \<and> c \<noteq> CHR ''I''
     \<and> c \<noteq> CHR '','' \<and> c \<noteq> CHR ''/'' \<and> c \<noteq> CHR ''%'' \<and> c \<noteq> CHR ''M''"
  by (auto simp: is_digit_def)

text \<open>
  A string of digits, a point and digits converts to the double nearest to its decimal value.
\<close>

lemma StringToNumber_decimal:
  assumes ip: "ip \<noteq> []" "list_all is_digit ip" and fp: "fp \<noteq> []" "list_all is_digit fp"
  shows "StringToNumber (ip @ ''.'' @ fp)
           = to_double (of_nat (digits_val ip) + of_nat (digits_val fp) / 10 ^ length fp)"
proof -
  let ?s = "ip @ CHR ''.'' # fp"
  obtain a ip' where ipc: "ip = a # ip'" using ip(1) by (cases ip) auto
  have a: "is_digit a" using ip(2) ipc by simp
  have lastd: "is_digit (last ?s)" using fp by (simp add: list_all_iff)
  have tr: "trim ?s = ?s"
    using a lastd by (intro trim_id) (simp_all add: ipc digit_not_space)
  have nd: "non_decimal ?s = None"
  proof (cases ip')
    case Nil
    then show ?thesis by (simp add: non_decimal_def ipc)
  next
    case (Cons b ip'')
    then have "is_digit b" using ip(2) ipc by simp
    with Cons digit_not_special [of b] show ?thesis by (simp add: non_decimal_def ipc)
  qed
  have tw: "takeWhile is_digit ?s = ip" "dropWhile is_digit ?s = CHR ''.'' # fp"
    using ip(2) by (simp_all add: takeWhile_append2 dropWhile_append2 list_all_iff is_digit_def)
  have tf: "takeWhile is_digit fp = fp" "dropWhile is_digit fp = []"
    using fp(2) by (simp_all add: list_all_iff)
  have inf: "?s \<noteq> ''Infinity''" using a digit_not_special [of a] by (auto simp: ipc)
  have ud: "unsigned_decimal ?s
      = Some (Num (of_nat (digits_val ip) + of_nat (digits_val fp) / 10 ^ length fp))"
    unfolding unsigned_decimal_def using inf ip(1)
    by (simp add: tw tf exponent_part_def pow10_def Let_def)
  have sd: "signed_decimal ?s = unsigned_decimal ?s"
    using a digit_not_special [of a] by (simp add: signed_decimal_def ipc)
  have "StringToNumber ?s
      = to_double (of_nat (digits_val ip) + of_nat (digits_val fp) / 10 ^ length fp)"
    unfolding StringToNumber_def tr using ip(1) by (simp add: nd sd ud Let_def)
  then show ?thesis by simp
qed

lemma of_nat_nat_floor: "0 \<le> (y::rat) \<Longrightarrow> of_nat (nat \<lfloor>y\<rfloor>) = (of_int \<lfloor>y\<rfloor> :: rat)"
  by simp

text \<open>
  Reading back what \<open>toFixed(2)\<close> wrote: the double nearest to the value rounded to two
  decimals.
\<close>

lemma StringToNumber_toFixed2:
  assumes "0 \<le> x"
  shows "StringToNumber (toFixed 2 (Num x)) = to_double (of_int \<lfloor>x * 100 + 1 / 2\<rfloor> / 100)"
proof -
  define n where "n = nat \<lfloor>x * 10 ^ 2 + 1 / 2\<rfloor>"
  define m' where "m' = replicate (Suc 2 - length (dec n)) (CHR ''0'') @ dec n"
  define k where "k = length m' - 2"
  have len: "3 \<le> length m'" unfolding m'_def by simp
  have zero: "is_digit (CHR ''0'')" by (simp add: is_digit_def)
  have "list_all is_digit (replicate j (CHR ''0''))" for j
    using zero by (induction j) simp_all
  then have dig: "list_all is_digit m'" unfolding m'_def using dec_digits by simp
  have "fixed_digits 2 x = take k m' @ ''.'' @ drop k m'"
    unfolding fixed_digits_def Let_def n_def m'_def k_def by simp
  moreover have "toFixed 2 (Num x) = fixed_digits 2 x" using assms by simp
  ultimately have eq: "toFixed 2 (Num x) = take k m' @ ''.'' @ drop k m'" by simp
  have ip: "take k m' \<noteq> []" "list_all is_digit (take k m')"
    using len dig unfolding k_def by (auto simp: list_all_iff dest: in_set_takeD)
  have fp: "drop k m' \<noteq> []" "list_all is_digit (drop k m')" "length (drop k m') = 2"
    using len dig unfolding k_def by (auto simp: list_all_iff dest: in_set_dropD)
  have "digits_val m' = n" unfolding m'_def by (simp add: digits_val_zeros digits_val_dec)
  moreover have "digits_val m' = digits_val (take k m') * 10 ^ 2 + digits_val (drop k m')"
    using digits_val_append [of "take k m'" "drop k m'"] fp(3) by simp
  ultimately have v: "digits_val (take k m') * 100 + digits_val (drop k m') = n" by simp
  have "(of_nat (digits_val (take k m')) :: rat) + of_nat (digits_val (drop k m')) / 100
      = of_nat (digits_val (take k m') * 100 + digits_val (drop k m')) / 100"
    by simp
  also have "\<dots> = of_nat n / 100" using v by simp
  also have "of_nat n = (of_int \<lfloor>x * 100 + 1 / 2\<rfloor> :: rat)"
    unfolding n_def using assms by simp
  finally have val: "(of_nat (digits_val (take k m')) :: rat) + of_nat (digits_val (drop k m')) / 100
      = of_int \<lfloor>x * 100 + 1 / 2\<rfloor> / 100" .
  have "StringToNumber (take k m' @ ''.'' @ drop k m')
      = to_double (of_nat (digits_val (take k m')) + of_nat (digits_val (drop k m')) / 10 ^ 2)"
    using StringToNumber_decimal [OF ip fp(1,2)] unfolding fp(3) .
  also have "\<dots> = to_double (of_int \<lfloor>x * 100 + 1 / 2\<rfloor> / 100)"
    using arg_cong [OF val, of to_double] by simp
  finally show ?thesis unfolding eq .
qed

lemma dec_hd_last: "is_digit (hd (dec n)) \<and> is_digit (last (dec n))"
  using dec_digits [of n] dec_not_empty [of n] by (simp add: list_all_iff)

lemma StringToNumber_dec:
  assumes "n \<le> 2 ^ 53"
  shows "StringToNumber (dec n) = Num (of_nat n)"
proof -
  let ?s = "dec n"
  have ne: "?s \<noteq> []" by (rule dec_not_empty)
  have dig: "list_all is_digit ?s" by (rule dec_digits)
  have tr: "trim ?s = ?s"
    using ne dec_hd_last [of n] by (intro trim_id) (simp_all add: digit_not_space)
  have nd: "non_decimal ?s = None"
  proof (cases ?s)
    case Nil
    then show ?thesis by (simp add: non_decimal_def)
  next
    case (Cons a t)
    show ?thesis
    proof (cases t)
      case Nil
      with Cons show ?thesis by (simp add: non_decimal_def)
    next
      case (Cons b t')
      with \<open>?s = a # t\<close> dig have "is_digit b" by simp
      with Cons \<open>?s = a # t\<close> digit_not_special [of b] show ?thesis
        by (simp add: non_decimal_def)
    qed
  qed
  obtain a t where s: "?s = a # t" using ne by (cases ?s) auto
  have a: "is_digit a" using dig s by simp
  have tw: "takeWhile is_digit ?s = ?s" "dropWhile is_digit ?s = []"
    using dig by (simp_all add: list_all_iff)
  have inf: "?s \<noteq> ''Infinity''" using a digit_not_special [of a] s by auto
  have ud: "unsigned_decimal ?s = Some (Num (of_nat n))"
    unfolding unsigned_decimal_def using inf ne
    by (simp add: tw exponent_part_def pow10_def Let_def digits_val_dec) (simp add: digits_val_def)
  have sd: "signed_decimal ?s = unsigned_decimal ?s"
    using a digit_not_special [of a] by (simp add: signed_decimal_def s)
  show ?thesis
    unfolding StringToNumber_def tr using ne to_double_nat [OF assms]
    by (simp add: nd sd ud Let_def)
qed

lemma split_from_piece:
  assumes "list_all (\<lambda>c. c \<noteq> CHR '','') a"
  shows "split_from '', '' cur (a @ '', '' @ rest) = (cur @ a) # split_from '', '' [] rest"
  using assms
proof (induction a arbitrary: cur)
  case Nil
  show ?case by (subst split_from.simps) simp
next
  case (Cons c a)
  then have "split_from '', '' (cur @ [c]) (a @ '', '' @ rest)
      = ((cur @ [c]) @ a) # split_from '', '' [] rest"
    by simp
  with Cons.prems show ?case by (subst split_from.simps) simp
qed

lemma split_from_last:
  assumes "list_all (\<lambda>c. c \<noteq> CHR '','') a"
  shows "split_from '', '' cur a = [cur @ a]"
  using assms
proof (induction a arbitrary: cur)
  case Nil
  show ?case by (subst split_from.simps) simp
next
  case (Cons c a)
  then have "split_from '', '' (cur @ [c]) a = [(cur @ [c]) @ a]" by simp
  with Cons.prems show ?case by (subst split_from.simps) simp
qed

lemma dec_no_comma: "list_all (\<lambda>c. c \<noteq> CHR '','') (dec n)"
  using dec_digits [of n] digit_not_special by (auto simp: list_all_iff)

text \<open>
  A line of three numbers between \<open>', '\<close> is read as the reading of these numbers (up to
  \<open>2^53\<close>, from where on not every integer is a double).
\<close>

lemma x86_line_numbers:
  assumes "t \<le> 2 ^ 53" "m \<le> 2 ^ 53" "p \<le> 2 ^ 53"
  shows "x86_line (dec t @ '', '' @ dec m @ '', '' @ dec p)
     = \<lparr>totalMemory = Some (Num (of_nat t)), usedMemory = Some (Num (of_nat m)),
        gpuUtilization = Some (Num (of_nat p))\<rparr>"
proof -
  have "split (dec t @ '', '' @ dec m @ '', '' @ dec p) '', '' = [dec t, dec m, dec p]"
    unfolding split_def
    using split_from_piece [OF dec_no_comma, of "[]" t "dec m @ '', '' @ dec p"]
      split_from_piece [OF dec_no_comma, of "[]" m "dec p"]
      split_from_last [OF dec_no_comma, of "[]" p]
    by simp
  then show ?thesis
    unfolding x86_line_def by (simp add: StringToNumber_dec [OF assms(1)]
      StringToNumber_dec [OF assms(2)] StringToNumber_dec [OF assms(3)] at_index_def)
qed

lemma span_digits:
  assumes "list_all is_digit ds" "r = [] \<or> \<not> is_digit (hd r)"
  shows "takeWhile is_digit (ds @ r) = ds" "dropWhile is_digit (ds @ r) = r"
proof -
  have r: "takeWhile is_digit r = []" "dropWhile is_digit r = r"
    using assms(2) by (cases r; simp)+
  show "takeWhile is_digit (ds @ r) = ds" "dropWhile is_digit (ds @ r) = r"
    using assms(1) r by (simp_all add: takeWhile_append2 dropWhile_append2 list_all_iff)
qed

lemma span_spaces:
  assumes "list_all is_space ws" "r = [] \<or> \<not> is_space (hd r)"
  shows "takeWhile is_space (ws @ r) = ws" "dropWhile is_space (ws @ r) = r"
proof -
  have r: "takeWhile is_space r = []" "dropWhile is_space r = r"
    using assms(2) by (cases r; simp)+
  show "takeWhile is_space (ws @ r) = ws" "dropWhile is_space (ws @ r) = r"
    using assms(1) r by (simp_all add: takeWhile_append2 dropWhile_append2 list_all_iff)
qed

lemma space_not_digit: "is_space c \<Longrightarrow> \<not> is_digit c"
  using digit_not_space by blast

text \<open>
  A line of the Tegra form: digits, a slash, digits, white space, \<open>MB\<close>, white space,
  digits and a percent sign, after any text without a digit and before any text.
\<close>

lemma match_here_numbers:
  assumes w1: "ws1 \<noteq> []" "list_all is_space ws1" and w2: "ws2 \<noteq> []" "list_all is_space ws2"
  shows "match_here (dec m @ ''/'' @ dec t @ ws1 @ ''MB'' @ ws2 @ dec p @ ''%'' @ rest)
           = Some (dec m, dec t, dec p)"
proof -
  let ?r5 = "''%'' @ rest"
  let ?r4 = "dec p @ ?r5"
  let ?r3' = "ws2 @ ?r4"
  let ?r3 = "''MB'' @ ?r3'"
  let ?r2 = "ws1 @ ?r3"
  let ?r1' = "dec t @ ?r2"
  let ?r1 = "''/'' @ ?r1'"
  have hd1: "\<not> is_digit (hd ws1)" "\<not> is_digit (hd ws2)"
    using w1 w2 by (cases ws1; cases ws2; simp add: space_not_digit)+
  have hdp: "\<not> is_space (hd (dec p))"
    using dec_hd_last [of p] digit_not_space by blast
  have s1: "takeWhile is_digit (dec m @ ?r1) = dec m" "dropWhile is_digit (dec m @ ?r1) = ?r1"
    by (rule span_digits [OF dec_digits]; simp add: is_digit_def)+
  have s2: "takeWhile is_digit (dec t @ ?r2) = dec t" "dropWhile is_digit (dec t @ ?r2) = ?r2"
    by (rule span_digits [OF dec_digits]; use w1 hd1 in \<open>simp add: hd_append\<close>)+
  have s3: "takeWhile is_space (ws1 @ ?r3) = ws1" "dropWhile is_space (ws1 @ ?r3) = ?r3"
    by (rule span_spaces [OF w1(2)]; simp add: is_space_def)+
  have s4: "takeWhile is_space (ws2 @ ?r4) = ws2" "dropWhile is_space (ws2 @ ?r4) = ?r4"
    by (rule span_spaces [OF w2(2)]; use hdp dec_not_empty [of p] in \<open>simp add: hd_append\<close>)+
  have s5: "takeWhile is_digit (dec p @ ?r5) = dec p" "dropWhile is_digit (dec p @ ?r5) = ?r5"
    by (rule span_digits [OF dec_digits]; simp add: is_digit_def)+
  have t1: "tl ?r1 = ?r1'" "hd ?r1 = CHR ''/''" "?r1 \<noteq> []" by simp_all
  have t3: "take 2 ?r3 = ''MB''" "drop 2 ?r3 = ?r3'" by simp_all
  have t5: "hd ?r5 = CHR ''%''" "?r5 \<noteq> []" by simp_all
  have "match_here (dec m @ ?r1) = Some (dec m, dec t, dec p)"
    unfolding match_here_def Let_def s1 t1 s2 s3 t3 s4 s5 t5
    using dec_not_empty w1(1) w2(1) by simp
  then show ?thesis by simp
qed

lemma regex_match_skip:
  assumes "list_all (\<lambda>c. \<not> is_digit c) pre"
  shows "regex_match (pre @ s) = regex_match s"
  using assms
proof (induction pre)
  case Nil
  then show ?case by simp
next
  case (Cons c pre)
  then have "match_here (c # pre @ s) = None" by (simp add: match_here_def)
  with Cons show ?case by simp
qed

lemma tegra_line_numbers:
  assumes "list_all (\<lambda>c. \<not> is_digit c) pre"
    and "ws1 \<noteq> []" "list_all is_space ws1" and "ws2 \<noteq> []" "list_all is_space ws2"
    and "t \<le> 2 ^ 53" "m \<le> 2 ^ 53" "p \<le> 2 ^ 53"
  shows "tegra_line (pre @ dec m @ ''/'' @ dec t @ ws1 @ ''MB'' @ ws2 @ dec p @ ''%'' @ rest)
           = Some \<lparr>totalMemory = Some (Num (of_nat t)), usedMemory = Some (Num (of_nat m)),
                   gpuUtilization = Some (Num (of_nat p))\<rparr>"
proof -
  let ?body = "dec m @ ''/'' @ dec t @ ws1 @ ''MB'' @ ws2 @ dec p @ ''%'' @ rest"
  obtain c cs where b: "?body = c # cs"
    using dec_not_empty [of m] by (cases ?body) auto
  have "regex_match ?body = Some (dec m, dec t, dec p)"
    using match_here_numbers [OF assms(2-5), of m t p rest] unfolding b by simp
  then have "regex_match (pre @ ?body) = Some (dec m, dec t, dec p)"
    using regex_match_skip [OF assms(1)] by simp
  then show ?thesis
    by (simp add: tegra_line_def StringToNumber_dec [OF assms(6)] StringToNumber_dec [OF assms(7)]
      StringToNumber_dec [OF assms(8)])
qed

section \<open>The formatters: what the dictionaries hold\<close>

text \<open>
  C6. The load average formatter hands \<open>formatByDict\<close> a dictionary with the keys \<open>1\<close>,
  \<open>5\<close> and \<open>15\<close>, in this order, for the entries 0, 1 and 2 of the reading. An entry that
  is there is rendered by \<open>toFixed(2)\<close>, which for a finite value is an integer part, a
  point and two digits; an entry that is missing gives the number 0. The reading
  \<open>[1.234, 0.5, undefined]\<close> (\<open>1.234\<close> being the double of that literal) gives
  \<open>{'1': "1.23", '5': "0.50", '15': 0}\<close>.
\<close>

theorem formatLoadavg_dict:
  "formatLoadavg u cfg (Some res) = formatByDict u (LoadavgFormat cfg) (loadavg_dict res)
   \<and> map fst (loadavg_dict res) = [''1'', ''5'', ''15'']
   \<and> map snd (loadavg_dict res) = map (\<lambda>i. Some (fixed2_or_zero (at_index res i))) [0, 1, 2]
   \<and> fixed2_or_zero None = JNum (Num 0)
   \<and> fixed2_or_zero (Some x) = JStr (toFixed 2 x)
   \<and> (\<exists>ip fp. toFixed 2 (Num (\<bar>r\<bar>)) = ip @ ''.'' @ fp \<and> ip \<noteq> [] \<and> length fp = 2
         \<and> list_all is_digit ip \<and> list_all is_digit fp)
   \<and> loadavg_dict [Some (Num (694680242521899 / 562949953421312)), Some (Num (1 / 2)), None]
       = [(''1'', Some (JStr ''1.23'')), (''5'', Some (JStr ''0.50'')),
          (''15'', Some (JNum (Num 0)))]"
proof -
  have a: "formatLoadavg u cfg (Some res) = formatByDict u (LoadavgFormat cfg) (loadavg_dict res)"
    by (simp add: formatLoadavg_def)
  have b: "map fst (loadavg_dict res) = [''1'', ''5'', ''15'']"
    by (simp add: loadavg_dict_def)
  have c: "map snd (loadavg_dict res) = map (\<lambda>i. Some (fixed2_or_zero (at_index res i))) [0, 1, 2]"
    by (simp add: loadavg_dict_def)
  have d: "fixed2_or_zero None = JNum (Num 0)"
    by (simp add: fixed2_or_zero_def)
  have e: "\<exists>ip fp. toFixed 2 (Num (\<bar>r\<bar>)) = ip @ ''.'' @ fp \<and> ip \<noteq> [] \<and> length fp = 2
         \<and> list_all is_digit ip \<and> list_all is_digit fp"
    using fixed_digits_shape [of 2 "\<bar>r\<bar>"] by simp
  have f: "loadavg_dict [Some (Num (694680242521899 / 562949953421312)), Some (Num (1 / 2)), None]
       = [(''1'', Some (JStr ''1.23'')), (''5'', Some (JStr ''0.50'')),
          (''15'', Some (JNum (Num 0)))]"
    by code_simp
  from a b c d e f fixed2_or_zero_Some [of x] show ?thesis by blast
qed

text \<open>
  C5. The GPU formatter returns the placeholder for a missing and for an empty list. For a
  list that is not empty the dictionary is that of the first GPU alone: \<open>percent\<close> is the
  integer nearest to its utilization (as a number), \<open>used\<close> and \<open>total\<close> are its memory
  values over 1024 rendered by \<open>toFixed(2)\<close>, and \<open>unit\<close> is \<open>GB\<close>. For instance 8192 and
  1536 megabytes at 35.5 percent give 36, \<open>1.50\<close> and \<open>8.00\<close>.
\<close>

theorem formatGpuLoad_first_gpu:
  "formatGpuLoad u cfg None = ''-''
   \<and> formatGpuLoad u cfg (Some []) = ''-''
   \<and> formatGpuLoad u cfg (Some (g # gs)) = formatByDict u (GpuLoadFormat cfg) (gpuLoad_dict g)
   \<and> gpuLoad_dict \<lparr>totalMemory = Some (Num t), usedMemory = Some (Num m),
                    gpuUtilization = Some (Num p)\<rparr>
       = [(''percent'', Some (JNum (Num (of_int \<lfloor>p + 1 / 2\<rfloor>)))),
          (''unit'', Some (JStr ''GB'')),
          (''used'', Some (JStr (toFixed 2 (Num (m / 1024))))),
          (''total'', Some (JStr (toFixed 2 (Num (t / 1024)))))]
   \<and> \<bar>of_int \<lfloor>p + 1 / 2\<rfloor> - p\<bar> \<le> 1 / 2
   \<and> gpuLoad_dict \<lparr>totalMemory = Some (Num 8192), usedMemory = Some (Num 1536),
                    gpuUtilization = Some (Num (71 / 2))\<rparr>
       = [(''percent'', Some (JNum (Num 36))), (''unit'', Some (JStr ''GB'')),
          (''used'', Some (JStr ''1.50'')), (''total'', Some (JStr ''8.00''))]"
proof -
  have a: "formatGpuLoad u cfg None = ''-''" "formatGpuLoad u cfg (Some []) = ''-''"
    "formatGpuLoad u cfg (Some (g # gs)) = formatByDict u (GpuLoadFormat cfg) (gpuLoad_dict g)"
    by (simp_all add: formatGpuLoad_def)
  have b: "gpuLoad_dict \<lparr>totalMemory = Some (Num t), usedMemory = Some (Num m),
                    gpuUtilization = Some (Num p)\<rparr>
       = [(''percent'', Some (JNum (Num (of_int \<lfloor>p + 1 / 2\<rfloor>)))),
          (''unit'', Some (JStr ''GB'')),
          (''used'', Some (JStr (toFixed 2 (Num (m / 1024))))),
          (''total'', Some (JStr (toFixed 2 (Num (t / 1024)))))]"
    by (simp add: gpuLoad_dict_def)
  have c: "gpuLoad_dict \<lparr>totalMemory = Some (Num 8192), usedMemory = Some (Num 1536),
                    gpuUtilization = Some (Num (71 / 2))\<rparr>
       = [(''percent'', Some (JNum (Num 36))), (''unit'', Some (JStr ''GB'')),
          (''used'', Some (JStr ''1.50'')), (''total'', Some (JStr ''8.00''))]"
    by code_simp
  from a b c round_nearest [of p] show ?thesis by blast
qed

text \<open>
  C10. A CPU load of exactly 0 and an uptime of 0 seconds, fetched without an error, are
  formatted as the placeholder: the adapter settles to the number 0, the formatter tests
  it for truthiness and returns \<open>-\<close>, so the formatted result of the kind has the text
  \<open>-\<close>, not a rendered \<open>0\<close>; the tick then leaves the item as it was.
\<close>

theorem zero_reading_is_placeholder:
  "getCpuLoad (env\<lparr>si_currentLoad := Inr (Num 0)\<rparr>) = Inr (Some (Num 0))
   \<and> getUpTime (env\<lparr>os_uptime := Inr (Num 0)\<rparr>) = Inr (Some (Num 0))
   \<and> formatCpuLoad u cfg (Some (Num 0)) = ''-''
   \<and> formatUptime u cfg (Some (Num 0)) = ''-''
   \<and> module_promise u cfg (env\<lparr>si_currentLoad := Inr (Num 0)\<rparr>) cpuLoad
       = Inr \<lparr>module = cpuLoad, text' = ''-'', tooltip = []\<rparr>
   \<and> module_promise u cfg (env\<lparr>os_uptime := Inr (Num 0)\<rparr>) uptime
       = Inr \<lparr>module = uptime, text' = ''-'', tooltip = []\<rparr>
   \<and> getSysInfo u (cfg\<lparr>curModules := [cpuLoad, uptime]\<rparr>)
        (env\<lparr>si_currentLoad := Inr (Num 0), os_uptime := Inr (Num 0)\<rparr>) st = (st, None)"
proof -
  have a: "getCpuLoad (env\<lparr>si_currentLoad := Inr (Num 0)\<rparr>) = Inr (Some (Num 0))"
    "getUpTime (env\<lparr>os_uptime := Inr (Num 0)\<rparr>) = Inr (Some (Num 0))"
    by (simp_all add: getCpuLoad_def getUpTime_def await_def try_catch_def)
  have b: "formatCpuLoad u cfg (Some (Num 0)) = ''-''" "formatUptime u cfg (Some (Num 0)) = ''-''"
    by (simp_all add: formatCpuLoad_def formatUptime_def)
  have c: "module_promise u cfg (env\<lparr>si_currentLoad := Inr (Num 0)\<rparr>) cpuLoad
       = Inr \<lparr>module = cpuLoad, text' = ''-'', tooltip = []\<rparr>"
    "module_promise u cfg (env\<lparr>os_uptime := Inr (Num 0)\<rparr>) uptime
       = Inr \<lparr>module = uptime, text' = ''-'', tooltip = []\<rparr>"
    by (simp_all add: module_promise_def a b await_def formatRes_def)
  have d: "getSysInfo u (cfg\<lparr>curModules := [cpuLoad, uptime]\<rparr>)
        (env\<lparr>si_currentLoad := Inr (Num 0), os_uptime := Inr (Num 0)\<rparr>) st = (st, None)"
    by (cases st)
       (simp add: getSysInfo_def module_promise_def getCpuLoad_def getUpTime_def await_def
          try_catch_def formatRes_def formatCpuLoad_def formatUptime_def show_data_def)
  from a b c d show ?thesis by blast
qed

section \<open>The adapters settle\<close>

lemma getX86GpuInfo_settles: "\<exists>r. getX86GpuInfo env = Inr r"
  by (auto simp: getX86GpuInfo_def try_catch_def await_def Let_def split: sum.splits prod.splits)

lemma getTegraInfo_settles: "\<exists>r. getTegraInfo env = Inr r"
  by (auto simp: getTegraInfo_def try_catch_def await_def Let_def split: sum.splits prod.splits)

lemma detectPlatform_settles: "\<exists>r. detectPlatform env = Inr r"
  using getX86GpuInfo_settles [of env] getTegraInfo_settles [of env]
  by (auto simp: detectPlatform_def try_catch_def await_def Let_def split: sum.splits prod.splits)

lemma sysinfoData_settles: "\<exists>r. sysinfoData u m env = Inr r"
proof (cases m)
  case gpuLoad
  then show ?thesis using detectPlatform_settles [of env]
    by (auto simp: getGpuLoad_def await_def)
qed (auto simp: getCpuLoad_def getLoadavg_def getNetworkSpeed_def getUpTime_def
      getMemoryUsage_def try_catch_def await_def split: sum.splits list.splits)

lemma module_promise_settles:
  "\<exists>r. sysinfoData u m env = Inr r \<and> module_promise u cfg env m = Inr (formatRes u cfg m r)"
  using sysinfoData_settles [of u m env] by (auto simp: module_promise_def await_def)

lemma failure_no_value:
  "getCpuLoad (env\<lparr>si_currentLoad := Inl e\<rparr>) = Inr None"
  "getLoadavg (env\<lparr>os_loadavg := Inl e\<rparr>) = Inr None"
  "getNetworkSpeed (env\<lparr>si_networkInterfaceDefault := Inl e\<rparr>) = Inr None"
  "getNetworkSpeed (env\<lparr>si_networkStats := \<lambda>iface. Inl e\<rparr>) = Inr None"
  "getNetworkSpeed (env\<lparr>si_networkStats := \<lambda>iface. Inr []\<rparr>) = Inr None"
  "getUpTime (env\<lparr>os_uptime := Inl e\<rparr>) = Inr None"
  "getMemoryUsage u (env\<lparr>getMacOsMemoryUsageInfo := Inl e, si_mem := Inl e\<rparr>) = Inr None"
  "getGpuLoad (env\<lparr>exec := \<lambda>cmd. Inl e\<rparr>) = Inr None"
  by (auto simp: getCpuLoad_def getLoadavg_def getNetworkSpeed_def getUpTime_def
      getMemoryUsage_def getGpuLoad_def detectPlatform_def try_catch_def await_def
      split: sum.splits list.splits)

section \<open>The GPU adapters, line by line\<close>

lemmas num_eval = StringToNumber_def trim_def is_space_def non_decimal_def signed_decimal_def
  unsigned_decimal_def exponent_part_def is_digit_def digits_val_def digit_val_def pow10_def

lemmas str_eval = split_def split_from.simps at_index_def

lemma tegra_batch:
  "getTegraInfo (env\<lparr>exec := \<lambda>cmd. Inr (out, [])\<rparr>)
     = Inr (Some (filter_Boolean (map tegra_line (split (trim out) ''\<newline>''))))"
  by (simp add: getTegraInfo_def try_catch_def await_def)

lemma x86_batch:
  "getX86GpuInfo (env\<lparr>exec := \<lambda>cmd. Inr (out, [])\<rparr>)
     = Inr (Some (map x86_line (split (trim out) ''\<newline>'')))"
  by (simp add: getX86GpuInfo_def try_catch_def await_def)

lemma filter_Boolean_append:
  "filter_Boolean (map f (ls @ l # ls')) =
     filter_Boolean (map f ls) @ (case f l of None \<Rightarrow> [] | Some g \<Rightarrow> [g])
       @ filter_Boolean (map f ls')"
  by (simp add: filter_Boolean_def List.map_filter_def split: option.splits)

lemma tegra_line_None: "(tegra_line l = None) = (regex_match l = None)"
  by (auto simp: tegra_line_def split: option.splits)

text \<open>
  C8. The code departs from the claim on the NVIDIA path. \<open>getX86GpuInfo\<close> checks no
  line: with nothing on the error stream it settles to one reading for every line of the
  output, whatever the line holds, because \<open>split\<close> and \<open>Number\<close> cannot fail. On a host
  whose first GPU answers the query with \<open>[N/A]\<close> in every field, the first reading has
  \<open>NaN\<close> in every field, the formatter takes it as the first GPU, and the status bar shows
  \<open>NaN\<close> for the load and the memory, although the second line is a reading of the
  expected form. The Tegra path does what the claim says: the line that the pattern does
  not match gives \<open>null\<close> and is removed, and the other line is read.
\<close>

theorem x86_malformed_line_is_a_reading:
  "getX86GpuInfo (env\<lparr>exec := \<lambda>cmd. Inr (out, [])\<rparr>)
     = Inr (Some (map x86_line (split (trim out) ''\<newline>'')))
   \<and> getGpuLoad (gpu_env ''x86_64\<newline>'' ''[N/A], [N/A], [N/A]\<newline>8192, 1024, 35\<newline>'')
       = Inr (Some [\<lparr>totalMemory = Some NaN, usedMemory = Some NaN, gpuUtilization = Some NaN\<rparr>,
                    \<lparr>totalMemory = Some (Num 8192), usedMemory = Some (Num 1024),
                      gpuUtilization = Some (Num 35)\<rparr>])
   \<and> formatGpuLoad u cfg
         (Some [\<lparr>totalMemory = Some NaN, usedMemory = Some NaN, gpuUtilization = Some NaN\<rparr>,
                \<lparr>totalMemory = Some (Num 8192), usedMemory = Some (Num 1024),
                  gpuUtilization = Some (Num 35)\<rparr>])
       = formatByDict u (GpuLoadFormat cfg)
           [(''percent'', Some (JNum NaN)), (''unit'', Some (JStr ''GB'')),
            (''used'', Some (JStr ''NaN'')), (''total'', Some (JStr ''NaN''))]
   \<and> getGpuLoad (gpu_env ''tegra\<newline>'' ''RAM 1024/8192MB 35%\<newline>RAM 2048/8192 MB 40%\<newline>'')
       = Inr (Some [\<lparr>totalMemory = Some (Num 8192), usedMemory = Some (Num 2048),
                      gpuUtilization = Some (Num 40)\<rparr>])"
proof -
  have a: "getGpuLoad (gpu_env ''x86_64\<newline>'' ''[N/A], [N/A], [N/A]\<newline>8192, 1024, 35\<newline>'')
       = Inr (Some [\<lparr>totalMemory = Some NaN, usedMemory = Some NaN, gpuUtilization = Some NaN\<rparr>,
                    \<lparr>totalMemory = Some (Num 8192), usedMemory = Some (Num 1024),
                      gpuUtilization = Some (Num 35)\<rparr>])"
    by (simp add: getGpuLoad_def detectPlatform_def getX86GpuInfo_def gpu_env_def nvidia_smi_def
        try_catch_def await_def x86_line_def num_eval str_eval double_eval)
  have b: "formatGpuLoad u cfg
         (Some [\<lparr>totalMemory = Some NaN, usedMemory = Some NaN, gpuUtilization = Some NaN\<rparr>,
                \<lparr>totalMemory = Some (Num 8192), usedMemory = Some (Num 1024),
                  gpuUtilization = Some (Num 35)\<rparr>])
       = formatByDict u (GpuLoadFormat cfg)
           [(''percent'', Some (JNum NaN)), (''unit'', Some (JStr ''GB'')),
            (''used'', Some (JStr ''NaN'')), (''total'', Some (JStr ''NaN''))]"
    by (simp add: formatGpuLoad_def gpuLoad_dict_def)
  have c: "getGpuLoad (gpu_env ''tegra\<newline>'' ''RAM 1024/8192MB 35%\<newline>RAM 2048/8192 MB 40%\<newline>'')
       = Inr (Some [\<lparr>totalMemory = Some (Num 8192), usedMemory = Some (Num 2048),
                      gpuUtilization = Some (Num 40)\<rparr>])"
    by (simp add: getGpuLoad_def detectPlatform_def getTegraInfo_def gpu_env_def
        try_catch_def await_def tegra_line_def match_here_def filter_Boolean_def
        List.map_filter_def num_eval str_eval double_eval)
  note xb = x86_batch [where env = env and out = out]
  show ?thesis by (intro conjI; rule a b c xb)
qed

section \<open>The driver: what a tick and a start do to the host\<close>

lemma modify_item_simps [simp]:
  "length (items (modify_item i f h)) = length (items h)"
  "timers (modify_item i f h) = timers h"
  "next_timer (modify_item i f h) = next_timer h"
  "powerShell (modify_item i f h) = powerShell h"
  by (simp_all add: modify_item_def)

lemma modify_item_nth:
  "x < length (items h) \<Longrightarrow>
     items (modify_item i f h) ! x = (if x = i then f (items h ! x) else items h ! x)"
  by (simp add: modify_item_def)

lemma show_data_ok:
  "index < length (statusItems sb) \<Longrightarrow>
     show_data sb index d h = Inr (modify_item (statusItems sb ! index) (shown_item d) h)"
  by (simp add: show_data_def shown_item_def modify_item_def)

lemma forEach_effect:
  assumes "k + length ds \<le> length (statusItems sb)" "distinct (statusItems sb)"
    "list_all (\<lambda>i. i < length (items h)) (statusItems sb)"
  shows "\<exists>h'. forEach sb k ds h = (h', None)
     \<and> length (items h') = length (items h) \<and> timers h' = timers h
     \<and> next_timer h' = next_timer h \<and> powerShell h' = powerShell h
     \<and> (\<forall>i<length ds. items h' ! (statusItems sb ! (k + i))
            = shown_item (ds ! i) (items h ! (statusItems sb ! (k + i))))
     \<and> (\<forall>x<length (items h). x \<notin> set (take (length ds) (drop k (statusItems sb)))
            \<longrightarrow> items h' ! x = items h ! x)"
  using assms
proof (induction ds arbitrary: k h)
  case Nil
  then show ?case by simp
next
  case (Cons d ds)
  let ?s = "statusItems sb"
  let ?h1 = "modify_item (?s ! k) (shown_item d) h"
  have k: "k < length ?s" using Cons.prems(1) by simp
  have sd: "show_data sb k d h = Inr ?h1" using k by (rule show_data_ok)
  have valid: "\<And>j. j < length ?s \<Longrightarrow> ?s ! j < length (items h)"
    using Cons.prems(3) by (simp add: list_all_length)
  have "Suc k + length ds \<le> length ?s" using Cons.prems(1) by simp
  moreover have "list_all (\<lambda>i. i < length (items ?h1)) ?s" using Cons.prems(3) by simp
  ultimately obtain h' where h': "forEach sb (Suc k) ds ?h1 = (h', None)"
    "length (items h') = length (items ?h1)" "timers h' = timers ?h1"
    "next_timer h' = next_timer ?h1" "powerShell h' = powerShell ?h1"
    "\<forall>i<length ds. items h' ! (?s ! (Suc k + i)) = shown_item (ds ! i) (items ?h1 ! (?s ! (Suc k + i)))"
    "\<forall>x<length (items ?h1). x \<notin> set (take (length ds) (drop (Suc k) ?s)) \<longrightarrow> items h' ! x = items ?h1 ! x"
    using Cons.IH [of "Suc k" ?h1] Cons.prems(2) by blast
  have notin: "?s ! k \<notin> set (take (length ds) (drop (Suc k) ?s))"
  proof
    assume "?s ! k \<in> set (take (length ds) (drop (Suc k) ?s))"
    then have "?s ! k \<in> set (drop (Suc k) ?s)" by (rule in_set_takeD)
    then obtain j where "j < length (drop (Suc k) ?s)" "drop (Suc k) ?s ! j = ?s ! k"
      by (auto simp: in_set_conv_nth)
    then have "Suc k + j < length ?s" "?s ! (Suc k + j) = ?s ! k" by auto
    with Cons.prems(2) k show False by (simp add: nth_eq_iff_index_eq)
  qed
  have pt: "items h' ! (?s ! (k + i)) = shown_item ((d # ds) ! i) (items h ! (?s ! (k + i)))"
    if i: "i < length (d # ds)" for i
  proof (cases i)
    case 0
    have "items h' ! (?s ! k) = items ?h1 ! (?s ! k)"
      using h'(7) notin valid [OF k] by simp
    also have "\<dots> = shown_item d (items h ! (?s ! k))"
      using valid [OF k] by (simp add: modify_item_nth)
    finally show ?thesis using 0 by simp
  next
    case (Suc j)
    then have j: "j < length ds" using i by simp
    have lt: "Suc k + j < length ?s" using j Cons.prems(1) by simp
    have ne: "?s ! (Suc k + j) \<noteq> ?s ! k"
      using Cons.prems(2) k lt by (simp add: nth_eq_iff_index_eq)
    have "items h' ! (?s ! (Suc k + j)) = shown_item (ds ! j) (items ?h1 ! (?s ! (Suc k + j)))"
      using h'(6) j by blast
    also have "items ?h1 ! (?s ! (Suc k + j)) = items h ! (?s ! (Suc k + j))"
      using valid [OF lt] ne by (simp add: modify_item_nth)
    finally show ?thesis using Suc by simp
  qed
  have fr: "items h' ! x = items h ! x"
    if x: "x < length (items h)" "x \<notin> set (take (length (d # ds)) (drop k ?s))" for x
  proof -
    have dr: "drop k ?s = ?s ! k # drop (Suc k) ?s" using k by (simp add: Cons_nth_drop_Suc)
    from x(2) have a: "x \<noteq> ?s ! k" "x \<notin> set (take (length ds) (drop (Suc k) ?s))"
      by (simp_all add: dr)
    have "items h' ! x = items ?h1 ! x" using h'(7) x(1) a(2) by simp
    also have "\<dots> = items h ! x" using x(1) a(1) by (simp add: modify_item_nth)
    finally show ?thesis .
  qed
  have "forEach sb k (d # ds) h = (h', None)" using sd h'(1) by simp
  with h'(2-5) pt fr show ?case by auto
qed

lemma modify_item_keeps_disposed:
  assumes "\<And>it. disposed (f it) = disposed it"
  shows "map disposed (items (modify_item i f h)) = map disposed (items h)"
  by (auto simp: modify_item_def assms list_eq_iff_nth_eq nth_list_update)

lemma show_data_keeps:
  assumes "show_data sb k d h = Inr h1"
  shows "length (items h1) = length (items h) \<and> map disposed (items h1) = map disposed (items h)
         \<and> timers h1 = timers h"
proof (cases "text' d = ''-''")
  case True
  with assms show ?thesis by (simp add: show_data_def)
next
  case False
  with assms have "k < length (statusItems sb)"
    by (auto simp: show_data_def split: if_splits)
  from show_data_ok [OF this, of d h] assms
  have "h1 = modify_item (statusItems sb ! k) (shown_item d) h" by simp
  moreover have "\<And>it. disposed (shown_item d it) = disposed it"
    by (simp add: shown_item_def)
  ultimately show ?thesis by (simp add: modify_item_keeps_disposed)
qed

lemma forEach_keeps:
  "length (items (fst (forEach sb k ds h))) = length (items h)
   \<and> map disposed (items (fst (forEach sb k ds h))) = map disposed (items h)
   \<and> timers (fst (forEach sb k ds h)) = timers h"
proof (induction ds arbitrary: k h)
  case Nil
  then show ?case by simp
next
  case (Cons d ds)
  show ?case
  proof (cases "show_data sb k d h")
    case (Inl e)
    then show ?thesis by simp
  next
    case (Inr h1)
    with show_data_keeps [OF Inr] Cons.IH [of "Suc k" h1] show ?thesis by simp
  qed
qed

lemma getSysInfo_keeps:
  "fst (fst (getSysInfo u cfg env st)) = fst st
   \<and> length (items (snd (fst (getSysInfo u cfg env st)))) = length (items (snd st))
   \<and> map disposed (items (snd (fst (getSysInfo u cfg env st)))) = map disposed (items (snd st))
   \<and> timers (snd (fst (getSysInfo u cfg env st))) = timers (snd st)"
proof (cases st)
  case (Pair sb h)
  show ?thesis
  proof (cases "Promise_all (map (module_promise u cfg env) (curModules cfg))")
    case (Inl e)
    with Pair show ?thesis by (simp add: getSysInfo_def)
  next
    case (Inr res)
    obtain h1 err where fe: "forEach sb 0 res h = (h1, err)" by (cases "forEach sb 0 res h")
    with Pair Inr forEach_keeps [of sb 0 res h] show ?thesis
      by (simp add: getSysInfo_def)
  qed
qed

lemma live_cong:
  "map disposed (items h') = map disposed (items h) \<Longrightarrow> live h' = live h"
proof -
  assume a: "map disposed (items h') = map disposed (items h)"
  then have l: "length (items h') = length (items h)" by (metis length_map)
  have "\<And>i. i < length (items h) \<Longrightarrow> disposed (items h' ! i) = disposed (items h ! i)"
    using a l by (metis nth_map)
  then show ?thesis unfolding live_def l by (auto intro: filter_cong)
qed

lemma Promise_all_settled:
  "(\<And>p. p \<in> set ps \<Longrightarrow> \<exists>v. p = Inr v) \<Longrightarrow> Promise_all ps = Inr (map projr ps)"
proof (induction ps)
  case Nil
  then show ?case by simp
next
  case (Cons p ps)
  from Cons.prems [of p] obtain v where v: "p = Inr v" by auto
  have "Promise_all ps = Inr (map projr ps)"
    by (rule Cons.IH) (simp add: Cons.prems)
  with v show ?case by (simp add: await_def)
qed

lemma tick_results:
  "Promise_all (map (module_promise u cfg env) ms) = Inr (map (\<lambda>m. projr (module_promise u cfg env m)) ms)"
proof -
  have "Promise_all (map (module_promise u cfg env) ms) = Inr (map projr (map (module_promise u cfg env) ms))"
  proof (rule Promise_all_settled)
    fix p assume "p \<in> set (map (module_promise u cfg env) ms)"
    then obtain m where "p = module_promise u cfg env m" by auto
    with module_promise_settles [of u m env cfg] show "\<exists>v. p = Inr v" by auto
  qed
  then show ?thesis by (simp add: comp_def)
qed

lemma getSysInfo_effect:
  assumes ok: "slots_ok cfg st"
  shows "snd (getSysInfo u cfg env st) = None"
    and "fst (fst (getSysInfo u cfg env st)) = fst st"
    and "\<And>i d. i < length (curModules cfg) \<Longrightarrow> module_promise u cfg env (curModules cfg ! i) = Inr d \<Longrightarrow>
           items (snd (fst (getSysInfo u cfg env st))) ! (statusItems (fst st) ! i)
             = shown_item d (items (snd st) ! (statusItems (fst st) ! i))"
    and "\<And>x. x < length (items (snd st)) \<Longrightarrow> x \<notin> set (statusItems (fst st)) \<Longrightarrow>
           items (snd (fst (getSysInfo u cfg env st))) ! x = items (snd st) ! x"
proof -
  obtain sb h where st: "st = (sb, h)" by (cases st)
  let ?ds = "map (\<lambda>m. projr (module_promise u cfg env m)) (curModules cfg)"
  have len: "length (statusItems sb) = length (curModules cfg)" and dist: "distinct (statusItems sb)"
    and valid: "list_all (\<lambda>i. i < length (items h)) (statusItems sb)"
    using ok unfolding slots_ok_def st by simp_all
  have "0 + length ?ds \<le> length (statusItems sb)" using len by simp
  from forEach_effect [OF this dist valid]
  obtain h' where h': "forEach sb 0 ?ds h = (h', None)"
    "\<forall>i<length ?ds. items h' ! (statusItems sb ! (0 + i)) = shown_item (?ds ! i) (items h ! (statusItems sb ! (0 + i)))"
    "\<forall>x<length (items h). x \<notin> set (take (length ?ds) (drop 0 (statusItems sb))) \<longrightarrow> items h' ! x = items h ! x"
    by blast
  have g: "getSysInfo u cfg env st = ((sb, h'), None)"
    unfolding getSysInfo_def st using h'(1) by (simp add: tick_results)
  show "snd (getSysInfo u cfg env st) = None" using g by simp
  show "fst (fst (getSysInfo u cfg env st)) = fst st" using g st by simp
  show "items (snd (fst (getSysInfo u cfg env st))) ! (statusItems (fst st) ! i)
             = shown_item d (items (snd st) ! (statusItems (fst st) ! i))"
    if "i < length (curModules cfg)" "module_promise u cfg env (curModules cfg ! i) = Inr d" for i d
    using h'(2) that g st by simp
  show "items (snd (fst (getSysInfo u cfg env st))) ! x = items (snd st) ! x"
    if "x < length (items (snd st))" "x \<notin> set (statusItems (fst st))" for x
    using h'(3) that g st len by simp
qed


text \<open>
  The same for any number of results: a tick may run with a list of kinds that the slots
  were not created for. Every position that has a slot is treated as above; a position
  past the last slot whose result is not the placeholder ends the loop with a \<open>TypeError\<close>.
\<close>

lemma forEach_slots:
  assumes "distinct (statusItems sb)" "list_all (\<lambda>i. i < length (items h)) (statusItems sb)"
  shows "(\<forall>i<length ds. k + i < length (statusItems sb) \<longrightarrow>
            items (fst (forEach sb k ds h)) ! (statusItems sb ! (k + i))
              = shown_item (ds ! i) (items h ! (statusItems sb ! (k + i))))
       \<and> (\<forall>x<length (items h). x \<notin> set (drop k (statusItems sb)) \<longrightarrow>
            items (fst (forEach sb k ds h)) ! x = items h ! x)
       \<and> snd (forEach sb k ds h)
           = (if \<exists>i<length ds. length (statusItems sb) \<le> k + i \<and> text' (ds ! i) \<noteq> ''-''
              then Some TypeError else None)"
  using assms
proof (induction ds arbitrary: k h)
  case Nil
  then show ?case by simp
next
  case (Cons d ds)
  let ?s = "statusItems sb"
  show ?case
  proof (cases "k < length ?s")
    case True
    let ?h1 = "modify_item (?s ! k) (shown_item d) h"
    let ?r = "forEach sb (Suc k) ds ?h1"
    have sd: "show_data sb k d h = Inr ?h1" using True by (rule show_data_ok)
    have fe: "forEach sb k (d # ds) h = ?r" using sd by simp
    have valid: "\<And>j. j < length ?s \<Longrightarrow> ?s ! j < length (items h)"
      using Cons.prems(2) by (simp add: list_all_length)
    have v1: "list_all (\<lambda>i. i < length (items ?h1)) ?s" using Cons.prems(2) by simp
    note ih = Cons.IH [OF Cons.prems(1) v1, of "Suc k"]
    have ih1: "items (fst ?r) ! (?s ! (Suc k + j)) = shown_item (ds ! j) (items ?h1 ! (?s ! (Suc k + j)))"
      if "j < length ds" "Suc k + j < length ?s" for j
      using ih that by blast
    have ih2: "items (fst ?r) ! x = items ?h1 ! x"
      if "x < length (items h)" "x \<notin> set (drop (Suc k) ?s)" for x
      using ih that by simp
    have ih3: "snd ?r = (if \<exists>i<length ds. length ?s \<le> Suc k + i \<and> text' (ds ! i) \<noteq> ''-''
                         then Some TypeError else None)"
      using ih by blast
    have notin: "?s ! k \<notin> set (drop (Suc k) ?s)"
    proof
      assume "?s ! k \<in> set (drop (Suc k) ?s)"
      then obtain j where "j < length (drop (Suc k) ?s)" "drop (Suc k) ?s ! j = ?s ! k"
        by (auto simp: in_set_conv_nth)
      then have "Suc k + j < length ?s" "?s ! (Suc k + j) = ?s ! k" by auto
      with Cons.prems(1) True show False by (simp add: nth_eq_iff_index_eq)
    qed
    have pt: "items (fst ?r) ! (?s ! (k + i)) = shown_item ((d # ds) ! i) (items h ! (?s ! (k + i)))"
      if i: "i < length (d # ds)" "k + i < length ?s" for i
    proof (cases i)
      case 0
      have "items (fst ?r) ! (?s ! k) = items ?h1 ! (?s ! k)"
        using ih2 [OF valid [OF True] notin] .
      also have "\<dots> = shown_item d (items h ! (?s ! k))"
        using valid [OF True] by (simp add: modify_item_nth)
      finally show ?thesis using 0 by simp
    next
      case (Suc j)
      then have j: "j < length ds" and lt: "Suc k + j < length ?s" using i by simp_all
      have ne: "?s ! (Suc k + j) \<noteq> ?s ! k"
        using Cons.prems(1) True lt by (simp add: nth_eq_iff_index_eq)
      have "items (fst ?r) ! (?s ! (Suc k + j)) = shown_item (ds ! j) (items ?h1 ! (?s ! (Suc k + j)))"
        using ih1 [OF j lt] .
      also have "items ?h1 ! (?s ! (Suc k + j)) = items h ! (?s ! (Suc k + j))"
        using valid [OF lt] ne by (simp add: modify_item_nth)
      finally show ?thesis using Suc by simp
    qed
    have fr: "items (fst ?r) ! x = items h ! x"
      if x: "x < length (items h)" "x \<notin> set (drop k ?s)" for x
    proof -
      have dr: "drop k ?s = ?s ! k # drop (Suc k) ?s" using True by (simp add: Cons_nth_drop_Suc)
      from x(2) have a: "x \<noteq> ?s ! k" "x \<notin> set (drop (Suc k) ?s)" by (simp_all add: dr)
      have "items (fst ?r) ! x = items ?h1 ! x" using ih2 [OF x(1) a(2)] .
      also have "\<dots> = items h ! x" using x(1) a(1) by (simp add: modify_item_nth)
      finally show ?thesis .
    qed
    have er: "(\<exists>i<length (d # ds). length ?s \<le> k + i \<and> text' ((d # ds) ! i) \<noteq> ''-'')
        = (\<exists>i<length ds. length ?s \<le> Suc k + i \<and> text' (ds ! i) \<noteq> ''-'')"
      (is "?L = ?R")
    proof
      assume ?L
      then obtain i where i: "i < length (d # ds)" "length ?s \<le> k + i"
        "text' ((d # ds) ! i) \<noteq> ''-''" by blast
      with True obtain j where "i = Suc j" by (cases i) auto
      with i show ?R by auto
    next
      assume ?R
      then obtain j where "j < length ds" "length ?s \<le> Suc k + j" "text' (ds ! j) \<noteq> ''-''"
        by blast
      then have "Suc j < length (d # ds)" "length ?s \<le> k + Suc j"
        "text' ((d # ds) ! Suc j) \<noteq> ''-''" by simp_all
      then show ?L by blast
    qed
    have e3: "snd ?r = (if \<exists>i<length (d # ds). length ?s \<le> k + i \<and> text' ((d # ds) ! i) \<noteq> ''-''
                         then Some TypeError else None)"
      unfolding er by (rule ih3)
    show ?thesis unfolding fe using pt fr e3 by blast
  next
    case False
    then have dr: "drop k ?s = []" "drop (Suc k) ?s = []" by simp_all
    show ?thesis
    proof (cases "text' d = ''-''")
      case True
      let ?r = "forEach sb (Suc k) ds h"
      have fe: "forEach sb k (d # ds) h = ?r" using True by (simp add: show_data_def)
      note ih = Cons.IH [OF Cons.prems, of "Suc k"]
      have ih2: "items (fst ?r) ! x = items h ! x" if "x < length (items h)" for x
        using ih that by (simp add: dr)
      have ih3: "snd ?r = (if \<exists>i<length ds. length ?s \<le> Suc k + i \<and> text' (ds ! i) \<noteq> ''-''
                         then Some TypeError else None)"
        using ih by blast
      have er: "(\<exists>i<length (d # ds). length ?s \<le> k + i \<and> text' ((d # ds) ! i) \<noteq> ''-'')
          = (\<exists>i<length ds. length ?s \<le> Suc k + i \<and> text' (ds ! i) \<noteq> ''-'')"
        (is "?L = ?R")
      proof
        assume ?L
        then obtain i where i: "i < length (d # ds)" "length ?s \<le> k + i"
          "text' ((d # ds) ! i) \<noteq> ''-''" by blast
        with True obtain j where "i = Suc j" by (cases i) auto
        with i show ?R by auto
      next
        assume ?R
        then obtain j where "j < length ds" "length ?s \<le> Suc k + j" "text' (ds ! j) \<noteq> ''-''"
          by blast
        then have "Suc j < length (d # ds)" "length ?s \<le> k + Suc j"
          "text' ((d # ds) ! Suc j) \<noteq> ''-''" by simp_all
        then show ?L by blast
      qed
      have e3: "snd ?r = (if \<exists>i<length (d # ds). length ?s \<le> k + i \<and> text' ((d # ds) ! i) \<noteq> ''-''
                           then Some TypeError else None)"
        unfolding er by (rule ih3)
      have p1: "\<forall>i<length (d # ds). k + i < length ?s \<longrightarrow>
            items (fst ?r) ! (?s ! (k + i)) = shown_item ((d # ds) ! i) (items h ! (?s ! (k + i)))"
        using False by simp
      have p2: "\<forall>x<length (items h). x \<notin> set (drop k ?s) \<longrightarrow> items (fst ?r) ! x = items h ! x"
        using ih2 by simp
      show ?thesis unfolding fe using p1 p2 e3 by blast
    next
      case nd: False
      have fe: "forEach sb k (d # ds) h = (h, Some TypeError)"
        using nd False by (simp add: show_data_def)
      have "0 < length (d # ds) \<and> length ?s \<le> k + 0 \<and> text' ((d # ds) ! 0) \<noteq> ''-''"
        using nd False by simp
      then have ex: "\<exists>i<length (d # ds). length ?s \<le> k + i \<and> text' ((d # ds) ! i) \<noteq> ''-''"
        by blast
      show ?thesis unfolding fe using False ex by simp
    qed
  qed
qed

text \<open>A tick in a state whose handles are distinct items of the host, under any list.\<close>

lemma getSysInfo_slots:
  assumes "distinct (statusItems (fst st))"
    "list_all (\<lambda>i. i < length (items (snd st))) (statusItems (fst st))"
  shows "\<And>i d. i < length (curModules cfg) \<Longrightarrow> i < length (statusItems (fst st)) \<Longrightarrow>
           module_promise u cfg env (curModules cfg ! i) = Inr d \<Longrightarrow>
           items (snd (fst (getSysInfo u cfg env st))) ! (statusItems (fst st) ! i)
             = shown_item d (items (snd st) ! (statusItems (fst st) ! i))"
    and "snd (getSysInfo u cfg env st)
           = (if \<exists>i<length (curModules cfg). length (statusItems (fst st)) \<le> i
                   \<and> (\<exists>d. module_promise u cfg env (curModules cfg ! i) = Inr d \<and> text' d \<noteq> ''-'')
              then Some TypeError else None)"
proof -
  obtain sb h where st: "st = (sb, h)" by (cases st)
  let ?ds = "map (\<lambda>m. projr (module_promise u cfg env m)) (curModules cfg)"
  have dist: "distinct (statusItems sb)"
    and valid: "list_all (\<lambda>i. i < length (items h)) (statusItems sb)"
    using assms unfolding st by simp_all
  note fe = forEach_slots [OF dist valid, of ?ds 0]
  have g: "getSysInfo u cfg env (sb, h) = ((sb, fst (forEach sb 0 ?ds h)), snd (forEach sb 0 ?ds h))"
    unfolding getSysInfo_def by (simp add: tick_results split_beta)
  have pr: "(module_promise u cfg env m = Inr d) = (projr (module_promise u cfg env m) = d)" for m d
    using module_promise_settles [of u m env cfg] by auto
  show "items (snd (fst (getSysInfo u cfg env st))) ! (statusItems (fst st) ! i)
             = shown_item d (items (snd st) ! (statusItems (fst st) ! i))"
    if "i < length (curModules cfg)" "i < length (statusItems (fst st))"
      "module_promise u cfg env (curModules cfg ! i) = Inr d" for i d
  proof -
    have "items (fst (forEach sb 0 ?ds h)) ! (statusItems sb ! (0 + i))
        = shown_item (?ds ! i) (items h ! (statusItems sb ! (0 + i)))"
      using fe that(1,2) unfolding st by simp
    then show ?thesis using that(1,3) unfolding st g by simp
  qed
  have "(\<exists>i<length ?ds. length (statusItems sb) \<le> 0 + i \<and> text' (?ds ! i) \<noteq> ''-'')
      = (\<exists>i<length (curModules cfg). length (statusItems sb) \<le> i
           \<and> (\<exists>d. module_promise u cfg env (curModules cfg ! i) = Inr d \<and> text' d \<noteq> ''-''))"
    by (auto simp: pr)
  then show "snd (getSysInfo u cfg env st)
           = (if \<exists>i<length (curModules cfg). length (statusItems (fst st)) \<le> i
                   \<and> (\<exists>d. module_promise u cfg env (curModules cfg ! i) = Inr d \<and> text' d \<noteq> ''-'')
              then Some TypeError else None)"
    using fe unfolding st g by simp
qed

lemma create_items_effect:
  "create_items ms al pr h =
     ([length (items h)..<length (items h) + length ms],
      h\<lparr>items := items h @ replicate (length ms)
           \<lparr>item_alignment = al, item_priority = pr, item_text = [], item_tooltip = [],
            shown = False, disposed = False\<rparr>\<rparr>)"
proof (induction ms arbitrary: h)
  case Nil
  then show ?case by simp
next
  case (Cons m ms)
  show ?case
    by (simp add: Cons.IH createStatusBarItem_def upt_conv_Cons del: upt_Suc)
qed

lemma fold_dispose_effect:
  "length (items (fold dispose xs h)) = length (items h)
   \<and> timers (fold dispose xs h) = timers h
   \<and> next_timer (fold dispose xs h) = next_timer h
   \<and> powerShell (fold dispose xs h) = powerShell h
   \<and> (\<forall>i<length (items h). disposed (items (fold dispose xs h) ! i)
          = (disposed (items h ! i) \<or> i \<in> set xs))"
proof (induction xs arbitrary: h)
  case Nil
  then show ?case by simp
next
  case (Cons x xs)
  have "\<forall>i<length (items h). disposed (items (dispose x h) ! i) = (disposed (items h ! i) \<or> i = x)"
    by (auto simp: dispose_def modify_item_nth)
  with Cons.IH [of "dispose x h"] show ?case
    by (auto simp: dispose_def)
qed

lemma live_empty_iff: "live h = [] \<longleftrightarrow> (\<forall>i<length (items h). disposed (items h ! i))"
  by (auto simp: live_def filter_empty_conv)

lemma set_live: "set (live h) = {i. i < length (items h) \<and> \<not> disposed (items h ! i)}"
  by (auto simp: live_def)

section \<open>Starting, stopping and the states of one activation\<close>

lemma start_no_context: "the_context sb = None \<Longrightarrow> start cfg (sb, h) = (sb, h)"
  by (simp add: start_def)

lemma start_disabled:
  assumes "the_context sb = Some subs" "\<not> AllEnabled cfg \<or> curModules cfg = []"
  shows "start cfg (sb, h) = (sb, fold dispose (statusItems sb) h)"
  using assms by (auto simp: start_def)

lemma start_enabled:
  assumes ctx: "the_context sb = Some subs" and en: "AllEnabled cfg" "curModules cfg \<noteq> []"
  shows "\<exists>sb' h'. start cfg (sb, h) = (sb', h')
     \<and> statusItems sb' = [length (items h)..<length (items h) + length (curModules cfg)]
     \<and> timer sb' = Some (next_timer h)
     \<and> the_context sb' = Some (subs @ statusItems sb')
     \<and> length (items h') = length (items h) + length (curModules cfg)
     \<and> (\<forall>i<length (items h). disposed (items h' ! i)
            = (disposed (items h ! i) \<or> i \<in> set (statusItems sb)))
     \<and> (\<forall>i<length (curModules cfg).
            item_text (items h' ! (length (items h) + i)) = []
            \<and> \<not> shown (items h' ! (length (items h) + i))
            \<and> \<not> disposed (items h' ! (length (items h) + i)))
     \<and> timers h' = timers h @ [(next_timer h, period_of cfg)]"
proof -
  let ?h1 = "fold dispose (statusItems sb) h"
  have h1: "(if length (statusItems sb) > 0 then fold dispose (statusItems sb) h else h) = ?h1"
    by auto
  note fd = fold_dispose_effect [of "statusItems sb" h]
  show ?thesis
    using ctx en fd
    by (simp add: start_def h1 create_items_effect update_def setInterval_def period_of_def
        nth_append Let_def del: upt_Suc)
qed

lemma slots_ok_start:
  assumes "the_context sb = Some subs" "AllEnabled cfg" "curModules cfg \<noteq> []"
  shows "slots_ok cfg (start cfg (sb, h))"
proof -
  from start_enabled [OF assms, of h] obtain sb' h' where
    s: "start cfg (sb, h) = (sb', h')"
    "statusItems sb' = [length (items h)..<length (items h) + length (curModules cfg)]"
    "length (items h') = length (items h) + length (curModules cfg)"
    by blast
  show ?thesis unfolding slots_ok_def s(1) using s(2,3)
    by (simp add: list_all_iff del: upt_Suc)
qed

lemma cancelUpdate_owned:
  assumes "owned (sb, h)"
  shows "\<exists>h'. cancelUpdate u False (sb, h) = (sb, h') \<and> items h' = items h \<and> timers h' = []"
proof (cases "timer sb")
  case None
  with assms have "timers h = []"
    by (cases "timers h") (auto simp: owned_def)
  with None show ?thesis by (simp add: cancelUpdate_def)
next
  case (Some t)
  with assms have "list_all (\<lambda>(i, p). i = t) (timers h)"
    by (auto simp: owned_def list_all_iff)
  then have "filter (\<lambda>(i, p). i \<noteq> t) (timers h) = []"
    by (auto simp: filter_empty_conv list_all_iff)
  with Some show ?thesis by (simp add: cancelUpdate_def clearInterval_def)
qed

lemma fold_dispose_live:
  assumes "list_all (\<lambda>i. i \<in> set xs) (live h)"
  shows "live (fold dispose xs h) = []"
proof -
  note fd = fold_dispose_effect [of xs h]
  have "\<And>i. i < length (items h) \<Longrightarrow> \<not> disposed (items h ! i) \<Longrightarrow> i \<in> set xs"
    using assms by (auto simp: list_all_iff set_live)
  with fd show ?thesis by (auto simp: live_empty_iff)
qed

lemma onSettingUpdate_disabled_idle:
  assumes ow: "owned st" and dis: "\<not> AllEnabled cfg \<or> curModules cfg = []"
  shows "idle (onSettingUpdate u cfg st)"
proof -
  obtain sb h where st: "st = (sb, h)" by (cases st)
  from cancelUpdate_owned [of sb h u] ow st obtain h' where
    c: "cancelUpdate u False (sb, h) = (sb, h')" "items h' = items h" "timers h' = []"
    by blast
  have lv: "live h' = live h" using c(2) by (simp add: live_def)
  show ?thesis
  proof (cases "the_context sb")
    case None
    with ow st have "live h = []" by (simp add: owned_def idle_def)
    with None c lv show ?thesis
      by (simp add: onSettingUpdate_def st start_no_context idle_def)
  next
    case (Some subs)
    have "list_all (\<lambda>i. i \<in> set (statusItems sb)) (live h')"
      using ow st lv by (simp add: owned_def)
    from fold_dispose_live [OF this] fold_dispose_effect [of "statusItems sb" h'] c(3)
    show ?thesis
      by (simp add: onSettingUpdate_def st c(1) start_disabled [OF Some dis] idle_def)
  qed
qed

lemma init_disabled_idle:
  assumes id: "idle st" and dis: "\<not> AllEnabled cfg \<or> curModules cfg = []"
  shows "idle (init u cfg subs st)"
proof -
  obtain sb h where st: "st = (sb, h)" by (cases st)
  let ?sb = "sb\<lparr>the_context := Some subs\<rparr>"
  have a: "init u cfg subs st = (?sb, fold dispose (statusItems sb) (siInit u h))"
    unfolding init_def st using start_disabled [of ?sb subs cfg "siInit u h"] dis by simp
  have "live (siInit u h) = []" "timers (siInit u h) = []"
    using id st by (simp_all add: idle_def siInit_def live_def)
  with fold_dispose_effect [of "statusItems sb" "siInit u h"]
  show ?thesis unfolding a by (auto simp: idle_def live_empty_iff)
qed

lemma idle_new: "idle (new_StatsBar, new_host)"
  by (simp add: idle_def new_host_def live_def)

lemma start_owned:
  assumes lv: "list_all (\<lambda>i. i \<in> set (statusItems sb)) (live h)" and tm: "timers h = []"
    and ctx: "the_context sb = None \<longrightarrow> live h = []"
  shows "owned (start cfg (sb, h))"
proof (cases "the_context sb")
  case None
  with lv tm ctx show ?thesis by (simp add: start_no_context owned_def idle_def)
next
  case (Some subs)
  show ?thesis
  proof (cases "\<not> AllEnabled cfg \<or> curModules cfg = []")
    case True
    from fold_dispose_live [OF lv] fold_dispose_effect [of "statusItems sb" h] tm Some
    show ?thesis by (simp add: start_disabled [OF Some True] owned_def)
  next
    case False
    then have en: "AllEnabled cfg" "curModules cfg \<noteq> []" by simp_all
    from start_enabled [OF Some en, of h] obtain sb' h' where
      s: "start cfg (sb, h) = (sb', h')"
      "statusItems sb' = [length (items h)..<length (items h) + length (curModules cfg)]"
      "timer sb' = Some (next_timer h)"
      "the_context sb' = Some (subs @ statusItems sb')"
      "length (items h') = length (items h) + length (curModules cfg)"
      "\<forall>i<length (items h). disposed (items h' ! i)
            = (disposed (items h ! i) \<or> i \<in> set (statusItems sb))"
      "timers h' = timers h @ [(next_timer h, period_of cfg)]"
      by blast
    have old: "disposed (items h' ! i)" if "i < length (items h)" for i
      using s(6) that lv by (auto simp: list_all_iff set_live)
    have "set (live h') \<subseteq> set (statusItems sb')"
    proof
      fix i assume "i \<in> set (live h')"
      then have i: "i < length (items h')" "\<not> disposed (items h' ! i)" by (simp_all add: set_live)
      with old have "length (items h) \<le> i" by (meson not_le)
      with i(1) s(5) show "i \<in> set (statusItems sb')" unfolding s(2) by simp
    qed
    then show ?thesis unfolding s(1) owned_def using s(3,4,7) tm
      by (auto simp: list_all_iff)
  qed
qed

lemma owned_init: "owned (init u cfg subs (new_StatsBar, new_host))"
proof -
  have "live (siInit u new_host) = []" "timers (siInit u new_host) = []"
    by (simp_all add: siInit_def new_host_def live_def)
  then have "owned (start cfg (new_StatsBar\<lparr>the_context := Some subs\<rparr>, siInit u new_host))"
    by (intro start_owned) simp_all
  then show ?thesis by (simp add: init_def)
qed

lemma owned_onSettingUpdate:
  assumes "owned st"
  shows "owned (onSettingUpdate u cfg st)"
proof -
  obtain sb h where st: "st = (sb, h)" by (cases st)
  from cancelUpdate_owned [of sb h u] assms st obtain h' where
    c: "cancelUpdate u False (sb, h) = (sb, h')" "items h' = items h" "timers h' = []"
    by blast
  have lv: "live h' = live h" using c(2) by (simp add: live_def)
  have "owned (start cfg (sb, h'))"
    using assms st lv c(3) by (intro start_owned) (auto simp: owned_def idle_def)
  then show ?thesis by (simp add: onSettingUpdate_def st c(1))
qed

lemma owned_tick:
  assumes "owned st"
  shows "owned (fst (getSysInfo u cfg env st))"
proof -
  note k = getSysInfo_keeps [of u cfg env st]
  have "live (snd (fst (getSysInfo u cfg env st))) = live (snd st)"
    using k by (intro live_cong) simp
  with assms k show ?thesis by (simp add: owned_def idle_def)
qed

lemma reachable_owned: "reachable u st \<Longrightarrow> owned st"
  by (induction rule: reachable.induct) (simp_all add: owned_init owned_onSettingUpdate owned_tick)

text \<open>
  In every state of an activation the handles in \<open>statusItems\<close> are items of the host, no
  item twice.
\<close>

lemma handles_start:
  assumes "distinct (statusItems sb)" "list_all (\<lambda>i. i < length (items h)) (statusItems sb)"
  shows "distinct (statusItems (fst (start cfg (sb, h))))
     \<and> list_all (\<lambda>i. i < length (items (snd (start cfg (sb, h)))))
          (statusItems (fst (start cfg (sb, h))))"
proof (cases "the_context sb")
  case None
  then show ?thesis using assms by (simp add: start_no_context)
next
  case (Some subs)
  show ?thesis
  proof (cases "AllEnabled cfg \<and> curModules cfg \<noteq> []")
    case True
    then have "slots_ok cfg (start cfg (sb, h))" using Some by (intro slots_ok_start) simp_all
    then show ?thesis by (simp add: slots_ok_def)
  next
    case False
    then have "start cfg (sb, h) = (sb, fold dispose (statusItems sb) h)"
      using Some by (intro start_disabled) auto
    then show ?thesis using assms fold_dispose_effect [of "statusItems sb" h] by simp
  qed
qed

lemma cancelUpdate_items:
  "fst (cancelUpdate u b st) = fst st \<and> items (snd (cancelUpdate u b st)) = items (snd st)"
  by (cases st)
    (simp add: cancelUpdate_def clearInterval_def siRelease_def Let_def split: option.splits)

lemma reachable_slots:
  "reachable u st \<Longrightarrow>
     distinct (statusItems (fst st))
     \<and> list_all (\<lambda>i. i < length (items (snd st))) (statusItems (fst st))"
proof (induction rule: reachable.induct)
  case (after_init cfg subscriptions)
  have "init u cfg subscriptions (new_StatsBar, new_host)
      = start cfg (new_StatsBar\<lparr>the_context := Some subscriptions\<rparr>, siInit u new_host)"
    by (simp add: init_def)
  moreover have "statusItems (new_StatsBar\<lparr>the_context := Some subscriptions\<rparr>) = []"
    by (simp add: new_StatsBar_def)
  ultimately show ?case
    using handles_start [of "new_StatsBar\<lparr>the_context := Some subscriptions\<rparr>" "siInit u new_host" cfg]
    by simp
next
  case (after_setting st cfg)
  obtain sb h where c: "cancelUpdate u False st = (sb, h)" by (cases "cancelUpdate u False st")
  with cancelUpdate_items [of u False st] have "sb = fst st" "items h = items (snd st)" by simp_all
  with after_setting.IH have "distinct (statusItems sb)"
    "list_all (\<lambda>i. i < length (items h)) (statusItems sb)" by simp_all
  from handles_start [OF this, of cfg] show ?case by (simp add: onSettingUpdate_def c)
next
  case (after_tick st cfg env)
  with getSysInfo_keeps [of u cfg env st] show ?case by simp
qed

lemmas driver_eval = init_def onSettingUpdate_def cancelUpdate_def clearInterval_def start_def
  update_def period_of_def setInterval_def createStatusBarItem_def dispose_def modify_item_def siInit_def
  new_StatsBar_def new_host_def example_setting_def example_utils_def alignment_of_def Let_def

text \<open>
  C7. With the global flag off or with no kind enabled, the driver ends idle, that is with
  no slot that is not disposed and with no armed timer: after \<open>init\<close> from an idle state
  (as the new driver on a new host is), and after \<open>onSettingUpdate\<close> from every state
  that one activation reaches. The array \<open>statusItems\<close> and the field \<open>timer\<close> keep the
  disposed items and the cleared handle.
\<close>

theorem disabled_ends_idle:
  assumes "\<not> AllEnabled cfg \<or> curModules cfg = []"
  shows "(idle st0 \<longrightarrow> idle (init u cfg subscriptions st0))
         \<and> (reachable u st \<longrightarrow> idle (onSettingUpdate u cfg st))"
  using assms init_disabled_idle onSettingUpdate_disabled_idle reachable_owned by blast

theorem disabled_ends_idle_witness:
  "idle (new_StatsBar, new_host)
   \<and> idle (init (example_utils False) (example_setting False [cpuLoad, loadavg]) []
              (new_StatsBar, new_host))
   \<and> reachable (example_utils False)
        (init (example_utils False) (example_setting True [cpuLoad, loadavg]) []
           (new_StatsBar, new_host))
   \<and> \<not> idle (init (example_utils False) (example_setting True [cpuLoad, loadavg]) []
                (new_StatsBar, new_host))
   \<and> idle (onSettingUpdate (example_utils False) (example_setting True [])
              (init (example_utils False) (example_setting True [cpuLoad, loadavg]) []
                 (new_StatsBar, new_host)))"
proof -
  let ?u = "example_utils False"
  let ?on = "example_setting True [cpuLoad, loadavg]"
  have off: "\<not> AllEnabled (example_setting False [cpuLoad, loadavg])
             \<or> curModules (example_setting False [cpuLoad, loadavg]) = []"
    by (simp add: example_setting_def)
  have empty: "\<not> AllEnabled (example_setting True []) \<or> curModules (example_setting True []) = []"
    by (simp add: example_setting_def)
  have r: "reachable ?u (init ?u ?on [] (new_StatsBar, new_host))"
    by (rule after_init)
  have running: "\<not> idle (init ?u ?on [] (new_StatsBar, new_host))"
    by (simp add: idle_def driver_eval)
  from disabled_ends_idle [OF off, of "(new_StatsBar, new_host)" ?u "[]"] idle_new
    disabled_ends_idle [OF empty, of _ ?u _ "init ?u ?on [] (new_StatsBar, new_host)"] r running
  show ?thesis by blast
qed

section \<open>Ticks\<close>

lemma module_promise_fields:
  assumes "module_promise u cfg env m = Inr d"
  shows "module d = m \<and> tooltip d = [] \<and> (\<exists>r. sysinfoData u m env = Inr r \<and> text' d = formatter u cfg r)"
  using assms module_promise_settles [of u m env cfg] by (auto simp: formatRes_def)

lemma slots_ok_tick:
  assumes "slots_ok cfg st"
  shows "slots_ok cfg (fst (getSysInfo u cfg env st))"
  using assms getSysInfo_keeps [of u cfg env st] by (simp add: slots_ok_def)

lemma tick_writes:
  assumes ok: "slots_ok cfg st" and i: "i < length (curModules cfg)"
    and d: "module_promise u cfg env (curModules cfg ! i) = Inr d"
  shows "items (snd (fst (getSysInfo u cfg env st))) ! (statusItems (fst st) ! i)
     = (if text' d = ''-'' then items (snd st) ! (statusItems (fst st) ! i)
        else (items (snd st) ! (statusItems (fst st) ! i))
               \<lparr>item_text := text' d, item_tooltip := StatsModuleNameMap (curModules cfg ! i),
                shown := True\<rparr>)"
  using getSysInfo_effect(3) [OF ok i d] module_promise_fields [OF d]
  by (simp add: shown_item_def)

lemma slots_distinct:
  assumes "slots_ok cfg st" "i < length (curModules cfg)" "j < length (curModules cfg)" "i \<noteq> j"
  shows "statusItems (fst st) ! i \<noteq> statusItems (fst st) ! j"
  using assms by (simp add: slots_ok_def nth_eq_iff_index_eq)

lemma sysinfoData_kind: "\<exists>r. sysinfoData u m env = Inr r \<and> kind_of r = m"
proof (cases m)
  case gpuLoad
  then show ?thesis using detectPlatform_settles [of env]
    by (auto simp: getGpuLoad_def await_def)
qed (auto simp: getCpuLoad_def getLoadavg_def getNetworkSpeed_def getUpTime_def
      getMemoryUsage_def try_catch_def await_def split: sum.splits list.splits)

lemmas tick_eval = getSysInfo_def module_promise_def getCpuLoad_def getLoadavg_def
  getNetworkSpeed_def getUpTime_def getMemoryUsage_def getGpuLoad_def detectPlatform_def
  getTegraInfo_def getX86GpuInfo_def await_def try_catch_def formatRes_def formatCpuLoad_def
  formatLoadavg_def formatGpuLoad_def formatUptime_def formatNetworkSpeed_def
  formatMemoUsage_def show_data_def failing_env_def

text \<open>
  C1, as amended. When the driver has its context, the global flag is on and the list of
  enabled kinds is not empty, \<open>start\<close> creates exactly one new item per entry of the list;
  \<open>statusItems\<close> holds them in the order of the list, no item twice. A tick reads the list
  of kinds before it awaits the adapters and the slots after, so it may run with a list
  \<open>tc\<close> that the slots were not created for. In every state that the driver reaches after
  \<open>init\<close> and for every such list: every adapter settles; for every position \<open>i\<close> of the
  list that has a slot and whose formatted result is not the placeholder, the text of that
  result, the name of the \<open>i\<close>-th kind of the list as tooltip and the visibility are
  written to the slot at position \<open>i\<close>; two positions never have the same slot; the tick
  ends with a \<open>TypeError\<close> when a position past the last slot has a result that is not the
  placeholder, and without an error otherwise. When the slots fit the list (one per
  entry, as \<open>start\<close> leaves them), every position has a slot, the tick ends without an
  error and the slots still fit. The kind of a slot is the entry of the list at its
  position, so two slots have the same kind exactly when the list names a kind twice.
\<close>

theorem start_and_tick_by_position:
  assumes ctx: "the_context sb = Some subs" and en: "AllEnabled cfg" and ne: "curModules cfg \<noteq> []"
  shows "statusItems (fst (start cfg (sb, h)))
           = [length (items h)..<length (items h) + length (curModules cfg)]
    \<and> length (items (snd (start cfg (sb, h)))) = length (items h) + length (curModules cfg)
    \<and> slots_ok cfg (start cfg (sb, h))
    \<and> (\<forall>m. \<exists>r. module_promise u tc env m = Inr (formatRes u tc m r))
    \<and> (\<forall>st. reachable u st \<longrightarrow>
          (\<forall>i<length (curModules tc). i < length (statusItems (fst st)) \<longrightarrow> (\<forall>d.
                module_promise u tc env (curModules tc ! i) = Inr d \<longrightarrow> text' d \<noteq> ''-'' \<longrightarrow>
                  item_text (items (snd (fst (getSysInfo u tc env st))) ! (statusItems (fst st) ! i))
                    = text' d
                  \<and> item_tooltip (items (snd (fst (getSysInfo u tc env st))) ! (statusItems (fst st) ! i))
                    = StatsModuleNameMap (curModules tc ! i)
                  \<and> shown (items (snd (fst (getSysInfo u tc env st))) ! (statusItems (fst st) ! i))))
          \<and> (\<forall>i<length (statusItems (fst st)). \<forall>j<length (statusItems (fst st)).
                i \<noteq> j \<longrightarrow> statusItems (fst st) ! i \<noteq> statusItems (fst st) ! j)
          \<and> snd (getSysInfo u tc env st)
              = (if \<exists>i<length (curModules tc). length (statusItems (fst st)) \<le> i
                      \<and> (\<exists>d. module_promise u tc env (curModules tc ! i) = Inr d \<and> text' d \<noteq> ''-'')
                 then Some TypeError else None))
    \<and> (\<forall>st. slots_ok tc st \<longrightarrow>
          snd (getSysInfo u tc env st) = None \<and> slots_ok tc (fst (getSysInfo u tc env st)))"
proof -
  from start_enabled [OF ctx en ne, of h] obtain sb' h' where
    s: "start cfg (sb, h) = (sb', h')"
    "statusItems sb' = [length (items h)..<length (items h) + length (curModules cfg)]"
    "length (items h') = length (items h) + length (curModules cfg)"
    by blast
  have a: "statusItems (fst (start cfg (sb, h)))
           = [length (items h)..<length (items h) + length (curModules cfg)]"
    and a': "length (items (snd (start cfg (sb, h)))) = length (items h) + length (curModules cfg)"
    using s by simp_all
  have b: "slots_ok cfg (start cfg (sb, h))" using ctx en ne by (rule slots_ok_start)
  have c: "\<forall>m. \<exists>r. module_promise u tc env m = Inr (formatRes u tc m r)"
    using module_promise_settles by blast
  have t: "\<forall>st. reachable u st \<longrightarrow>
          (\<forall>i<length (curModules tc). i < length (statusItems (fst st)) \<longrightarrow> (\<forall>d.
                module_promise u tc env (curModules tc ! i) = Inr d \<longrightarrow> text' d \<noteq> ''-'' \<longrightarrow>
                  item_text (items (snd (fst (getSysInfo u tc env st))) ! (statusItems (fst st) ! i))
                    = text' d
                  \<and> item_tooltip (items (snd (fst (getSysInfo u tc env st))) ! (statusItems (fst st) ! i))
                    = StatsModuleNameMap (curModules tc ! i)
                  \<and> shown (items (snd (fst (getSysInfo u tc env st))) ! (statusItems (fst st) ! i))))
          \<and> (\<forall>i<length (statusItems (fst st)). \<forall>j<length (statusItems (fst st)).
                i \<noteq> j \<longrightarrow> statusItems (fst st) ! i \<noteq> statusItems (fst st) ! j)
          \<and> snd (getSysInfo u tc env st)
              = (if \<exists>i<length (curModules tc). length (statusItems (fst st)) \<le> i
                      \<and> (\<exists>d. module_promise u tc env (curModules tc ! i) = Inr d \<and> text' d \<noteq> ''-'')
                 then Some TypeError else None)"
  proof (intro allI impI)
    fix st assume "reachable u st"
    then have hd: "distinct (statusItems (fst st))"
      and hv: "list_all (\<lambda>i. i < length (items (snd st))) (statusItems (fst st))"
      using reachable_slots by blast+
    have 1: "\<forall>i<length (curModules tc). i < length (statusItems (fst st)) \<longrightarrow> (\<forall>d.
                module_promise u tc env (curModules tc ! i) = Inr d \<longrightarrow> text' d \<noteq> ''-'' \<longrightarrow>
                  item_text (items (snd (fst (getSysInfo u tc env st))) ! (statusItems (fst st) ! i))
                    = text' d
                  \<and> item_tooltip (items (snd (fst (getSysInfo u tc env st))) ! (statusItems (fst st) ! i))
                    = StatsModuleNameMap (curModules tc ! i)
                  \<and> shown (items (snd (fst (getSysInfo u tc env st))) ! (statusItems (fst st) ! i)))"
    proof (intro allI impI)
      fix i d
      assume i: "i < length (curModules tc)" "i < length (statusItems (fst st))"
        and d: "module_promise u tc env (curModules tc ! i) = Inr d" and nd: "text' d \<noteq> ''-''"
      from getSysInfo_slots(1) [OF hd hv i d] module_promise_fields [OF d] nd
      show "item_text (items (snd (fst (getSysInfo u tc env st))) ! (statusItems (fst st) ! i))
                    = text' d
                  \<and> item_tooltip (items (snd (fst (getSysInfo u tc env st))) ! (statusItems (fst st) ! i))
                    = StatsModuleNameMap (curModules tc ! i)
                  \<and> shown (items (snd (fst (getSysInfo u tc env st))) ! (statusItems (fst st) ! i))"
        by (simp add: shown_item_def)
    qed
    have 2: "\<forall>i<length (statusItems (fst st)). \<forall>j<length (statusItems (fst st)).
                i \<noteq> j \<longrightarrow> statusItems (fst st) ! i \<noteq> statusItems (fst st) ! j"
      using hd by (simp add: nth_eq_iff_index_eq)
    note 3 = getSysInfo_slots(2) [OF hd hv, of u tc env]
    show "(\<forall>i<length (curModules tc). i < length (statusItems (fst st)) \<longrightarrow> (\<forall>d.
                module_promise u tc env (curModules tc ! i) = Inr d \<longrightarrow> text' d \<noteq> ''-'' \<longrightarrow>
                  item_text (items (snd (fst (getSysInfo u tc env st))) ! (statusItems (fst st) ! i))
                    = text' d
                  \<and> item_tooltip (items (snd (fst (getSysInfo u tc env st))) ! (statusItems (fst st) ! i))
                    = StatsModuleNameMap (curModules tc ! i)
                  \<and> shown (items (snd (fst (getSysInfo u tc env st))) ! (statusItems (fst st) ! i))))
          \<and> (\<forall>i<length (statusItems (fst st)). \<forall>j<length (statusItems (fst st)).
                i \<noteq> j \<longrightarrow> statusItems (fst st) ! i \<noteq> statusItems (fst st) ! j)
          \<and> snd (getSysInfo u tc env st)
              = (if \<exists>i<length (curModules tc). length (statusItems (fst st)) \<le> i
                      \<and> (\<exists>d. module_promise u tc env (curModules tc ! i) = Inr d \<and> text' d \<noteq> ''-'')
                 then Some TypeError else None)"
      by (intro conjI; rule 1 2 3)
  qed
  have k: "\<forall>st. slots_ok tc st \<longrightarrow>
          snd (getSysInfo u tc env st) = None \<and> slots_ok tc (fst (getSysInfo u tc env st))"
    using getSysInfo_effect(1) slots_ok_tick by blast
  show ?thesis by (intro conjI; rule a a' b c t k)
qed

text \<open>
  An instance: started with the kinds \<open>cpuLoad\<close> and \<open>loadavg\<close>, the driver has the slots 0
  and 1, and a tick with a CPU load of 50 writes the formatted text to slot 0.
\<close>

theorem start_and_tick_by_position_witness:
  "the_context (new_StatsBar\<lparr>the_context := Some []\<rparr>) = Some []
   \<and> AllEnabled (example_setting True [cpuLoad, loadavg])
   \<and> curModules (example_setting True [cpuLoad, loadavg]) \<noteq> []
   \<and> statusItems (fst (start (example_setting True [cpuLoad, loadavg])
          (new_StatsBar\<lparr>the_context := Some []\<rparr>, new_host))) = [0, 1]
   \<and> reachable (example_utils False)
        (init (example_utils False) (example_setting True [cpuLoad, loadavg]) []
           (new_StatsBar, new_host))
   \<and> statusItems (fst (init (example_utils False) (example_setting True [cpuLoad, loadavg]) []
          (new_StatsBar, new_host))) = [0, 1]
   \<and> module_promise (example_utils False) (example_setting True [cpuLoad, loadavg])
        (failing_env\<lparr>si_currentLoad := Inr (Num 50)\<rparr>) cpuLoad
        = Inr \<lparr>module = cpuLoad, text' = ''cpu'', tooltip = []\<rparr>
   \<and> item_text (items (snd (fst (getSysInfo (example_utils False)
          (example_setting True [cpuLoad, loadavg])
          (failing_env\<lparr>si_currentLoad := Inr (Num 50)\<rparr>)
          (init (example_utils False) (example_setting True [cpuLoad, loadavg]) []
             (new_StatsBar, new_host))))) ! 0) = ''cpu''"
proof -
  let ?cfg = "example_setting True [cpuLoad, loadavg]"
  let ?sb = "new_StatsBar\<lparr>the_context := Some []\<rparr>"
  let ?u = "example_utils False"
  let ?env = "failing_env\<lparr>si_currentLoad := Inr (Num 50)\<rparr>"
  let ?st = "init ?u ?cfg [] (new_StatsBar, new_host)"
  let ?d = "\<lparr>module = cpuLoad, text' = ''cpu'', tooltip = []\<rparr>"
  have h1: "the_context ?sb = Some []" by simp
  have h2: "AllEnabled ?cfg" by (simp add: example_setting_def)
  have h3: "curModules ?cfg \<noteq> []" by (simp add: example_setting_def)
  have m: "curModules ?cfg ! 0 = cpuLoad" "0 < length (curModules ?cfg)"
    by (simp_all add: example_setting_def)
  have d: "module_promise ?u ?cfg ?env cpuLoad = Inr ?d"
    by (simp add: tick_eval example_utils_def example_setting_def)
  have rch: "reachable ?u ?st" by (rule reachable.after_init)
  have si: "statusItems (fst ?st) = [0, 1]" by (simp add: driver_eval)
  have sl: "0 < length (statusItems (fst ?st))" unfolding si by simp
  have nd: "text' ?d \<noteq> ''-''" by simp
  note t = start_and_tick_by_position [OF h1 h2 h3, where h = new_host and u = ?u and tc = ?cfg
      and env = ?env]
  from t have "statusItems (fst (start ?cfg (?sb, new_host)))
      = [length (items new_host)..<length (items new_host) + length (curModules ?cfg)]"
    by (rule conjunct1)
  then have s: "statusItems (fst (start ?cfg (?sb, new_host))) = [0, 1]"
    by (simp add: new_host_def example_setting_def)
  note tk = t [THEN conjunct2, THEN conjunct2, THEN conjunct2, THEN conjunct2, THEN conjunct1,
      rule_format, OF rch, THEN conjunct1, rule_format, OF m(2) sl, of ?d]
  have "item_text (items (snd (fst (getSysInfo ?u ?cfg ?env ?st))) ! (statusItems (fst ?st) ! 0))
          = text' ?d"
    using tk d nd unfolding m(1) by (simp only: simp_thms)
  then have w: "item_text (items (snd (fst (getSysInfo ?u ?cfg ?env ?st))) ! 0) = ''cpu''"
    unfolding si by simp
  show ?thesis by (intro conjI; rule h1 h2 h3 s rch si d w)
qed

text \<open>
  C1 as stated fails in four ways. With the global flag off, \<open>start\<close> creates no slot for
  the one kind of the list. A tick in which the CPU adapter fails has the placeholder as
  the formatted result of position 0 and does not write it: the text of slot 0 stays
  empty. Nothing keeps a kind from standing twice in the list: with \<open>loadavg\<close> twice there
  are two slots, and after a tick both show the load average. And a tick that has read
  the list \<open>cpuLoad\<close>, \<open>loadavg\<close> and writes after the configuration has changed to the
  list \<open>gpuLoad\<close> finds one slot, the one made for \<open>gpuLoad\<close>: it writes the CPU load and
  the name of \<open>cpuLoad\<close> to that slot, has no slot for the load average, and ends with a
  \<open>TypeError\<close>.
\<close>

theorem placeholder_not_written_and_kinds_repeat:
  "statusItems (fst (init (example_utils False) (example_setting False [cpuLoad]) []
          (new_StatsBar, new_host))) = []
   \<and> items (snd (init (example_utils False) (example_setting False [cpuLoad]) []
          (new_StatsBar, new_host))) = []
   \<and> module_promise (example_utils False) (example_setting True [cpuLoad]) failing_env cpuLoad
     = Inr \<lparr>module = cpuLoad, text' = ''-'', tooltip = []\<rparr>
   \<and> item_text (items (snd (fst (getSysInfo (example_utils False)
          (example_setting True [cpuLoad]) failing_env
          (init (example_utils False) (example_setting True [cpuLoad]) []
             (new_StatsBar, new_host))))) ! 0) = []
   \<and> curModules (example_setting True [loadavg, loadavg]) = [loadavg, loadavg]
   \<and> statusItems (fst (init (example_utils False) (example_setting True [loadavg, loadavg]) []
          (new_StatsBar, new_host))) = [0, 1]
   \<and> map item_tooltip (items (snd (fst (getSysInfo (example_utils False)
          (example_setting True [loadavg, loadavg])
          (failing_env\<lparr>os_loadavg := Inr [Some (Num 1), Some (Num 2), Some (Num 3)]\<rparr>)
          (init (example_utils False) (example_setting True [loadavg, loadavg]) []
             (new_StatsBar, new_host))))))
       = [''Loadavg'', ''Loadavg'']
   \<and> reachable (example_utils False)
        (onSettingUpdate (example_utils False) (example_setting True [gpuLoad])
           (init (example_utils False) (example_setting True [cpuLoad, loadavg]) []
              (new_StatsBar, new_host)))
   \<and> statusItems (fst (onSettingUpdate (example_utils False) (example_setting True [gpuLoad])
          (init (example_utils False) (example_setting True [cpuLoad, loadavg]) []
             (new_StatsBar, new_host)))) = [2]
   \<and> snd (getSysInfo (example_utils False) (example_setting True [cpuLoad, loadavg])
          (failing_env\<lparr>si_currentLoad := Inr (Num 50),
             os_loadavg := Inr [Some (Num 1), Some (Num 2), Some (Num 3)]\<rparr>)
          (onSettingUpdate (example_utils False) (example_setting True [gpuLoad])
             (init (example_utils False) (example_setting True [cpuLoad, loadavg]) []
                (new_StatsBar, new_host)))) = Some TypeError
   \<and> map (\<lambda>it. (item_text it, item_tooltip it, shown it, disposed it))
        (items (snd (fst (getSysInfo (example_utils False)
          (example_setting True [cpuLoad, loadavg])
          (failing_env\<lparr>si_currentLoad := Inr (Num 50),
             os_loadavg := Inr [Some (Num 1), Some (Num 2), Some (Num 3)]\<rparr>)
          (onSettingUpdate (example_utils False) (example_setting True [gpuLoad])
             (init (example_utils False) (example_setting True [cpuLoad, loadavg]) []
                (new_StatsBar, new_host)))))))
       = [([], [], False, True), ([], [], False, True), (''cpu'', ''CpuLoad'', True, False)]"
proof -
  let ?u = "example_utils False"
  let ?a = "example_setting True [cpuLoad, loadavg]"
  let ?b = "example_setting True [gpuLoad]"
  let ?e = "failing_env\<lparr>si_currentLoad := Inr (Num 50),
             os_loadavg := Inr [Some (Num 1), Some (Num 2), Some (Num 3)]\<rparr>"
  let ?st = "onSettingUpdate ?u ?b (init ?u ?a [] (new_StatsBar, new_host))"
  have c1: "statusItems (fst (init ?u (example_setting False [cpuLoad]) []
          (new_StatsBar, new_host))) = []"
    and c2: "items (snd (init ?u (example_setting False [cpuLoad]) []
          (new_StatsBar, new_host))) = []"
    by (simp_all add: driver_eval)
  have c3: "module_promise ?u (example_setting True [cpuLoad]) failing_env cpuLoad
     = Inr \<lparr>module = cpuLoad, text' = ''-'', tooltip = []\<rparr>"
    by (simp add: tick_eval driver_eval)
  have c4: "item_text (items (snd (fst (getSysInfo ?u (example_setting True [cpuLoad]) failing_env
          (init ?u (example_setting True [cpuLoad]) [] (new_StatsBar, new_host))))) ! 0) = []"
    by (simp add: tick_eval driver_eval)
  have c5: "curModules (example_setting True [loadavg, loadavg]) = [loadavg, loadavg]"
    by (simp add: example_setting_def)
  have c6: "statusItems (fst (init ?u (example_setting True [loadavg, loadavg]) []
          (new_StatsBar, new_host))) = [0, 1]"
    by (simp add: driver_eval)
  have c7: "map item_tooltip (items (snd (fst (getSysInfo ?u
          (example_setting True [loadavg, loadavg])
          (failing_env\<lparr>os_loadavg := Inr [Some (Num 1), Some (Num 2), Some (Num 3)]\<rparr>)
          (init ?u (example_setting True [loadavg, loadavg]) [] (new_StatsBar, new_host))))))
       = [''Loadavg'', ''Loadavg'']"
    by (simp add: tick_eval driver_eval)
  have c8: "reachable ?u ?st"
    by (rule reachable.after_setting) (rule reachable.after_init)
  have st: "?st =
    (\<lparr>statusItems = [2], timer = Some 1, the_context = Some [0, 1, 2]\<rparr>,
     \<lparr>items = [\<lparr>item_alignment = Some Left, item_priority = - 1, item_text = [],
                 item_tooltip = [], shown = False, disposed = True\<rparr>,
               \<lparr>item_alignment = Some Left, item_priority = - 1, item_text = [],
                 item_tooltip = [], shown = False, disposed = True\<rparr>,
               \<lparr>item_alignment = Some Left, item_priority = - 1, item_text = [],
                 item_tooltip = [], shown = False, disposed = False\<rparr>],
      timers = [(1, 1000)], next_timer = 2, powerShell = False\<rparr>)"
    by (simp add: driver_eval)
  have c9: "statusItems (fst ?st) = [2]" unfolding st by simp
  have c10: "snd (getSysInfo ?u ?a ?e ?st) = Some TypeError"
    unfolding st by (simp add: tick_eval example_utils_def example_setting_def)
  have c11: "map (\<lambda>it. (item_text it, item_tooltip it, shown it, disposed it))
        (items (snd (fst (getSysInfo ?u ?a ?e ?st))))
       = [([], [], False, True), ([], [], False, True), (''cpu'', ''CpuLoad'', True, False)]"
    unfolding st by (simp add: tick_eval example_utils_def example_setting_def modify_item_def)
  show ?thesis by (intro conjI; rule c1 c2 c3 c4 c5 c6 c7 c8 c9 c10 c11)
qed

text \<open>
  C2. In a state whose slots fit the list of enabled kinds, for every tick and every
  position \<open>i\<close>: when the formatted result of the \<open>i\<close>-th kind has the placeholder as its
  text, the tick leaves the item at position \<open>i\<close> as it was, with its text, its tooltip
  and its visibility (and the item is not disposed by it either); otherwise the item gets
  the text of the result, the name of the kind as tooltip, and is shown.
\<close>

theorem placeholder_keeps_slot:
  assumes "slots_ok cfg st" and "i < length (curModules cfg)"
    and "module_promise u cfg env (curModules cfg ! i) = Inr d"
  shows "(text' d = ''-'' \<longrightarrow>
            items (snd (fst (getSysInfo u cfg env st))) ! (statusItems (fst st) ! i)
              = items (snd st) ! (statusItems (fst st) ! i))
       \<and> (text' d \<noteq> ''-'' \<longrightarrow>
            items (snd (fst (getSysInfo u cfg env st))) ! (statusItems (fst st) ! i)
              = (items (snd st) ! (statusItems (fst st) ! i))
                  \<lparr>item_text := text' d,
                   item_tooltip := StatsModuleNameMap (curModules cfg ! i),
                   shown := True\<rparr>)"
  using tick_writes [OF assms] by simp

text \<open>
  An instance: after a tick that has shown the CPU load in slot 0, a tick in which the CPU
  adapter fails and the load average is read leaves slot 0 as it was and shows slot 1.
\<close>

theorem placeholder_keeps_slot_witness:
  "slots_ok (example_setting True [cpuLoad, loadavg])
     (fst (getSysInfo (example_utils False) (example_setting True [cpuLoad, loadavg])
        (failing_env\<lparr>si_currentLoad := Inr (Num 50)\<rparr>)
        (init (example_utils False) (example_setting True [cpuLoad, loadavg]) []
           (new_StatsBar, new_host))))
   \<and> module_promise (example_utils False) (example_setting True [cpuLoad, loadavg])
        (failing_env\<lparr>os_loadavg := Inr [Some (Num 1), Some (Num 2), Some (Num 3)]\<rparr>) cpuLoad
       = Inr \<lparr>module = cpuLoad, text' = ''-'', tooltip = []\<rparr>
   \<and> module_promise (example_utils False) (example_setting True [cpuLoad, loadavg])
        (failing_env\<lparr>os_loadavg := Inr [Some (Num 1), Some (Num 2), Some (Num 3)]\<rparr>) loadavg
       = Inr \<lparr>module = loadavg, text' = ''load'', tooltip = []\<rparr>
   \<and> items (snd (fst (getSysInfo (example_utils False) (example_setting True [cpuLoad, loadavg])
        (failing_env\<lparr>os_loadavg := Inr [Some (Num 1), Some (Num 2), Some (Num 3)]\<rparr>)
        (fst (getSysInfo (example_utils False) (example_setting True [cpuLoad, loadavg])
           (failing_env\<lparr>si_currentLoad := Inr (Num 50)\<rparr>)
           (init (example_utils False) (example_setting True [cpuLoad, loadavg]) []
              (new_StatsBar, new_host)))))))
       = [\<lparr>item_alignment = Some Left, item_priority = - 1, item_text = ''cpu'',
            item_tooltip = ''CpuLoad'', shown = True, disposed = False\<rparr>,
          \<lparr>item_alignment = Some Left, item_priority = - 1, item_text = ''load'',
            item_tooltip = ''Loadavg'', shown = True, disposed = False\<rparr>]"
proof -
  let ?cfg = "example_setting True [cpuLoad, loadavg]"
  let ?u = "example_utils False"
  let ?e1 = "failing_env\<lparr>si_currentLoad := Inr (Num 50)\<rparr>"
  let ?e2 = "failing_env\<lparr>os_loadavg := Inr [Some (Num 1), Some (Num 2), Some (Num 3)]\<rparr>"
  let ?st0 = "init ?u ?cfg [] (new_StatsBar, new_host)"
  let ?st1 = "fst (getSysInfo ?u ?cfg ?e1 ?st0)"
  let ?d0 = "\<lparr>module = cpuLoad, text' = ''-'', tooltip = []\<rparr>"
  let ?d1 = "\<lparr>module = loadavg, text' = ''load'', tooltip = []\<rparr>"
  have st1: "?st1 =
    (\<lparr>statusItems = [0, 1], timer = Some 0, the_context = Some [0, 1]\<rparr>,
     \<lparr>items = [\<lparr>item_alignment = Some Left, item_priority = - 1, item_text = ''cpu'',
                 item_tooltip = ''CpuLoad'', shown = True, disposed = False\<rparr>,
               \<lparr>item_alignment = Some Left, item_priority = - 1, item_text = [],
                 item_tooltip = [], shown = False, disposed = False\<rparr>],
      timers = [(0, 1000)], next_timer = 1, powerShell = False\<rparr>)"
    by (simp add: tick_eval driver_eval)
  have ok: "slots_ok ?cfg ?st1" unfolding st1 by (simp add: slots_ok_def example_setting_def)
  have m: "0 < length (curModules ?cfg)" "1 < length (curModules ?cfg)"
    "curModules ?cfg ! 0 = cpuLoad" "curModules ?cfg ! 1 = loadavg"
    by (simp_all add: example_setting_def)
  have d0: "module_promise ?u ?cfg ?e2 (curModules ?cfg ! 0) = Inr ?d0"
    by (simp add: tick_eval example_utils_def example_setting_def)
  have d1: "module_promise ?u ?cfg ?e2 (curModules ?cfg ! 1) = Inr ?d1"
    by (simp add: tick_eval example_utils_def example_setting_def)
  have len: "length (items (snd (fst (getSysInfo ?u ?cfg ?e2 ?st1)))) = 2"
    using getSysInfo_keeps [of ?u ?cfg ?e2 ?st1] unfolding st1 by simp
  from placeholder_keeps_slot [OF ok m(1) d0]
  have i0: "items (snd (fst (getSysInfo ?u ?cfg ?e2 ?st1))) ! 0
      = \<lparr>item_alignment = Some Left, item_priority = - 1, item_text = ''cpu'',
          item_tooltip = ''CpuLoad'', shown = True, disposed = False\<rparr>"
    unfolding st1 by simp
  from placeholder_keeps_slot [OF ok m(2) d1]
  have i1: "items (snd (fst (getSysInfo ?u ?cfg ?e2 ?st1))) ! 1
      = \<lparr>item_alignment = Some Left, item_priority = - 1, item_text = ''load'',
          item_tooltip = ''Loadavg'', shown = True, disposed = False\<rparr>"
    unfolding st1 m(4) by simp
  have "items (snd (fst (getSysInfo ?u ?cfg ?e2 ?st1)))
      = [items (snd (fst (getSysInfo ?u ?cfg ?e2 ?st1))) ! 0,
         items (snd (fst (getSysInfo ?u ?cfg ?e2 ?st1))) ! 1]"
    using len by (auto simp: list_eq_iff_nth_eq less_Suc_eq numeral_2_eq_2)
  with i0 i1 have its: "items (snd (fst (getSysInfo ?u ?cfg ?e2 ?st1)))
      = [\<lparr>item_alignment = Some Left, item_priority = - 1, item_text = ''cpu'',
            item_tooltip = ''CpuLoad'', shown = True, disposed = False\<rparr>,
          \<lparr>item_alignment = Some Left, item_priority = - 1, item_text = ''load'',
            item_tooltip = ''Loadavg'', shown = True, disposed = False\<rparr>]"
    by simp
  from ok d0 d1 its show ?thesis unfolding m(3,4) by blast
qed

text \<open>
  C3, as amended. Every adapter settles, for every outcome of the calls it makes, to a
  reading of its kind or to "no value", and never rejects; an error thrown by the call it
  depends on gives "no value". So in every state that the driver reaches after \<open>init\<close>,
  whatever the other adapters of a tick did, every slot at whose position the adapter
  settled to a reading that is not formatted as the placeholder gets the formatted text
  and is shown.
\<close>

theorem adapters_settle_and_tick_goes_on:
  "(\<exists>r. sysinfoData u m env = Inr r \<and> kind_of r = m)
   \<and> getCpuLoad (env\<lparr>si_currentLoad := Inl e\<rparr>) = Inr None
   \<and> getLoadavg (env\<lparr>os_loadavg := Inl e\<rparr>) = Inr None
   \<and> getNetworkSpeed (env\<lparr>si_networkInterfaceDefault := Inl e\<rparr>) = Inr None
   \<and> getNetworkSpeed (env\<lparr>si_networkStats := \<lambda>iface. Inl e\<rparr>) = Inr None
   \<and> getNetworkSpeed (env\<lparr>si_networkStats := \<lambda>iface. Inr []\<rparr>) = Inr None
   \<and> getUpTime (env\<lparr>os_uptime := Inl e\<rparr>) = Inr None
   \<and> getMemoryUsage u (env\<lparr>getMacOsMemoryUsageInfo := Inl e, si_mem := Inl e\<rparr>) = Inr None
   \<and> getGpuLoad (env\<lparr>exec := \<lambda>cmd. Inl e\<rparr>) = Inr None
   \<and> (reachable u st \<longrightarrow>
         (\<forall>i<length (curModules cfg). i < length (statusItems (fst st)) \<longrightarrow> (\<forall>r.
               sysinfoData u (curModules cfg ! i) env = Inr r \<longrightarrow> formatter u cfg r \<noteq> ''-'' \<longrightarrow>
                 item_text (items (snd (fst (getSysInfo u cfg env st))) ! (statusItems (fst st) ! i))
                   = formatter u cfg r
                 \<and> shown (items (snd (fst (getSysInfo u cfg env st))) ! (statusItems (fst st) ! i)))))"
proof -
  have t: "reachable u st \<longrightarrow>
         (\<forall>i<length (curModules cfg). i < length (statusItems (fst st)) \<longrightarrow> (\<forall>r.
               sysinfoData u (curModules cfg ! i) env = Inr r \<longrightarrow> formatter u cfg r \<noteq> ''-'' \<longrightarrow>
                 item_text (items (snd (fst (getSysInfo u cfg env st))) ! (statusItems (fst st) ! i))
                   = formatter u cfg r
                 \<and> shown (items (snd (fst (getSysInfo u cfg env st))) ! (statusItems (fst st) ! i))))"
  proof (intro allI impI)
    fix i r
    assume rch: "reachable u st"
      and i: "i < length (curModules cfg)" "i < length (statusItems (fst st))"
      and r: "sysinfoData u (curModules cfg ! i) env = Inr r"
      and f: "formatter u cfg r \<noteq> ''-''"
    from rch have hd: "distinct (statusItems (fst st))"
      and hv: "list_all (\<lambda>i. i < length (items (snd st))) (statusItems (fst st))"
      using reachable_slots by blast+
    have d: "module_promise u cfg env (curModules cfg ! i) = Inr (formatRes u cfg (curModules cfg ! i) r)"
      using r by (simp add: module_promise_def await_def)
    from getSysInfo_slots(1) [OF hd hv i d] f
    show "item_text (items (snd (fst (getSysInfo u cfg env st))) ! (statusItems (fst st) ! i))
                   = formatter u cfg r
                 \<and> shown (items (snd (fst (getSysInfo u cfg env st))) ! (statusItems (fst st) ! i))"
      by (simp add: formatRes_def shown_item_def)
  qed
  note k = sysinfoData_kind [of u m env]
  show ?thesis using t k failure_no_value by blast
qed

text \<open>
  An instance: the CPU adapter fails, the load average is read, and slot 1 shows the load
  average.
\<close>

theorem adapters_settle_and_tick_goes_on_witness:
  "reachable (example_utils False)
     (init (example_utils False) (example_setting True [cpuLoad, loadavg]) []
        (new_StatsBar, new_host))
   \<and> statusItems (fst (init (example_utils False) (example_setting True [cpuLoad, loadavg]) []
        (new_StatsBar, new_host))) = [0, 1]
   \<and> sysinfoData (example_utils False) cpuLoad
        (failing_env\<lparr>os_loadavg := Inr [Some (Num 1), Some (Num 2), Some (Num 3)]\<rparr>)
       = Inr (RCpuLoad None)
   \<and> sysinfoData (example_utils False) loadavg
        (failing_env\<lparr>os_loadavg := Inr [Some (Num 1), Some (Num 2), Some (Num 3)]\<rparr>)
       = Inr (RLoadavg (Some [Some (Num 1), Some (Num 2), Some (Num 3)]))
   \<and> item_text (items (snd (fst (getSysInfo (example_utils False)
        (example_setting True [cpuLoad, loadavg])
        (failing_env\<lparr>os_loadavg := Inr [Some (Num 1), Some (Num 2), Some (Num 3)]\<rparr>)
        (init (example_utils False) (example_setting True [cpuLoad, loadavg]) []
           (new_StatsBar, new_host))))) ! 1) = ''load''
   \<and> shown (items (snd (fst (getSysInfo (example_utils False)
        (example_setting True [cpuLoad, loadavg])
        (failing_env\<lparr>os_loadavg := Inr [Some (Num 1), Some (Num 2), Some (Num 3)]\<rparr>)
        (init (example_utils False) (example_setting True [cpuLoad, loadavg]) []
           (new_StatsBar, new_host))))) ! 1)"
proof -
  let ?cfg = "example_setting True [cpuLoad, loadavg]"
  let ?u = "example_utils False"
  let ?env = "failing_env\<lparr>os_loadavg := Inr [Some (Num 1), Some (Num 2), Some (Num 3)]\<rparr>"
  let ?st = "init ?u ?cfg [] (new_StatsBar, new_host)"
  let ?r = "RLoadavg (Some [Some (Num 1), Some (Num 2), Some (Num 3)])"
  have rch: "reachable ?u ?st" by (rule reachable.after_init)
  have st: "statusItems (fst ?st) = [0, 1]" by (simp add: driver_eval)
  have sl: "1 < length (statusItems (fst ?st))" unfolding st by simp
  have m: "1 < length (curModules ?cfg)" "curModules ?cfg ! 1 = loadavg"
    by (simp_all add: example_setting_def)
  have r0: "sysinfoData ?u cpuLoad ?env = Inr (RCpuLoad None)"
    by (simp add: tick_eval)
  have r1: "sysinfoData ?u loadavg ?env = Inr ?r"
    by (simp add: tick_eval)
  have f: "formatter ?u ?cfg ?r = ''load''"
    by (simp add: formatLoadavg_def example_utils_def example_setting_def)
  have nf: "formatter ?u ?cfg ?r \<noteq> ''-''" unfolding f by simp
  note t = adapters_settle_and_tick_goes_on [where u = ?u and m = loadavg and env = ?env
      and cfg = ?cfg and st = ?st]
  note tk = t [THEN conjunct2, THEN conjunct2, THEN conjunct2, THEN conjunct2, THEN conjunct2,
      THEN conjunct2, THEN conjunct2, THEN conjunct2, THEN conjunct2, THEN mp, OF rch,
      rule_format, OF m(1) sl, of ?r]
  have "item_text (items (snd (fst (getSysInfo ?u ?cfg ?env ?st))) ! (statusItems (fst ?st) ! 1))
            = formatter ?u ?cfg ?r
          \<and> shown (items (snd (fst (getSysInfo ?u ?cfg ?env ?st))) ! (statusItems (fst ?st) ! 1))"
    using tk r1 nf unfolding m(2) by (simp only: simp_thms)
  then have w1: "item_text (items (snd (fst (getSysInfo ?u ?cfg ?env ?st))) ! 1) = ''load''"
    and w2: "shown (items (snd (fst (getSysInfo ?u ?cfg ?env ?st))) ! 1)"
    unfolding st f by simp_all
  show ?thesis by (intro conjI; rule rch st r0 r1 w1 w2)
qed

text \<open>
  C3 as stated fails: an adapter that succeeded does not always have its slot updated. In
  this tick the network adapter fails, the CPU adapter succeeds with a load of exactly 0,
  and the GPU adapter succeeds on a Tegra with the empty list (no line of the output
  matches the pattern). Both readings are formatted as the placeholder, and the tick
  changes nothing: the three slots stay hidden.
\<close>

theorem succeeded_adapter_slot_not_updated:
  "sysinfoData (example_utils False) networkSpeed
      (failing_env\<lparr>si_currentLoad := Inr (Num 0),
         exec := \<lambda>cmd. if cmd = ''uname -m'' then Inr (''aarch64-tegra'', [])
                         else Inr (''RAM 2448/3956MB (lfb 2x4MB) GR3D_FREQ 0%'', [])\<rparr>)
     = Inr (RNetworkSpeed None)
   \<and> sysinfoData (example_utils False) cpuLoad
      (failing_env\<lparr>si_currentLoad := Inr (Num 0),
         exec := \<lambda>cmd. if cmd = ''uname -m'' then Inr (''aarch64-tegra'', [])
                         else Inr (''RAM 2448/3956MB (lfb 2x4MB) GR3D_FREQ 0%'', [])\<rparr>)
     = Inr (RCpuLoad (Some (Num 0)))
   \<and> sysinfoData (example_utils False) gpuLoad
      (failing_env\<lparr>si_currentLoad := Inr (Num 0),
         exec := \<lambda>cmd. if cmd = ''uname -m'' then Inr (''aarch64-tegra'', [])
                         else Inr (''RAM 2448/3956MB (lfb 2x4MB) GR3D_FREQ 0%'', [])\<rparr>)
     = Inr (RGpuLoad (Some []))
   \<and> getSysInfo (example_utils False) (example_setting True [networkSpeed, cpuLoad, gpuLoad])
      (failing_env\<lparr>si_currentLoad := Inr (Num 0),
         exec := \<lambda>cmd. if cmd = ''uname -m'' then Inr (''aarch64-tegra'', [])
                         else Inr (''RAM 2448/3956MB (lfb 2x4MB) GR3D_FREQ 0%'', [])\<rparr>)
      (init (example_utils False) (example_setting True [networkSpeed, cpuLoad, gpuLoad]) []
         (new_StatsBar, new_host))
     = (init (example_utils False) (example_setting True [networkSpeed, cpuLoad, gpuLoad]) []
          (new_StatsBar, new_host), None)
   \<and> map shown (items (snd (init (example_utils False)
         (example_setting True [networkSpeed, cpuLoad, gpuLoad]) [] (new_StatsBar, new_host))))
     = [False, False, False]"
  by (simp add: tick_eval driver_eval trim_def is_space_def str_includes.simps
      split_def split_from.simps tegra_line_def match_here_def is_digit_def
      filter_Boolean_def List.map_filter_def)

section \<open>The memory formatter\<close>

lemma dbl_eval:
  "to_double 0 = Num 0" "to_double 8 = Num 8" "to_double 16 = Num 16" "to_double 4 = Num 4"
  "to_double 23 = Num 23" "to_double 40 = Num 40" "to_double 50 = Num 50" "to_double 25 = Num 25"
  "to_double (1 / 2) = Num (1 / 2)" "to_double (1 / 4) = Num (1 / 4)"
  "to_double (1455993913 / 1073741824) = Num (1455993913 / 1073741824)"
  "to_double (34 / 25) = Num (6124895493223875 / 4503599627370496)"
  "to_double (6124895493223875 / 72057594037927936) = Num (6124895493223875 / 72057594037927936)"
  "to_double (153122387330596875 / 18014398509481984) = Num (17 / 2)"
  "to_double (23 / 40) = Num (2589569785738035 / 4503599627370496)"
  "to_double (64739244643450875 / 1125899906842624) = Num (8092405580431359 / 140737488355328)"
  by (simp_all add: double_eval)

lemma dec_eval:
  "dec 800 = ''800''" "dec 1600 = ''1600''" "dec 400 = ''400''" "dec 2300 = ''2300''"
  "dec 4000 = ''4000''" "dec 136 = ''136''" "dec 50 = ''50''" "dec 25 = ''25''" "dec 0 = ''0''"
  "dec 9 = ''9''" "dec 57 = ''57''" "dec 8 = ''8''" "dec 58 = ''58''"
  by (simp_all add: dec.simps digit_char_def)

lemma fixed_eval:
  "fixed_digits 2 8 = ''8.00''" "fixed_digits 2 16 = ''16.00''" "fixed_digits 2 4 = ''4.00''"
  "fixed_digits 2 23 = ''23.00''" "fixed_digits 2 40 = ''40.00''"
  "fixed_digits 2 (1455993913 / 1073741824) = ''1.36''"
  "fixed_digits 0 50 = ''50''" "fixed_digits 0 25 = ''25''" "fixed_digits 0 0 = ''0''"
  "fixed_digits 0 (17 / 2) = ''9''"
  "fixed_digits 0 (8092405580431359 / 140737488355328) = ''57''"
  "fixed_digits 0 (36399847825 / 4294967296) = ''8''"
  "fixed_digits 0 (115 / 2) = ''58''"
  by (simp_all add: fixed_digits_def Let_def floor_rat_numeral dec_eval)

lemma number_eval:
  "StringToNumber ''8.00'' = Num 8" "StringToNumber ''16.00'' = Num 16"
  "StringToNumber ''4.00'' = Num 4" "StringToNumber ''1.36'' = Num (6124895493223875 / 4503599627370496)"
  "StringToNumber ''23.00'' = Num 23" "StringToNumber ''40.00'' = Num 40"
  by (simp_all add: num_eval dbl_eval)

lemmas memo_eval = memoUsage_dict_def example_utils_def formatBytes_custom_def customSize_def
  dbl_eval fixed_eval number_eval

text \<open>
  The rounding at three products and quotients: the literal \<open>0.155\<close> times 100 is \<open>15.5\<close>,
  and \<open>9.20 / 16 * 100\<close> and \<open>23 / 40 * 100\<close> are both the double below \<open>57.5\<close>.
\<close>

lemma double_examples:
  "js_mul (to_double (155 / 1000)) (Num 100) = Num (31 / 2)"
  "js_mul (js_div (to_double (920 / 100)) (Num 16)) (Num 100)
     = Num (8092405580431359 / 140737488355328)"
  "js_mul (js_div (Num 23) (Num 40)) (Num 100) = Num (8092405580431359 / 140737488355328)"
  by (simp_all add: double_eval)

lemma length_dec: "Suc 0 \<le> length (dec n)"
  using dec_not_empty [of n] by (cases "dec n") simp_all

lemma fixed_digits_0: "fixed_digits 0 x = dec (nat \<lfloor>x + 1 / 2\<rfloor>)"
  by (simp add: fixed_digits_def Let_def length_dec)

text \<open>
  C4, as amended. Given that \<open>formatBytes\<close> with the size \<open>1024^3\<close> and 2 decimals does what
  the specification says (the bytes over the size, written with 2 decimals), the memory
  formatter converts the total bytes and, on macOS, the used bytes, on every other
  platform the active bytes, to gibibytes with 2 decimals. \<open>percent\<close> is computed from the
  two converted values, not from the bytes: each is read back as a number (the double
  nearest to the written hundredths), the first is divided by the second and the quotient
  is multiplied by 100, each of the two operations rounding its result to a double.
  \<open>pressurePercent\<close> is the pressure ratio (0 when the field is absent, which gives \<open>0\<close>)
  times 100, rounded to a double. Both are rendered by \<open>toFixed(0)\<close>, which for a value that
  is not negative is the nearest integer, a tie going up; \<open>unit\<close> is \<open>GB\<close>. On macOS the
  reading with \<open>used\<close> \<open>8 * 1024^3\<close>, \<open>total\<close> \<open>16 * 1024^3\<close> and the pressure ratio 0.5 gives
  \<open>percent\<close> \<open>50\<close>, \<open>pressurePercent\<close> \<open>50\<close> and \<open>unit\<close> \<open>GB\<close>.
\<close>

theorem memoUsage_dict_entries:
  assumes fb: "\<forall>b. data (formatBytes u (Some b) (Some 2) (Some customSize))
                    = formatBytes_custom b 2 customSize"
  shows "formatMemoUsage u cfg None = ''-''
    \<and> formatMemoUsage u cfg (Some res) = formatByDict u (MemoUsageFormat cfg) (memoUsage_dict u res)
    \<and> customSize = 1024 ^ 3
    \<and> memoUsage_dict u res =
        [(''used'', Some (formatBytes_custom (if isDarwin u then used res else active res) 2 customSize)),
         (''total'', Some (formatBytes_custom (total res) 2 customSize)),
         (''unit'', Some (JStr ''GB'')),
         (''percent'', Some (JStr (toFixed 0 (js_mul
            (js_div
               (Number (formatBytes_custom (if isDarwin u then used res else active res) 2 customSize))
               (Number (formatBytes_custom (total res) 2 customSize)))
            (Num 100))))),
         (''pressurePercent'', Some (JStr (toFixed 0 (js_mul (or_zero (pressurePercent res)) (Num 100)))))]
    \<and> formatBytes_custom v 2 customSize = JStr (toFixed 2 (js_div v (Num (1024 ^ 3))))
    \<and> js_div (Num b) (Num (1024 ^ 3)) = to_double (b / 1024 ^ 3)
    \<and> js_div (Num b) (Num c) = (if c = 0 then signed_inf b else to_double (b / c))
    \<and> js_mul (Num b) (Num 100) = to_double (b * 100)
    \<and> toFixed 0 (js_mul (or_zero None) (Num 100)) = ''0''
    \<and> (0 \<le> x \<longrightarrow> toFixed 0 (Num x) = dec (nat \<lfloor>x + 1 / 2\<rfloor>))
    \<and> (0 \<le> y \<longrightarrow>
         Number (JStr (toFixed 2 (Num y))) = to_double (of_int \<lfloor>y * 100 + 1 / 2\<rfloor> / 100))
    \<and> (isDarwin u \<longrightarrow>
         memoUsage_dict u \<lparr>total = Num (16 * 1024 ^ 3), used = Num (8 * 1024 ^ 3), active = a,
                            pressurePercent = Some (Num (1 / 2)), usagePercent = p\<rparr>
           = [(''used'', Some (JStr ''8.00'')), (''total'', Some (JStr ''16.00'')),
              (''unit'', Some (JStr ''GB'')), (''percent'', Some (JStr ''50'')),
              (''pressurePercent'', Some (JStr ''50''))])"
proof -
  have d: "memoUsage_dict u res =
        [(''used'', Some (formatBytes_custom (if isDarwin u then used res else active res) 2 customSize)),
         (''total'', Some (formatBytes_custom (total res) 2 customSize)),
         (''unit'', Some (JStr ''GB'')),
         (''percent'', Some (JStr (toFixed 0 (js_mul
            (js_div
               (Number (formatBytes_custom (if isDarwin u then used res else active res) 2 customSize))
               (Number (formatBytes_custom (total res) 2 customSize)))
            (Num 100))))),
         (''pressurePercent'', Some (JStr (toFixed 0 (js_mul (or_zero (pressurePercent res)) (Num 100)))))]"
    for res
    using fb by (simp add: memoUsage_dict_def Let_def)
  have e: "isDarwin u \<longrightarrow>
         memoUsage_dict u \<lparr>total = Num (16 * 1024 ^ 3), used = Num (8 * 1024 ^ 3), active = a,
                            pressurePercent = Some (Num (1 / 2)), usagePercent = p\<rparr>
           = [(''used'', Some (JStr ''8.00'')), (''total'', Some (JStr ''16.00'')),
              (''unit'', Some (JStr ''GB'')), (''percent'', Some (JStr ''50'')),
              (''pressurePercent'', Some (JStr ''50''))]"
    unfolding d
    by (simp add: formatBytes_custom_def customSize_def dbl_eval fixed_eval number_eval)
  have f: "formatMemoUsage u cfg None = ''-''"
    and f': "formatMemoUsage u cfg (Some res)
               = formatByDict u (MemoUsageFormat cfg) (memoUsage_dict u res)"
    by (simp_all add: formatMemoUsage_def)
  have c: "customSize = 1024 ^ 3" by (simp add: customSize_def)
  have fc: "formatBytes_custom v 2 customSize = JStr (toFixed 2 (js_div v (Num (1024 ^ 3))))"
    by (simp add: formatBytes_custom_def customSize_def)
  have dv: "js_div (Num b) (Num (1024 ^ 3)) = to_double (b / 1024 ^ 3)" by simp
  have dc: "js_div (Num b) (Num c) = (if c = 0 then signed_inf b else to_double (b / c))"
    by simp
  have ml: "js_mul (Num b) (Num 100) = to_double (b * 100)" by simp
  have z: "toFixed 0 (js_mul (or_zero None) (Num 100)) = ''0''"
    by (simp add: dbl_eval fixed_eval)
  have r: "0 \<le> x \<longrightarrow> toFixed 0 (Num x) = dec (nat \<lfloor>x + 1 / 2\<rfloor>)"
    by (simp add: fixed_digits_0)
  have g: "0 \<le> y \<longrightarrow>
         Number (JStr (toFixed 2 (Num y))) = to_double (of_int \<lfloor>y * 100 + 1 / 2\<rfloor> / 100)"
    using StringToNumber_toFixed2 [of y] by simp
  note dr = d [of res]
  show ?thesis by (intro conjI; rule f f' c dr fc dv dc ml z r g e)
qed

text \<open>
  An instance: the module \<open>utils\<close> of the examples on macOS, and the reading of the claim.
\<close>

theorem memoUsage_dict_entries_witness:
  "(\<forall>b. data (formatBytes (example_utils True) (Some b) (Some 2) (Some customSize))
          = formatBytes_custom b 2 customSize)
   \<and> isDarwin (example_utils True)
   \<and> memoUsage_dict (example_utils True)
        \<lparr>total = Num (16 * 1024 ^ 3), used = Num (8 * 1024 ^ 3), active = Num (4 * 1024 ^ 3),
         pressurePercent = Some (Num (1 / 2)), usagePercent = Some (Num (1 / 2))\<rparr>
       = [(''used'', Some (JStr ''8.00'')), (''total'', Some (JStr ''16.00'')),
          (''unit'', Some (JStr ''GB'')), (''percent'', Some (JStr ''50'')),
          (''pressurePercent'', Some (JStr ''50''))]
   \<and> (0::rat) \<le> 8
   \<and> Number (JStr (toFixed 2 (Num 8))) = to_double (of_int \<lfloor>8 * 100 + 1 / 2 :: rat\<rfloor> / 100)
   \<and> toFixed 0 (Num 8) = dec (nat \<lfloor>8 + 1 / 2 :: rat\<rfloor>)"
proof -
  have h: "\<forall>b. data (formatBytes (example_utils True) (Some b) (Some 2) (Some customSize))
          = formatBytes_custom b 2 customSize"
    by (simp add: example_utils_def)
  have dw: "isDarwin (example_utils True)" by (simp add: example_utils_def)
  have p: "(0::rat) \<le> 8" by simp
  note t = memoUsage_dict_entries [OF h, where x = 8 and y = 8 and a = "Num (4 * 1024 ^ 3)"
      and p = "Some (Num (1 / 2))"]
  note ex = t [THEN conjunct2, THEN conjunct2, THEN conjunct2, THEN conjunct2, THEN conjunct2,
      THEN conjunct2, THEN conjunct2, THEN conjunct2, THEN conjunct2, THEN conjunct2,
      THEN conjunct2, THEN mp, OF dw]
  note rd = t [THEN conjunct2, THEN conjunct2, THEN conjunct2, THEN conjunct2, THEN conjunct2,
      THEN conjunct2, THEN conjunct2, THEN conjunct2, THEN conjunct2, THEN conjunct2,
      THEN conjunct1, THEN mp, OF p]
  note fx = t [THEN conjunct2, THEN conjunct2, THEN conjunct2, THEN conjunct2, THEN conjunct2,
      THEN conjunct2, THEN conjunct2, THEN conjunct2, THEN conjunct2, THEN conjunct1, THEN mp, OF p]
  show ?thesis by (intro conjI; rule h dw ex p rd fx)
qed

text \<open>
  C4 as stated fails in three ways. Where the platform is not macOS the formatter converts
  the active bytes, not the used ones: the reading of the claim, with 4 gibibytes active,
  gives \<open>used\<close> \<open>4.00\<close> and \<open>percent\<close> \<open>25\<close>. \<open>percent\<close> is not the quotient of the bytes: on
  macOS 1455993913 bytes of 16 gibibytes are 8.475 percent, which rounds to 8, but the
  converted value is \<open>1.36\<close>, and \<open>1.36 / 16 * 100\<close> is \<open>8.5\<close>, so \<open>percent\<close> is \<open>9\<close>. And the
  quotient is not rounded once: 23 of 40 gibibytes are 57.5 percent, which \<open>toFixed(0)\<close>
  would render as \<open>58\<close>, but \<open>23 / 40\<close> rounded to a double and multiplied by 100 is the
  double below 57.5, so \<open>percent\<close> is \<open>57\<close>.
\<close>

theorem memoUsage_percent_of_active:
  "\<not> isDarwin (example_utils False)
   \<and> memoUsage_dict (example_utils False)
        \<lparr>total = Num (16 * 1024 ^ 3), used = Num (8 * 1024 ^ 3), active = Num (4 * 1024 ^ 3),
         pressurePercent = Some (Num (1 / 2)), usagePercent = None\<rparr>
       = [(''used'', Some (JStr ''4.00'')), (''total'', Some (JStr ''16.00'')),
          (''unit'', Some (JStr ''GB'')), (''percent'', Some (JStr ''25'')),
          (''pressurePercent'', Some (JStr ''50''))]
   \<and> memoUsage_dict (example_utils True)
        \<lparr>total = Num (16 * 1024 ^ 3), used = Num 1455993913, active = Num 0,
         pressurePercent = None, usagePercent = None\<rparr>
       = [(''used'', Some (JStr ''1.36'')), (''total'', Some (JStr ''16.00'')),
          (''unit'', Some (JStr ''GB'')), (''percent'', Some (JStr ''9'')),
          (''pressurePercent'', Some (JStr ''0''))]
   \<and> toFixed 0 (Num (1455993913 / (16 * 1024 ^ 3) * 100)) = ''8''
   \<and> memoUsage_dict (example_utils True)
        \<lparr>total = Num (40 * 1024 ^ 3), used = Num (23 * 1024 ^ 3), active = Num 0,
         pressurePercent = None, usagePercent = None\<rparr>
       = [(''used'', Some (JStr ''23.00'')), (''total'', Some (JStr ''40.00'')),
          (''unit'', Some (JStr ''GB'')), (''percent'', Some (JStr ''57'')),
          (''pressurePercent'', Some (JStr ''0''))]
   \<and> toFixed 0 (Num (23 * 1024 ^ 3 / (40 * 1024 ^ 3) * 100)) = ''58''"
proof -
  have a: "\<not> isDarwin (example_utils False)" by (simp add: example_utils_def)
  have b: "memoUsage_dict (example_utils False)
        \<lparr>total = Num (16 * 1024 ^ 3), used = Num (8 * 1024 ^ 3), active = Num (4 * 1024 ^ 3),
         pressurePercent = Some (Num (1 / 2)), usagePercent = None\<rparr>
       = [(''used'', Some (JStr ''4.00'')), (''total'', Some (JStr ''16.00'')),
          (''unit'', Some (JStr ''GB'')), (''percent'', Some (JStr ''25'')),
          (''pressurePercent'', Some (JStr ''50''))]"
    by (simp add: memo_eval)
  have c: "memoUsage_dict (example_utils True)
        \<lparr>total = Num (16 * 1024 ^ 3), used = Num 1455993913, active = Num 0,
         pressurePercent = None, usagePercent = None\<rparr>
       = [(''used'', Some (JStr ''1.36'')), (''total'', Some (JStr ''16.00'')),
          (''unit'', Some (JStr ''GB'')), (''percent'', Some (JStr ''9'')),
          (''pressurePercent'', Some (JStr ''0''))]"
    by (simp add: memo_eval)
  have d: "toFixed 0 (Num (1455993913 / (16 * 1024 ^ 3) * 100)) = ''8''"
    by (simp add: fixed_eval)
  have e: "memoUsage_dict (example_utils True)
        \<lparr>total = Num (40 * 1024 ^ 3), used = Num (23 * 1024 ^ 3), active = Num 0,
         pressurePercent = None, usagePercent = None\<rparr>
       = [(''used'', Some (JStr ''23.00'')), (''total'', Some (JStr ''40.00'')),
          (''unit'', Some (JStr ''GB'')), (''percent'', Some (JStr ''57'')),
          (''pressurePercent'', Some (JStr ''0''))]"
    by (simp add: memo_eval)
  have f: "toFixed 0 (Num (23 * 1024 ^ 3 / (40 * 1024 ^ 3) * 100)) = ''58''"
    by (simp add: fixed_eval)
  show ?thesis by (intro conjI; rule a b c d e f)
qed

section \<open>The substitution helper, from the specification\<close>

lemma substitute_unmatched:
  "set (placeholders str) \<inter> fst ` set dict = {} \<Longrightarrow> map (substitute dict) str = str"
proof (induction str rule: placeholders.induct)
  case (3 k segs)
  then have "map_of dict k = None" by (simp add: map_of_eq_None_iff)
  with 3 show ?case by simp
qed simp_all

lemma substitute_all:
  "set (placeholders str) \<subseteq> fst ` set dict \<Longrightarrow>
     placeholders (map (substitute dict) str) = []
     \<and> map (substitute dict) str
         = map (\<lambda>seg. case seg of Lit t \<Rightarrow> Lit t | Placeholder k \<Rightarrow> Lit (the (map_of dict k))) str"
proof (induction str rule: placeholders.induct)
  case (3 k segs)
  then obtain v where "map_of dict k = Some v"
    by (cases "map_of dict k") (auto simp: map_of_eq_None_iff)
  with 3 show ?case by simp
qed simp_all

lemma substitute_twice: "substitute dict (substitute dict seg) = substitute dict seg"
  by (cases seg) (simp_all split: option.splits)

text \<open>
  C9. For \<open>formatByDict\<close> as the specification describes it: a template in which no
  placeholder has an entry in the dictionary is returned as it is; and when every
  placeholder of the template has an entry, the result has no placeholder left and every
  occurrence stands replaced by the value of its entry. In general the placeholders left
  are those without an entry, and substituting again changes nothing.
\<close>

theorem formatByDict_spec_substitution:
  "(set (placeholders str) \<inter> fst ` set dict = {} \<longrightarrow> formatByDict_spec str dict = str)
   \<and> (set (placeholders str) \<subseteq> fst ` set dict \<longrightarrow>
        placeholders (formatByDict_spec str dict) = []
        \<and> formatByDict_spec str dict
            = map (\<lambda>seg. case seg of Lit t \<Rightarrow> Lit t | Placeholder k \<Rightarrow> Lit (the (map_of dict k))) str)
   \<and> set (placeholders (formatByDict_spec str dict)) = set (placeholders str) - fst ` set dict
   \<and> formatByDict_spec (formatByDict_spec str dict) dict = formatByDict_spec str dict"
proof -
  have left: "set (placeholders (map (substitute dict) str)) = set (placeholders str) - fst ` set dict"
  proof (induction str rule: placeholders.induct)
    case (3 k segs)
    show ?case
    proof (cases "map_of dict k")
      case None
      then have "k \<notin> fst ` set dict" by (simp add: map_of_eq_None_iff)
      with None 3 show ?thesis by auto
    next
      case (Some v)
      then have "k \<in> fst ` set dict" using map_of_SomeD by force
      with Some 3 show ?thesis by auto
    qed
  qed simp_all
  from substitute_unmatched [of str dict] substitute_all [of str dict] left
  show ?thesis by (simp add: formatByDict_spec_def substitute_twice)
qed

text \<open>
  Instances: a template whose one placeholder has no entry, and a template with three
  occurrences of two placeholders that have entries.
\<close>

theorem formatByDict_spec_substitution_witness:
  "set (placeholders [Lit ''up '', Placeholder ''days'', Lit ''d'']) \<inter> fst ` set [(''percent'', ''12'')] = {}
   \<and> formatByDict_spec [Lit ''up '', Placeholder ''days'', Lit ''d''] [(''percent'', ''12'')]
       = [Lit ''up '', Placeholder ''days'', Lit ''d'']
   \<and> set (placeholders [Placeholder ''used'', Lit ''/'', Placeholder ''total'', Lit '' '', Placeholder ''used''])
        \<subseteq> fst ` set [(''used'', ''8.00''), (''total'', ''16.00''), (''unit'', ''GB'')]
   \<and> formatByDict_spec
        [Placeholder ''used'', Lit ''/'', Placeholder ''total'', Lit '' '', Placeholder ''used'']
        [(''used'', ''8.00''), (''total'', ''16.00''), (''unit'', ''GB'')]
       = [Lit ''8.00'', Lit ''/'', Lit ''16.00'', Lit '' '', Lit ''8.00'']"
proof -
  have a: "set (placeholders [Lit ''up '', Placeholder ''days'', Lit ''d'']) \<inter> fst ` set [(''percent'', ''12'')] = {}"
    by simp
  have b: "set (placeholders [Placeholder ''used'', Lit ''/'', Placeholder ''total'', Lit '' '', Placeholder ''used''])
        \<subseteq> fst ` set [(''used'', ''8.00''), (''total'', ''16.00''), (''unit'', ''GB'')]"
    by simp
  from formatByDict_spec_substitution [of "[Lit ''up '', Placeholder ''days'', Lit ''d'']" "[(''percent'', ''12'')]"] a
  have c: "formatByDict_spec [Lit ''up '', Placeholder ''days'', Lit ''d''] [(''percent'', ''12'')]
       = [Lit ''up '', Placeholder ''days'', Lit ''d'']"
    by blast
  from formatByDict_spec_substitution [of "[Placeholder ''used'', Lit ''/'', Placeholder ''total'', Lit '' '', Placeholder ''used'']"
      "[(''used'', ''8.00''), (''total'', ''16.00''), (''unit'', ''GB'')]"] b
  have d: "formatByDict_spec
        [Placeholder ''used'', Lit ''/'', Placeholder ''total'', Lit '' '', Placeholder ''used'']
        [(''used'', ''8.00''), (''total'', ''16.00''), (''unit'', ''GB'')]
       = [Lit ''8.00'', Lit ''/'', Lit ''16.00'', Lit '' '', Lit ''8.00'']"
    by simp
  from a b c d show ?thesis by blast
qed

end
